(* ===== verification/Prelude.thy ===== *)
theory Prelude
  imports Complex_Main
begin

text \<open>
  Generic material shared by every component: the exceptions the program raises, results that
  are either an exception or a value, tables of rows with a primary key (the shape of every
  SQLite table of the store), and the small interfaces several components use: an update
  statement that keeps the primary key, a state machine with an invariant, a resource that can
  be spent once, and an exclusive guard.
\<close>

section \<open>Exceptions and results\<close>

text \<open>
  The exception classes the program raises or lets escape. \<open>ProtocolError\<close> and
  \<open>AppAssertionError\<close> subclass Python's \<open>ValueError\<close>, \<open>OSError\<close> stands for itself and its
  subclasses, and \<open>OtherError\<close> for every exception class the program never names.
\<close>

datatype exn =
    ProtocolError string
  | AgentError string
  | AppAssertionError string
  | ValueError
  | TypeError
  | KeyError
  | IntegrityError
  | OverflowError
  | RuntimeError
  | CancelledError
  | OSError
  | ExtensionNotFound
  | RelayCaArtifactError string string
  | RelayCertificateError string string
  | ToolError string
  | RenewalError string
  | OtherError

definition is_value_error :: "exn \<Rightarrow> bool" where
  "is_value_error e = (case e of
       ProtocolError _ \<Rightarrow> True
     | AppAssertionError _ \<Rightarrow> True
     | ValueError \<Rightarrow> True
     | _ \<Rightarrow> False)"

lemma is_value_error_simps [simp]:
  "is_value_error (ProtocolError m)"
  "is_value_error (AppAssertionError m)"
  "is_value_error ValueError"
  "\<not> is_value_error (AgentError m)"
  "\<not> is_value_error TypeError"
  "\<not> is_value_error KeyError"
  "\<not> is_value_error IntegrityError"
  "\<not> is_value_error OverflowError"
  "\<not> is_value_error RuntimeError"
  "\<not> is_value_error CancelledError"
  "\<not> is_value_error OSError"
  "\<not> is_value_error ExtensionNotFound"
  "\<not> is_value_error (RelayCaArtifactError c m)"
  "\<not> is_value_error (RelayCertificateError c m)"
  "\<not> is_value_error (ToolError m)"
  "\<not> is_value_error (RenewalError m)"
  "\<not> is_value_error OtherError"
  by (simp_all add: is_value_error_def)

type_synonym 'a res = "exn + 'a"

text \<open>Sequencing: the first exception ends the computation.\<close>

definition bindR :: "'e + 'a \<Rightarrow> ('a \<Rightarrow> 'e + 'b) \<Rightarrow> 'e + 'b" where
  "bindR m f = (case m of Inl e \<Rightarrow> Inl e | Inr x \<Rightarrow> f x)"

definition requireR :: "bool \<Rightarrow> 'e \<Rightarrow> 'e + unit" where
  "requireR b e = (if b then Inr () else Inl e)"

lemma bindR_simps [simp]:
  "bindR (Inl e) f = Inl e"
  "bindR (Inr x) f = f x"
  by (simp_all add: bindR_def)

lemma requireR_simps [simp]:
  "b \<Longrightarrow> requireR b e = Inr ()"
  "\<not> b \<Longrightarrow> requireR b e = Inl e"
  by (simp_all add: requireR_def)

lemma bindR_eq_Inr [simp]:
  "bindR m f = Inr y \<longleftrightarrow> (\<exists>x. m = Inr x \<and> f x = Inr y)"
  by (cases m) simp_all

lemma bindR_eq_Inl:
  "bindR m f = Inl e \<longleftrightarrow> m = Inl e \<or> (\<exists>x. m = Inr x \<and> f x = Inl e)"
  by (cases m) simp_all

lemma requireR_eq_Inr [simp]: "requireR b e = Inr u \<longleftrightarrow> b"
  by (simp add: requireR_def)

lemma requireR_eq_Inl [simp]: "requireR b e = Inl e' \<longleftrightarrow> \<not> b \<and> e' = e"
  by (auto simp: requireR_def)

section \<open>Tables with a primary key\<close>

text \<open>
  A table is the list of its rows in insertion order. \<open>tbl_get\<close> is a lookup by primary key,
  \<open>tbl_update\<close> is \<open>UPDATE ... WHERE\<close>, \<open>tbl_delete\<close> is
  \<open>DELETE ... WHERE\<close>; \<open>tbl_ok\<close> is the primary key constraint.
\<close>

definition tbl_get :: "('r \<Rightarrow> 'k) \<Rightarrow> 'k \<Rightarrow> 'r list \<Rightarrow> 'r option" where
  "tbl_get key k rows = find (\<lambda>r. key r = k) rows"

definition tbl_insert :: "'r \<Rightarrow> 'r list \<Rightarrow> 'r list" where
  "tbl_insert r rows = rows @ [r]"

definition tbl_update :: "('r \<Rightarrow> bool) \<Rightarrow> ('r \<Rightarrow> 'r) \<Rightarrow> 'r list \<Rightarrow> 'r list" where
  "tbl_update p f rows = map (\<lambda>r. if p r then f r else r) rows"

definition tbl_delete :: "('r \<Rightarrow> bool) \<Rightarrow> 'r list \<Rightarrow> 'r list" where
  "tbl_delete p rows = filter (\<lambda>r. \<not> p r) rows"

definition tbl_count :: "('r \<Rightarrow> bool) \<Rightarrow> 'r list \<Rightarrow> nat" where
  "tbl_count p rows = length (filter p rows)"

definition tbl_ok :: "('r \<Rightarrow> 'k) \<Rightarrow> 'r list \<Rightarrow> bool" where
  "tbl_ok key rows = distinct (map key rows)"

lemma tbl_get_Nil [simp]: "tbl_get key k [] = None"
  by (simp add: tbl_get_def)

lemma tbl_get_Cons [simp]:
  "tbl_get key k (r # rows) = (if key r = k then Some r else tbl_get key k rows)"
  by (simp add: tbl_get_def)

lemma tbl_ok_Nil [simp]: "tbl_ok key []"
  by (simp add: tbl_ok_def)

lemma tbl_ok_Cons [simp]:
  "tbl_ok key (r # rows) \<longleftrightarrow> key r \<notin> key ` set rows \<and> tbl_ok key rows"
  by (simp add: tbl_ok_def)

lemma tbl_get_None_iff: "tbl_get key k rows = None \<longleftrightarrow> k \<notin> key ` set rows"
  by (induction rows) auto

lemma tbl_get_SomeD: "tbl_get key k rows = Some r \<Longrightarrow> r \<in> set rows \<and> key r = k"
  by (induction rows) (auto split: if_splits)

lemma tbl_get_key: "tbl_get key k rows = Some r \<Longrightarrow> key r = k"
  by (drule tbl_get_SomeD) simp

lemma tbl_get_in_set: "tbl_ok key rows \<Longrightarrow> r \<in> set rows \<Longrightarrow> tbl_get key (key r) rows = Some r"
  by (induction rows) (auto simp: image_iff)

lemma tbl_get_insert [simp]:
  "tbl_get key k (tbl_insert r rows) =
     (case tbl_get key k rows of
        Some r' \<Rightarrow> Some r'
      | None \<Rightarrow> if key r = k then Some r else None)"
  by (induction rows) (auto simp: tbl_insert_def)

lemma tbl_ok_insert [simp]:
  "tbl_ok key (tbl_insert r rows) \<longleftrightarrow> tbl_ok key rows \<and> tbl_get key (key r) rows = None"
  by (auto simp: tbl_ok_def tbl_insert_def tbl_get_None_iff)

lemma set_tbl_insert [simp]: "set (tbl_insert r rows) = insert r (set rows)"
  by (auto simp: tbl_insert_def)

lemma tbl_ok_delete [simp]: "tbl_ok key rows \<Longrightarrow> tbl_ok key (tbl_delete p rows)"
  by (induction rows) (auto simp: tbl_delete_def)

lemma set_tbl_delete [simp]: "set (tbl_delete p rows) = {r \<in> set rows. \<not> p r}"
  by (auto simp: tbl_delete_def)

lemma tbl_get_delete_key [simp]:
  "tbl_get key k (tbl_delete (\<lambda>r. key r = k') rows) = (if k = k' then None else tbl_get key k rows)"
  by (induction rows) (auto simp: tbl_delete_def)

lemma set_tbl_update: "set (tbl_update p f rows) = (\<lambda>r. if p r then f r else r) ` set rows"
  by (auto simp: tbl_update_def)

lemma tbl_update_Nil [simp]: "tbl_update p f [] = []"
  by (simp add: tbl_update_def)

lemma tbl_update_Cons [simp]:
  "tbl_update p f (r # rows) = (if p r then f r else r) # tbl_update p f rows"
  by (simp add: tbl_update_def)

lemma tbl_count_Nil [simp]: "tbl_count p [] = 0"
  by (simp add: tbl_count_def)

lemma tbl_count_Cons [simp]: "tbl_count p (r # rows) = (if p r then 1 else 0) + tbl_count p rows"
  by (simp add: tbl_count_def)

lemma tbl_count_key:
  assumes "tbl_ok key rows" and "tbl_get key k rows = Some r" and "p r"
    and "\<And>r. p r \<Longrightarrow> key r = k"
  shows "tbl_count p rows = 1"
  using assms(1,2)
proof (induction rows)
  case Nil
  then show ?case by simp
next
  case (Cons x xs)
  show ?case
  proof (cases "key x = k")
    case True
    with Cons.prems have "k \<notin> key ` set xs" and "x = r" by auto
    then have "filter p xs = []" using assms(4) by (auto simp: filter_empty_conv)
    with \<open>x = r\<close> assms(3) show ?thesis by (simp add: tbl_count_def)
  next
    case False
    with Cons assms(4) show ?thesis by auto
  qed
qed

subsection \<open>Update statements that keep the primary key\<close>

text \<open>
  Every \<open>UPDATE\<close> of the store writes columns other than the primary key. The client facts
  (a lookup through the update, the primary key constraint) are proved once for any such
  statement; each table's theory interprets the locale on its own column assignment.
\<close>

locale row_update =
  fixes key :: "'r \<Rightarrow> 'k"
    and upd :: "'r \<Rightarrow> 'r"
  assumes key_upd: "key (upd r) = key r"
begin

lemma get_update:
  "tbl_get key k (tbl_update p upd rows) =
     map_option (\<lambda>r. if p r then upd r else r) (tbl_get key k rows)"
  by (induction rows) (auto simp: key_upd)

lemma map_key_update: "map key (tbl_update p upd rows) = map key rows"
  by (simp add: tbl_update_def key_upd)

lemma ok_update: "tbl_ok key (tbl_update p upd rows) = tbl_ok key rows"
  by (simp add: tbl_ok_def map_key_update)

lemma keys_update: "key ` set (tbl_update p upd rows) = key ` set rows"
  using map_key_update [of p rows] by (metis set_map)

lemma get_update_miss:
  "(\<And>r. tbl_get key k rows = Some r \<Longrightarrow> \<not> p r) \<Longrightarrow>
   tbl_get key k (tbl_update p upd rows) = tbl_get key k rows"
  by (cases "tbl_get key k rows") (auto simp: get_update)

end

section \<open>State machines with an invariant\<close>

text \<open>
  A component's operations as one step function, run over a list of calls. Each component that
  has an invariant interprets \<open>invariant_machine\<close> on its own step function; \<open>allowed\<close> restricts
  the calls for a fact that only some of them keep. \<open>one_shot\<close> is the contract of a resource that
  can be spent once: after a success it is spent, it stays spent, and no call succeeds on it.
\<close>

primrec run_steps :: "('o \<Rightarrow> 's \<Rightarrow> 's) \<Rightarrow> 'o list \<Rightarrow> 's \<Rightarrow> 's" where
  "run_steps step [] s = s"
| "run_steps step (c # cs) s = run_steps step cs (step c s)"

lemma run_steps_append: "run_steps step (xs @ ys) s = run_steps step ys (run_steps step xs s)"
  by (induction xs arbitrary: s) simp_all

locale invariant_machine =
  fixes step :: "'o \<Rightarrow> 's \<Rightarrow> 's"
    and allowed :: "'o \<Rightarrow> bool"
    and inv :: "'s \<Rightarrow> bool"
  assumes step_inv: "allowed c \<Longrightarrow> inv s \<Longrightarrow> inv (step c s)"
begin

lemma run_inv: "(\<And>c. c \<in> set cs \<Longrightarrow> allowed c) \<Longrightarrow> inv s \<Longrightarrow> inv (run_steps step cs s)"
  by (induction cs arbitrary: s) (simp_all add: step_inv)

end

text \<open>The calls of a run that satisfy a test in the state they are made in.\<close>

primrec count_steps :: "('o \<Rightarrow> 's \<Rightarrow> 's) \<Rightarrow> ('o \<Rightarrow> 's \<Rightarrow> bool) \<Rightarrow> 'o list \<Rightarrow> 's \<Rightarrow> nat" where
  "count_steps step hit [] s = 0"
| "count_steps step hit (c # cs) s = (if hit c s then 1 else 0) + count_steps step hit cs (step c s)"

locale one_shot = spent: invariant_machine step allowed spent
  for step :: "'o \<Rightarrow> 's \<Rightarrow> 's" and allowed :: "'o \<Rightarrow> bool" and spent :: "'s \<Rightarrow> bool" +
  fixes hit :: "'o \<Rightarrow> 's \<Rightarrow> bool"
  assumes hit_spends: "allowed c \<Longrightarrow> hit c s \<Longrightarrow> spent (step c s)"
    and spent_no_hit: "spent s \<Longrightarrow> \<not> hit c s"
begin

lemma no_hit_after_spent:
  "(\<And>c. c \<in> set cs \<Longrightarrow> allowed c) \<Longrightarrow> spent s \<Longrightarrow> count_steps step hit cs s = 0"
  by (induction cs arbitrary: s) (simp_all add: spent.step_inv spent_no_hit)

lemma at_most_once: "(\<And>c. c \<in> set cs \<Longrightarrow> allowed c) \<Longrightarrow> count_steps step hit cs s \<le> 1"
proof (induction cs arbitrary: s)
  case (Cons c cs)
  then show ?case
    by (cases "hit c s") (simp_all add: hit_spends no_hit_after_spent)
qed simp

end

section \<open>Exclusive guards\<close>

text \<open>
  A guard holds at most one owner per key. The client keeps its own table of who holds what;
  \<open>agrees\<close> says that the guard and that table tell the same story.
\<close>

locale exclusive_guard =
  fixes held :: "'s \<Rightarrow> 'k \<Rightarrow> 'r option"
    and acquire :: "'k \<Rightarrow> 'r \<Rightarrow> 's \<Rightarrow> 's option"
    and release :: "'k \<Rightarrow> 's \<Rightarrow> 's"
  assumes acquire_Some: "acquire k r s = Some s' \<Longrightarrow> held s k = None \<and> held s' = (held s)(k \<mapsto> r)"
    and acquire_None: "acquire k r s = None \<longleftrightarrow> held s k \<noteq> None"
    and held_release: "held (release k s) = (held s)(k := None)"
begin

definition agrees :: "'s \<Rightarrow> ('i \<Rightarrow> ('k \<times> 'r) option) \<Rightarrow> bool" where
  "agrees s own \<longleftrightarrow>
     (\<forall>k r. held s k = Some r \<longleftrightarrow> (\<exists>i. own i = Some (k, r)))
     \<and> (\<forall>i j k r r'. own i = Some (k, r) \<longrightarrow> own j = Some (k, r') \<longrightarrow> i = j)"

lemma agrees_cong: "held s = held s' \<Longrightarrow> agrees s own = agrees s' own"
  by (simp add: agrees_def)

lemma agrees_exclusive: "agrees s own \<Longrightarrow> own i = Some (k, r) \<Longrightarrow> own j = Some (k, r') \<Longrightarrow> i = j"
  unfolding agrees_def by blast

lemma agrees_held: "agrees s own \<Longrightarrow> held s k = Some r \<longleftrightarrow> (\<exists>i. own i = Some (k, r))"
  unfolding agrees_def by blast

lemma agrees_idle: "agrees s own \<Longrightarrow> (\<And>i. own i = None) \<Longrightarrow> held s k = None"
  unfolding agrees_def by (metis not_Some_eq option.distinct(1))

lemma agrees_acquire:
  assumes "agrees s own" and "own i = None" and "acquire k r s = Some s'"
  shows "agrees s' (own(i \<mapsto> (k, r)))"
proof -
  have free: "held s k = None" and s': "held s' = (held s)(k \<mapsto> r)"
    using acquire_Some [OF assms(3)] by auto
  have none: "own j \<noteq> Some (k, r')" for j r'
    using assms(1) free unfolding agrees_def by (metis option.distinct(1))
  show ?thesis unfolding agrees_def
  proof (intro conjI allI impI)
    fix k' r'
    show "held s' k' = Some r' \<longleftrightarrow> (\<exists>j. (own(i \<mapsto> (k, r))) j = Some (k', r'))"
    proof (cases "k' = k")
      case True
      with none s' show ?thesis by (auto simp: fun_upd_def)
    next
      case False
      have "(own(i \<mapsto> (k, r))) j = Some (k', r') \<longleftrightarrow> own j = Some (k', r')" for j
        using False assms(2) by (cases "j = i") auto
      with False s' assms(1) show ?thesis unfolding agrees_def by simp
    qed
  next
    fix j j' k' q q'
    assume "(own(i \<mapsto> (k, r))) j = Some (k', q)" and "(own(i \<mapsto> (k, r))) j' = Some (k', q')"
    with none assms(1) show "j = j'" unfolding agrees_def by (auto split: if_splits)
  qed
qed

lemma agrees_release:
  assumes "agrees s own" and "own i = Some (k, r)"
  shows "agrees (release k s) (own(i := None))"
  unfolding agrees_def
proof (intro conjI allI impI)
  fix k' r'
  show "held (release k s) k' = Some r' \<longleftrightarrow> (\<exists>j. (own(i := None)) j = Some (k', r'))"
  proof (cases "k' = k")
    case True
    have "(own(i := None)) j \<noteq> Some (k, r')" for j
      using agrees_exclusive [OF assms] by auto
    with True show ?thesis by (simp add: held_release)
  next
    case False
    have "(own(i := None)) j = Some (k', r') \<longleftrightarrow> own j = Some (k', r')" for j
      using False assms(2) by (cases "j = i") auto
    with False assms(1) show ?thesis unfolding agrees_def by (simp add: held_release)
  qed
next
  fix j j' k' q q'
  assume "(own(i := None)) j = Some (k', q)" and "(own(i := None)) j' = Some (k', q')"
  with assms(1) show "j = j'" unfolding agrees_def by (auto split: if_splits)
qed

end

section \<open>List facts\<close>

lemma length_filter_eq_distinct: "distinct xs \<Longrightarrow> length (filter (\<lambda>y. y = x) xs) \<le> 1"
  by (induction xs) (auto simp: filter_empty_conv)

lemma append_sep_eq:
  assumes "xs @ c # ys = xs' @ c # ys'" and "c \<notin> set xs" and "c \<notin> set xs'"
  shows "xs = xs' \<and> ys = ys'"
  using assms
proof (induction xs arbitrary: xs')
  case Nil
  then show ?case by (cases xs') auto
next
  case (Cons x xs)
  then show ?case by (cases xs') auto
qed

lemma append_sep_eq_right:
  assumes "xs @ c # ys = xs' @ c # ys'" and "c \<notin> set ys" and "c \<notin> set ys'"
  shows "xs = xs' \<and> ys = ys'"
proof -
  have "rev ys @ c # rev xs = rev ys' @ c # rev xs'"
    using assms(1) by (metis append.assoc append_Cons append_Nil rev.simps(2) rev_append)
  from append_sep_eq [OF this] assms(2,3) show ?thesis by simp
qed

end
