(* ===== verification/PyText.thy ===== *)
theory PyText
  imports Prelude "HOL-Library.Char_ord" "HOL-Library.List_Lexorder"
begin

text \<open>
  The text operations of Python the program uses: character classes, \<open>strip\<close>,
  \<open>lower\<close>, \<open>split\<close>, \<open>join\<close>, \<open>replace\<close>, decimal printing and \<open>int(text, base)\<close>, and
  UTF-8. A Python string is a \<^typ>\<open>string\<close> here, so its code points are those below 256;
  strings with larger code points are outside the model.
\<close>

section \<open>Character classes\<close>

abbreviation code :: "char \<Rightarrow> nat" where
  "code c \<equiv> of_char c"

lemma char_eq_code: "c = d \<longleftrightarrow> code c = code d"
  by simp

definition is_upper :: "char \<Rightarrow> bool" where
  "is_upper c = (65 \<le> code c \<and> code c \<le> 90)"

definition is_lower :: "char \<Rightarrow> bool" where
  "is_lower c = (97 \<le> code c \<and> code c \<le> 122)"

definition is_digit :: "char \<Rightarrow> bool" where
  "is_digit c = (48 \<le> code c \<and> code c \<le> 57)"

definition is_alnum :: "char \<Rightarrow> bool" where
  "is_alnum c = (is_upper c \<or> is_lower c \<or> is_digit c)"

text \<open>\<open>str.isspace\<close> for code points below 256.\<close>

definition is_space :: "char \<Rightarrow> bool" where
  "is_space c = ((9 \<le> code c \<and> code c \<le> 13) \<or> (28 \<le> code c \<and> code c \<le> 32)
     \<or> code c = 133 \<or> code c = 160)"

lemmas char_class_defs = is_upper_def is_lower_def is_digit_def is_alnum_def is_space_def

definition newline :: char where
  "newline = CHR 0x0A"

abbreviation nl :: string where
  "nl \<equiv> [newline]"

lemma newline_classes [simp]:
  "is_space newline" "\<not> is_alnum newline" "\<not> is_digit newline" "\<not> is_lower newline" "\<not> is_upper newline"
  by (simp_all add: char_class_defs newline_def)

section \<open>strip, lower, split, join, replace\<close>

definition py_lstrip :: "(char \<Rightarrow> bool) \<Rightarrow> string \<Rightarrow> string" where
  "py_lstrip p s = dropWhile p s"

definition py_strip_chars :: "(char \<Rightarrow> bool) \<Rightarrow> string \<Rightarrow> string" where
  "py_strip_chars p s = rev (dropWhile p (rev (dropWhile p s)))"

definition py_strip :: "string \<Rightarrow> string" where
  "py_strip s = py_strip_chars is_space s"

text \<open>\<open>str.lower\<close>: ASCII capitals and the Latin-1 capitals (192-222 but for 215).\<close>

definition lower_char :: "char \<Rightarrow> char" where
  "lower_char c =
     (if is_upper c \<or> (192 \<le> code c \<and> code c \<le> 222 \<and> code c \<noteq> 215)
      then char_of (code c + 32) else c)"

definition py_lower :: "string \<Rightarrow> string" where
  "py_lower s = map lower_char s"

fun py_split :: "char \<Rightarrow> string \<Rightarrow> string list" where
  "py_split d [] = [[]]"
| "py_split d (c # cs) =
     (if c = d then [] # py_split d cs
      else (case py_split d cs of [] \<Rightarrow> [[c]] | w # ws \<Rightarrow> (c # w) # ws))"

fun py_join :: "string \<Rightarrow> string list \<Rightarrow> string" where
  "py_join d [] = []"
| "py_join d [w] = w"
| "py_join d (w # v # ws) = w @ d @ py_join d (v # ws)"

definition starts_with :: "'a list \<Rightarrow> 'a list \<Rightarrow> bool" where
  "starts_with p s = (take (length p) s = p)"

text \<open>\<open>part in s\<close>, and \<open>s.count(part)\<close> and \<open>s.replace(part, new)\<close> for a non-empty part.\<close>

definition occurs_in :: "'a list \<Rightarrow> 'a list \<Rightarrow> bool" where
  "occurs_in part s = (\<exists>i \<in> set [0..<Suc (length s)]. starts_with part (drop i s))"

function (sequential) count_of :: "'a list \<Rightarrow> 'a list \<Rightarrow> nat" where
  "count_of part [] = 0"
| "count_of part (c # cs) =
     (if part \<noteq> [] \<and> starts_with part (c # cs) then Suc (count_of part (drop (length part) (c # cs)))
      else count_of part cs)"
  by pat_completeness auto
termination
  by (relation "measure (\<lambda>(part, s). length s)") auto

function (sequential) replace_all :: "'a list \<Rightarrow> 'a list \<Rightarrow> 'a list \<Rightarrow> 'a list" where
  "replace_all part new [] = []"
| "replace_all part new (c # cs) =
     (if part \<noteq> [] \<and> starts_with part (c # cs) then new @ replace_all part new (drop (length part) (c # cs))
      else c # replace_all part new cs)"
  by pat_completeness auto
termination
  by (relation "measure (\<lambda>(part, new, s). length s)") auto

text \<open>\<open>s.replace(old, '')\<close>, left to right, for a non-empty \<open>old\<close>.\<close>

function (sequential) py_remove_all :: "string \<Rightarrow> string \<Rightarrow> string" where
  "py_remove_all old [] = []"
| "py_remove_all old (c # cs) =
     (if old \<noteq> [] \<and> starts_with old (c # cs)
      then py_remove_all old (drop (length old) (c # cs))
      else c # py_remove_all old cs)"
  by pat_completeness auto
termination
  by (relation "measure (\<lambda>(old, s). length s)") auto

lemma dropWhile_all_not: "list_all (\<lambda>c. \<not> p c) s \<Longrightarrow> dropWhile p s = s"
  by (cases s) auto

lemma strip_chars_id: "list_all (\<lambda>c. \<not> p c) s \<Longrightarrow> py_strip_chars p s = s"
  by (simp add: py_strip_chars_def dropWhile_all_not list_all_rev)

lemma dropWhile_hd: "xs \<noteq> [] \<Longrightarrow> \<not> p (hd xs) \<Longrightarrow> dropWhile p xs = xs"
  by (cases xs) auto

lemma set_strip_chars: "set (py_strip_chars p s) \<subseteq> set s"
  unfolding py_strip_chars_def
  by (metis order.trans set_dropWhileD set_rev subsetI)

lemma strip_chars_idem [simp]: "py_strip_chars p (py_strip_chars p s) = py_strip_chars p s"
proof -
  let ?u = "dropWhile p s" and ?v = "dropWhile p (rev (dropWhile p s))"
  have v: "?v = [] \<or> \<not> p (hd ?v)" by (metis hd_dropWhile)
  have u: "?u = [] \<or> \<not> p (hd ?u)" by (metis hd_dropWhile)
  have "dropWhile p (rev ?v) = rev ?v"
  proof (cases "?v = []")
    case False
    obtain w where w: "rev ?u = w @ ?v"
      by (metis takeWhile_dropWhile_id)
    then have split: "?u = rev ?v @ rev w" by (metis rev_append rev_rev_ident)
    from False have ne: "rev ?v \<noteq> []" by (metis rev_is_Nil_conv)
    from split ne have "hd ?u = hd (rev ?v)" by (metis hd_append2)
    moreover from split ne have "?u \<noteq> []" by (metis append_is_Nil_conv)
    ultimately have "\<not> p (hd (rev ?v))" using u by metis
    with ne show ?thesis by (rule dropWhile_hd)
  next
    case True
    then show ?thesis by (metis dropWhile.simps(1) rev.simps(1))
  qed
  moreover have "dropWhile p ?v = ?v" by simp
  ultimately show ?thesis by (simp add: py_strip_chars_def)
qed

lemma py_strip_idem [simp]: "py_strip (py_strip s) = py_strip s"
  by (simp add: py_strip_def)

lemma set_py_strip: "set (py_strip s) \<subseteq> set s"
  by (simp add: py_strip_def set_strip_chars)

lemma code_char_of_shift: "code c \<le> 222 \<Longrightarrow> code (char_of (code c + 32)) = code c + 32"
  by simp

lemma lower_char_not_upper [simp]: "\<not> is_upper (lower_char c)"
  by (auto simp: lower_char_def is_upper_def)

lemma lower_char_idem [simp]: "lower_char (lower_char c) = lower_char c"
  by (auto simp: lower_char_def is_upper_def)

lemma lower_char_id: "is_lower c \<or> is_digit c \<or> c \<in> set ''_.-'' \<Longrightarrow> lower_char c = c"
  by (auto simp: lower_char_def char_class_defs)

lemma py_lower_idem [simp]: "py_lower (py_lower s) = py_lower s"
  by (simp add: py_lower_def)

lemma py_join_Cons: "ws \<noteq> [] \<Longrightarrow> py_join d (w # ws) = w @ d @ py_join d ws"
  by (cases ws) simp_all

lemma py_join_inj:
  assumes "py_join [c] ws = py_join [c] ws'" and "ws \<noteq> []" and "ws' \<noteq> []"
    and "\<forall>w \<in> set ws. c \<notin> set w" and "\<forall>w \<in> set ws'. c \<notin> set w"
  shows "ws = ws'"
  using assms
proof (induction ws arbitrary: ws')
  case Nil
  then show ?case by simp
next
  case (Cons w ws)
  obtain v vs where ws': "ws' = v # vs" using Cons.prems(3) by (cases ws') auto
  show ?case
  proof (cases "ws = [] \<or> vs = []")
    case True
    with Cons.prems ws' show ?thesis by (cases ws; cases vs) auto
  next
    case False
    then have "w @ c # py_join [c] ws = v @ c # py_join [c] vs"
      using Cons.prems(1) ws' by (simp add: py_join_Cons)
    from append_sep_eq [OF this] Cons.prems ws' have "w = v" "py_join [c] ws = py_join [c] vs" by auto
    with Cons.IH [of vs] Cons.prems False ws' show ?thesis by simp
  qed
qed

end
