(* ===== verification/PyCodec.thy ===== *)
theory PyCodec
  imports PyText
begin

text \<open>
  Codecs of Python's standard library as the program uses them: decimal printing, \<open>int(text,
  base)\<close>, \<open>str(uuid.UUID(text))\<close>, UTF-8 encoding and the lenient base64 decoder of
  \<open>binascii\<close>. Bytes are natural numbers below 256.
\<close>

type_synonym bytes = "nat list"

section \<open>Printing numbers\<close>

definition digit_char :: "nat \<Rightarrow> char" where
  "digit_char d = (if d < 10 then char_of (48 + d) else char_of (87 + d))"

fun show_nat :: "nat \<Rightarrow> string" where
  "show_nat n = (if n < 10 then [digit_char n] else show_nat (n div 10) @ [digit_char (n mod 10)])"

declare show_nat.simps [simp del]

definition show_int :: "int \<Rightarrow> string" where
  "show_int i = (if i < 0 then CHR ''-'' # show_nat (nat (- i)) else show_nat (nat i))"

fun hex_digits :: "nat \<Rightarrow> int \<Rightarrow> string" where
  "hex_digits 0 n = []"
| "hex_digits (Suc k) n = hex_digits k (n div 16) @ [digit_char (nat (n mod 16))]"

section \<open>int(text, base)\<close>

text \<open>The value of a digit; 99 for a character that is no digit of any base up to 36.\<close>

definition digit_val :: "char \<Rightarrow> nat" where
  "digit_val c = (if is_digit c then code c - 48
     else if is_lower c then code c - 87
     else if is_upper c then code c - 55 else 99)"

text \<open>
  Digits with single underscores between them; \<open>prev\<close> says that an underscore is not
  allowed here (at the start and after another one).
\<close>

fun digits_ok :: "nat \<Rightarrow> bool \<Rightarrow> string \<Rightarrow> bool" where
  "digits_ok b prev [] = (\<not> prev)"
| "digits_ok b prev (c # cs) =
     (if c = CHR ''_'' then \<not> prev \<and> digits_ok b True cs
      else digit_val c < b \<and> digits_ok b False cs)"

definition digits_value :: "nat \<Rightarrow> string \<Rightarrow> int" where
  "digits_value b s =
     foldl (\<lambda>a c. if c = CHR ''_'' then a else a * int b + int (digit_val c)) 0 s"

text \<open>
  The white space \<open>int\<close> skips: the C library's for ASCII text, Unicode's otherwise.
\<close>

definition int_space :: "string \<Rightarrow> char \<Rightarrow> bool" where
  "int_space s c =
     (if list_all (\<lambda>x. code x < 128) s
      then (9 \<le> code c \<and> code c \<le> 13) \<or> code c = 32 else is_space c)"

definition split_sign :: "string \<Rightarrow> bool \<times> string" where
  "split_sign s = (case s of
       [] \<Rightarrow> (False, [])
     | c # cs \<Rightarrow> if c = CHR ''-'' then (True, cs)
                else if c = CHR ''+'' then (False, cs) else (False, s))"

definition skip_hex_prefix :: "nat \<Rightarrow> string \<Rightarrow> string" where
  "skip_hex_prefix b s =
     (if b = 16 \<and> (starts_with ''0x'' s \<or> starts_with ''0X'' s)
      then (let r = drop 2 s in if starts_with ''_'' r then drop 1 r else r) else s)"

text \<open>
  \<open>int(s, b)\<close> for \<open>b\<close> = 10 or 16. CPython refuses decimal literals of more than 4300
  digits.
\<close>

definition py_int :: "nat \<Rightarrow> string \<Rightarrow> int option" where
  "py_int b s =
     (let (neg, r) = split_sign (py_strip_chars (int_space s) s);
          body = skip_hex_prefix b r
      in if digits_ok b True body
            \<and> (b = 16 \<or> length (filter (\<lambda>c. c \<noteq> CHR ''_'') body) \<le> 4300)
         then Some ((if neg then -1 else 1) * digits_value b body) else None)"

section \<open>UUIDs\<close>

definition uuid_text :: "int \<Rightarrow> string" where
  "uuid_text n = (let h = hex_digits 32 n in
     take 8 h @ ''-'' @ take 4 (drop 8 h) @ ''-'' @ take 4 (drop 12 h) @ ''-''
     @ take 4 (drop 16 h) @ ''-'' @ drop 20 h)"

text \<open>\<open>str(uuid.UUID(s))\<close>, \<open>None\<close> where the constructor raises \<open>ValueError\<close>.\<close>

definition uuid_canon :: "string \<Rightarrow> string option" where
  "uuid_canon s =
     (let h0 = py_remove_all ''uuid:'' (py_remove_all ''urn:'' s);
          h = filter (\<lambda>c. c \<noteq> CHR ''-'') (py_strip_chars (\<lambda>c. c \<in> set ''{}'') h0)
      in if length h \<noteq> 32 then None
         else case py_int 16 h of
                None \<Rightarrow> None
              | Some i \<Rightarrow> if 0 \<le> i \<and> i < 2 ^ 128 then Some (uuid_text i) else None)"

section \<open>UTF-8\<close>

definition utf8_char :: "char \<Rightarrow> bytes" where
  "utf8_char c = (if code c < 128 then [code c] else [192 + code c div 64, 128 + code c mod 64])"

definition utf8_encode :: "string \<Rightarrow> bytes" where
  "utf8_encode s = concat (map utf8_char s)"

section \<open>Base64\<close>

text \<open>
  \<open>urlsafe_b64encode\<close> without the padding, and the decoder of \<open>binascii.a2b_base64\<close> in
  its default, non-strict mode: characters outside the alphabet are skipped, and reading stops
  at a complete padding. \<open>q\<close> is the position in the current group of four,
  \<open>left\<close> the bits not yet written and \<open>pads\<close> the padding characters just seen.
\<close>

definition b64_char :: "nat \<Rightarrow> char" where
  "b64_char v = (if v < 26 then char_of (65 + v)
     else if v < 52 then char_of (71 + v)
     else if v < 62 then char_of (v - 4)
     else if v = 62 then CHR ''-'' else CHR ''_'')"

definition b64_val :: "char \<Rightarrow> nat option" where
  "b64_val c = (if is_upper c then Some (code c - 65)
     else if is_lower c then Some (code c - 71)
     else if is_digit c then Some (code c + 4)
     else if c = CHR ''+'' \<or> c = CHR ''-'' then Some 62
     else if c = CHR ''/'' \<or> c = CHR ''_'' then Some 63
     else None)"

fun b64url_encode :: "bytes \<Rightarrow> string" where
  "b64url_encode [] = []"
| "b64url_encode [a] = [b64_char (a div 4), b64_char (a mod 4 * 16)]"
| "b64url_encode [a, b] =
     [b64_char (a div 4), b64_char (a mod 4 * 16 + b div 16), b64_char (b mod 16 * 4)]"
| "b64url_encode (a # b # c # r) =
     b64_char (a div 4) # b64_char (a mod 4 * 16 + b div 16)
     # b64_char (b mod 16 * 4 + c div 64) # b64_char (c mod 64) # b64url_encode r"

fun a2b_base64 :: "nat \<Rightarrow> nat \<Rightarrow> nat \<Rightarrow> string \<Rightarrow> bytes option" where
  "a2b_base64 q left pads [] = (if q = 0 then Some [] else None)"
| "a2b_base64 q left pads (c # cs) =
     (if c = CHR ''='' then
        (if 2 \<le> q \<and> 4 \<le> q + Suc pads then Some []
         else a2b_base64 q left (if 2 \<le> q then Suc pads else pads) cs)
      else case b64_val c of
        None \<Rightarrow> a2b_base64 q left pads cs
      | Some v \<Rightarrow>
          (if q = 0 then a2b_base64 1 v 0 cs
           else if q = 1 then map_option (Cons (left * 4 + v div 16)) (a2b_base64 2 (v mod 16) 0 cs)
           else if q = 2 then map_option (Cons (left * 16 + v div 4)) (a2b_base64 3 (v mod 4) 0 cs)
           else map_option (Cons (left * 64 + v)) (a2b_base64 0 0 0 cs)))"

text \<open>\<open>base64.urlsafe_b64decode(s + "=" * (-len(s) % 4))\<close>; non-ASCII text raises.\<close>

definition b64_padding :: "string \<Rightarrow> string" where
  "b64_padding s = replicate (nat (- int (length s) mod 4)) (CHR ''='')"

definition urlsafe_b64decode :: "string \<Rightarrow> bytes option" where
  "urlsafe_b64decode s =
     (if list_all (\<lambda>c. code c < 128) s then a2b_base64 0 0 0 (s @ b64_padding s) else None)"

section \<open>Properties of the codecs\<close>

subsection \<open>Digits\<close>

lemma digit_char_props:
  assumes "d < 16"
  shows "digit_val (digit_char d) = d"
    and "is_digit (digit_char d) \<or> code (digit_char d) \<in> {97..102}"
  using assms by (auto simp: digit_char_def digit_val_def char_class_defs)

lemma is_digit_digit_char: "d < 10 \<Longrightarrow> is_digit (digit_char d)"
  by (simp add: digit_char_def is_digit_def)

lemma hex_char_not:
  assumes "is_digit c \<or> code c \<in> {97..102}"
  shows "c \<noteq> CHR ''_''" "c \<noteq> CHR ''-''" "c \<noteq> CHR ''+''" "c \<noteq> CHR ''u''" "c \<noteq> CHR ''x''"
    "c \<noteq> CHR ''X''" "c \<noteq> CHR ''{''" "c \<noteq> CHR ''}''" "c \<noteq> CHR '',''" "c \<noteq> newline"
    "\<not> is_space c" "code c < 128" "\<not> int_space s c" "\<not> is_upper c"
  using assms by (auto simp: char_class_defs newline_def int_space_def)

lemma digits_value_snoc:
  "c \<noteq> CHR ''_'' \<Longrightarrow> digits_value b (s @ [c]) = digits_value b s * int b + int (digit_val c)"
  by (simp add: digits_value_def)

lemma set_show_nat: "c \<in> set (show_nat n) \<Longrightarrow> is_digit c"
proof (induction n rule: show_nat.induct)
  case (1 n)
  show ?case
  proof (cases "n < 10")
    case True
    with 1(2) show ?thesis by (simp add: show_nat.simps [of n] is_digit_digit_char)
  next
    case False
    with 1 show ?thesis by (auto simp: show_nat.simps [of n] is_digit_digit_char)
  qed
qed

lemma show_nat_ne [simp]: "show_nat n \<noteq> []"
  by (subst show_nat.simps) simp

lemma digits_value_show_nat: "digits_value 10 (show_nat n) = int n"
proof (induction n rule: show_nat.induct)
  case (1 n)
  show ?case
  proof (cases "n < 10")
    case True
    then show ?thesis
      using digit_char_props(1) [of n] hex_char_not(1) [OF disjI1, OF is_digit_digit_char]
      by (simp add: show_nat.simps [of n] digits_value_def)
  next
    case False
    let ?c = "digit_char (n mod 10)"
    have "?c \<noteq> CHR ''_''" using hex_char_not(1) is_digit_digit_char by simp
    with False 1 show ?thesis
      using digit_char_props(1) [of "n mod 10"]
      by (simp add: show_nat.simps [of n] digits_value_snoc zdiv_int zmod_int)
  qed
qed

lemma digits_value_show_nat_inj: "show_nat m = show_nat n \<longleftrightarrow> m = n"
  by (metis digits_value_show_nat of_nat_eq_iff)

lemma set_show_int: "c \<in> set (show_int i) \<Longrightarrow> is_digit c \<or> c = CHR ''-''"
  using set_show_nat by (auto simp: show_int_def split: if_splits)

lemma show_int_no_newline [simp]: "newline \<notin> set (show_int i)"
  using set_show_int by (fastforce simp: newline_def is_digit_def)

lemma dash_not_show_nat: "show_nat n \<noteq> CHR ''-'' # s"
proof
  assume "show_nat n = CHR ''-'' # s"
  then have "is_digit (CHR ''-'')" using set_show_nat [of "CHR ''-''" n] by simp
  then show False by (simp add: is_digit_def)
qed

lemma show_int_inj [simp]: "show_int i = show_int j \<longleftrightarrow> i = j"
  using dash_not_show_nat
  by (auto simp: show_int_def digits_value_show_nat_inj split: if_splits)
     (metis dash_not_show_nat)+

subsection \<open>UTF-8\<close>

lemma utf8_encode_simps:
  "utf8_encode [] = []"
  "utf8_encode (c # s) = utf8_char c @ utf8_encode s"
  by (simp_all add: utf8_encode_def)

lemma utf8_char_prefix:
  assumes "utf8_char c @ r = utf8_char d @ r'"
  shows "c = d \<and> r = r'"
proof -
  have "code c < 256" "code d < 256" by (metis of_char_mod_256 mod_less_divisor zero_less_numeral)+
  then have "code c div 64 < 4" "code d div 64 < 4" by (auto simp: less_mult_imp_div_less)
  have "code c = code d \<and> r = r'"
  proof (cases "code c < 128 \<or> code d < 128")
    case True
    with assms show ?thesis by (auto simp: utf8_char_def split: if_splits)
  next
    case False
    with assms have "code c div 64 = code d div 64" "code c mod 64 = code d mod 64" "r = r'"
      by (auto simp: utf8_char_def)
    then show ?thesis by (metis div_mult_mod_eq)
  qed
  then show ?thesis by simp
qed

lemma utf8_char_ne: "utf8_char c \<noteq> []"
  by (simp add: utf8_char_def)

lemma utf8_encode_inj [simp]: "utf8_encode s = utf8_encode s' \<longleftrightarrow> s = s'"
proof
  show "utf8_encode s = utf8_encode s' \<Longrightarrow> s = s'"
  proof (induction s arbitrary: s')
    case Nil
    then show ?case by (cases s') (auto simp: utf8_char_ne utf8_encode_simps)
  next
    case (Cons c s)
    then obtain d r where s': "s' = d # r"
      by (cases s') (auto simp: utf8_char_ne utf8_encode_simps)
    with Cons.prems have "c = d \<and> utf8_encode s = utf8_encode r"
      by (intro utf8_char_prefix) (simp add: utf8_encode_simps)
    with Cons.IH s' show ?case by simp
  qed
qed simp

subsection \<open>UUIDs\<close>

lemma length_hex_digits [simp]: "length (hex_digits k n) = k"
  by (induction k arbitrary: n) simp_all

lemma set_hex_digits: "c \<in> set (hex_digits k n) \<Longrightarrow> is_digit c \<or> code c \<in> {97..102}"
proof (induction k arbitrary: n)
  case (Suc k)
  have "nat (n mod 16) < 16" by simp
  with Suc digit_char_props(2) show ?case by auto
qed simp

lemma digits_value_hex:
  "0 \<le> n \<Longrightarrow> digits_value 16 (hex_digits k n) = n mod 16 ^ k"
proof (induction k arbitrary: n)
  case 0
  then show ?case by (simp add: digits_value_def)
next
  case (Suc k)
  let ?d = "nat (n mod 16)"
  have lt: "?d < 16" by simp
  have "digit_char ?d \<noteq> CHR ''_''" by (rule hex_char_not(1) [OF digit_char_props(2) [OF lt]])
  then have "digits_value 16 (hex_digits (Suc k) n) = (n div 16) mod 16 ^ k * 16 + n mod 16"
    using Suc digit_char_props(1) [OF lt] by (simp add: digits_value_snoc pos_imp_zdiv_nonneg_iff)
  also have "\<dots> = n mod 16 ^ Suc k"
    using mod_mult2_eq' [of n 16 "16 ^ k"] by (simp add: algebra_simps zmod_zmult2_eq)
  finally show ?case .
qed

lemma digits_ok_list_all:
  "list_all (\<lambda>c. c \<noteq> CHR ''_'' \<and> digit_val c < b) s \<Longrightarrow> s \<noteq> [] \<or> \<not> prev \<Longrightarrow> digits_ok b prev s"
  by (induction s arbitrary: prev) auto

lemma hex_val_lt: "is_digit c \<or> code c \<in> {97..102} \<Longrightarrow> digit_val c < 16"
  by (auto simp: digit_val_def char_class_defs)

lemma py_int_hex:
  assumes "0 \<le> n" and "0 < k"
  shows "py_int 16 (hex_digits k n) = Some (n mod 16 ^ k)"
proof -
  let ?h = "hex_digits k n"
  have all: "\<And>c. c \<in> set ?h \<Longrightarrow> is_digit c \<or> code c \<in> {97..102}" by (rule set_hex_digits)
  have ne: "?h \<noteq> []" using assms(2) by (metis length_0_conv length_hex_digits less_numeral_extra(3))
  have strip: "py_strip_chars (int_space ?h) ?h = ?h"
    by (rule strip_chars_id) (use all [THEN hex_char_not(13)] in \<open>auto simp: list_all_iff\<close>)
  have sign: "split_sign ?h = (False, ?h)"
    using ne all [THEN hex_char_not(2)] all [THEN hex_char_not(3)]
    by (auto simp: split_sign_def split: list.split)
  have prefix: "skip_hex_prefix 16 ?h = ?h"
  proof -
    have "\<not> starts_with ''0x'' ?h" and "\<not> starts_with ''0X'' ?h"
      using all [THEN hex_char_not(5)] all [THEN hex_char_not(6)]
      by (metis in_set_takeD list.set_intros(1) list.set_intros(2) starts_with_def)+
    then show ?thesis by (simp add: skip_hex_prefix_def)
  qed
  have ok: "digits_ok 16 True ?h"
    using ne all [THEN hex_char_not(1)] all [THEN hex_val_lt]
    by (intro digits_ok_list_all) (auto simp only: list_all_iff)
  show ?thesis
    using assms(1) by (simp add: py_int_def strip sign prefix ok digits_value_hex)
qed

lemma remove_all_id:
  "old \<noteq> [] \<Longrightarrow> hd old \<notin> set s \<Longrightarrow> py_remove_all old s = s"
proof (induction s)
  case (Cons c cs)
  then have "\<not> starts_with old (c # cs)"
    by (cases old) (auto simp: starts_with_def)
  with Cons show ?case by simp
qed simp

lemma set_uuid_text:
  "c \<in> set (uuid_text n) \<Longrightarrow> c = CHR ''-'' \<or> is_digit c \<or> code c \<in> {97..102}"
  using set_hex_digits
  by (auto simp: uuid_text_def Let_def dest!: in_set_takeD in_set_dropD)

lemma length_uuid_text: "length (uuid_text n) = 36"
  by (simp add: uuid_text_def Let_def)

lemma filter_dash_uuid_text: "filter (\<lambda>c. c \<noteq> CHR ''-'') (uuid_text n) = hex_digits 32 n"
proof -
  let ?h = "hex_digits 32 n"
  have id: "filter (\<lambda>c. c \<noteq> CHR ''-'') xs = xs" if "set xs \<subseteq> set ?h" for xs
    using that set_hex_digits hex_char_not(2) by (intro filter_True) blast
  have sub: "set (take a (drop b ?h)) \<subseteq> set ?h" "set (drop b ?h) \<subseteq> set ?h" "set (take a ?h) \<subseteq> set ?h" for a b
    by (meson order.trans set_drop_subset set_take_subset)+
  have "filter (\<lambda>c. c \<noteq> CHR ''-'') (uuid_text n) =
      take 8 ?h @ take 4 (drop 8 ?h) @ take 4 (drop 12 ?h) @ take 4 (drop 16 ?h) @ drop 20 ?h"
    by (simp add: uuid_text_def Let_def id sub)
  also have "\<dots> = take 8 ?h @ drop 8 ?h"
  proof -
    have "take 4 (drop k ?h) @ drop (k + 4) ?h = drop k ?h" for k
      by (metis add.commute append_take_drop_id drop_drop)
    from this [of 8] this [of 12] this [of 16] show ?thesis by simp
  qed
  finally show ?thesis by simp
qed

lemma uuid_canon_text:
  assumes "0 \<le> n" and "n < 2 ^ 128"
  shows "uuid_canon (uuid_text n) = Some (uuid_text n)"
proof -
  let ?t = "uuid_text n"
  have no_u: "CHR ''u'' \<notin> set ?t"
    using set_uuid_text [of "CHR ''u''" n] by (auto simp: is_digit_def)
  have "list_all (\<lambda>c. c \<notin> set ''{}'') ?t"
    using set_uuid_text [of _ n] hex_char_not(7,8) by (fastforce simp: list_all_iff)
  then have strip: "py_strip_chars (\<lambda>c. c \<in> set ''{}'') ?t = ?t" by (rule strip_chars_id)
  have "n mod 16 ^ 32 = n" using assms by simp
  with assms show ?thesis
    using py_int_hex [of n 32]
    by (simp add: uuid_canon_def remove_all_id no_u filter_dash_uuid_text strip [simplified])
qed

lemma uuid_canon_SomeD:
  assumes "uuid_canon s = Some u"
  obtains n where "0 \<le> n" "n < 2 ^ 128" "u = uuid_text n"
  using assms by (auto simp: uuid_canon_def Let_def split: if_splits option.splits)

lemma uuid_canon_idem: "uuid_canon s = Some u \<Longrightarrow> uuid_canon u = Some u"
  by (erule uuid_canon_SomeD) (simp add: uuid_canon_text)

subsection \<open>Base64\<close>

lemma b64_char_props [simp]:
  assumes "v < 64"
  shows "b64_val (b64_char v) = Some v" "b64_char v \<noteq> CHR ''=''" "code (b64_char v) < 128"
    "\<not> is_space (b64_char v)"
  using assms
  by (auto simp: b64_char_def b64_val_def char_class_defs char_of_eq_iff take_bit_eq_mod)

lemma a2b_step:
  assumes "v < 64"
  shows "a2b_base64 0 l p (b64_char v # cs) = a2b_base64 1 v 0 cs"
    and "a2b_base64 1 l p (b64_char v # cs) = map_option (Cons (l * 4 + v div 16)) (a2b_base64 2 (v mod 16) 0 cs)"
    and "a2b_base64 2 l p (b64_char v # cs) = map_option (Cons (l * 16 + v div 4)) (a2b_base64 3 (v mod 4) 0 cs)"
    and "a2b_base64 3 l p (b64_char v # cs) = map_option (Cons (l * 64 + v)) (a2b_base64 0 0 0 cs)"
  using assms by simp_all

lemma a2b_pad:
  "a2b_base64 2 l 0 [CHR ''='', CHR ''=''] = Some []"
  "a2b_base64 3 l 0 [CHR ''=''] = Some []"
  by simp_all

lemma b64_arith:
  fixes a b c :: nat
  assumes "b < 256" and "c < 256"
  shows "a div 4 * 4 + (a mod 4 * 16 + b div 16) div 16 = a"
    and "(a mod 4 * 16 + b div 16) mod 16 * 16 + (b mod 16 * 4 + c div 64) div 4 = b"
    and "(b mod 16 * 4 + c div 64) mod 4 * 64 + c mod 64 = c"
proof -
  have "b div 16 < 16" "c div 64 < 4" using assms by (auto simp: less_mult_imp_div_less)
  then have "(a mod 4 * 16 + b div 16) div 16 = a mod 4"
    "(a mod 4 * 16 + b div 16) mod 16 = b div 16"
    "(b mod 16 * 4 + c div 64) div 4 = b mod 16"
    "(b mod 16 * 4 + c div 64) mod 4 = c div 64"
    by simp_all
  then show "a div 4 * 4 + (a mod 4 * 16 + b div 16) div 16 = a"
    "(a mod 4 * 16 + b div 16) mod 16 * 16 + (b mod 16 * 4 + c div 64) div 4 = b"
    "(b mod 16 * 4 + c div 64) mod 4 * 64 + c mod 64 = c"
    by simp_all
qed

definition b64_pad_len :: "bytes \<Rightarrow> nat" where
  "b64_pad_len bs = (3 - length bs mod 3) mod 3"

lemma b64_pad_len_simps:
  "b64_pad_len [] = 0" "b64_pad_len [a] = 2" "b64_pad_len [a, b] = 1"
  "b64_pad_len (a # b # c # r) = b64_pad_len r"
  by (simp_all add: b64_pad_len_def)

lemma a2b_encode:
  "list_all (\<lambda>b. b < 256) bs \<Longrightarrow>
   a2b_base64 0 l p (b64url_encode bs @ replicate (b64_pad_len bs) (CHR ''='')) = Some bs"
proof (induction bs arbitrary: l p rule: b64url_encode.induct)
  case 1
  then show ?case by (simp add: b64_pad_len_simps)
next
  case (2 a)
  then have v: "a div 4 < 64" "a mod 4 * 16 < 64" by (auto simp: less_mult_imp_div_less)
  have "a div 4 * 4 + a mod 4 * 16 div 16 = a" using b64_arith(1) [of 0 0 a] by simp
  moreover have "replicate 2 (CHR ''='') = [CHR ''='', CHR ''='']" by (simp add: numeral_2_eq_2)
  ultimately show ?case
    by (simp only: b64url_encode.simps b64_pad_len_simps append.simps a2b_step [OF v(1)]
        a2b_step [OF v(2)] a2b_pad option.map)
next
  case (3 a b)
  then have v: "a div 4 < 64" "a mod 4 * 16 + b div 16 < 64" "b mod 16 * 4 < 64"
    by (auto simp: less_mult_imp_div_less)
  have "a div 4 * 4 + (a mod 4 * 16 + b div 16) div 16 = a"
    "(a mod 4 * 16 + b div 16) mod 16 * 16 + b mod 16 * 4 div 4 = b"
    using 3 b64_arith(1,2) [of b 0 a] by (simp_all only: list.pred_inject) simp_all
  moreover have "replicate 1 (CHR ''='') = [CHR ''='']" by simp
  ultimately show ?case
    by (simp only: b64url_encode.simps b64_pad_len_simps append.simps a2b_step [OF v(1)]
        a2b_step [OF v(2)] a2b_step [OF v(3)] a2b_pad option.map)
next
  case (4 a b c r)
  then have v: "a div 4 < 64" "a mod 4 * 16 + b div 16 < 64" "b mod 16 * 4 + c div 64 < 64"
    "c mod 64 < 64" and lt: "b < 256" "c < 256" and r: "list_all (\<lambda>b. b < 256) r"
    by (auto simp: less_mult_imp_div_less)
  show ?case
    by (simp only: b64url_encode.simps b64_pad_len_simps append.simps a2b_step [OF v(1)]
        a2b_step [OF v(2)] a2b_step [OF v(3)] a2b_step [OF v(4)] 4(1) [OF r] b64_arith [OF lt]
        option.map)
qed

lemma length_b64url_encode_mod:
  "nat (- int (length (b64url_encode bs)) mod 4) = b64_pad_len bs"
proof (induction bs rule: b64url_encode.induct)
  case (4 a b c r)
  have "(- int n - 4) mod 4 = - int n mod 4" for n by presburger
  from this [of "length (b64url_encode r)"] show ?case
    using 4 by (simp add: algebra_simps b64_pad_len_simps)
qed (simp_all add: b64_pad_len_simps)

lemma set_b64url_encode:
  "list_all (\<lambda>b. b < 256) bs \<Longrightarrow> c \<in> set (b64url_encode bs) \<Longrightarrow> \<exists>v < 64. c = b64_char v"
proof (induction bs rule: b64url_encode.induct)
  case 1
  then show ?case by simp
next
  case (2 a)
  then have "a div 4 < 64" "a mod 4 * 16 < 64" by (auto simp: less_mult_imp_div_less)
  with 2(2) show ?case by (simp only: b64url_encode.simps list.set insert_iff empty_iff) metis
next
  case (3 a b)
  then have "a div 4 < 64" "a mod 4 * 16 + b div 16 < 64" "b mod 16 * 4 < 64"
    by (auto simp: less_mult_imp_div_less)
  with 3(2) show ?case by (simp only: b64url_encode.simps list.set insert_iff empty_iff) metis
next
  case (4 a b d r)
  have "a div 4 < 64" "a mod 4 * 16 + b div 16 < 64" "b mod 16 * 4 + d div 64 < 64" "d mod 64 < 64"
    using 4(2) by (auto simp: less_mult_imp_div_less)
  with 4 show ?case by (simp only: b64url_encode.simps list.set insert_iff list.pred_inject) metis
qed

lemma urlsafe_b64_roundtrip:
  assumes "list_all (\<lambda>b. b < 256) bs"
  shows "urlsafe_b64decode (b64url_encode bs) = Some bs"
proof -
  have "list_all (\<lambda>c. code c < 128) (b64url_encode bs)"
    using set_b64url_encode [OF assms] by (fastforce simp: list_all_iff)
  then show ?thesis
    using a2b_encode [OF assms]
    by (simp add: urlsafe_b64decode_def b64_padding_def length_b64url_encode_mod)
qed

end
