(* ===== verification/Json.thy ===== *)
theory Json
  imports PyCodec
begin

text \<open>
  JSON values as \<open>json.loads\<close> returns them, with the Python operations the program applies to
  them: truth value, \<open>str\<close> and \<open>repr\<close>, comparison with a constant, and
  \<open>json.dumps\<close> with compact separators and ASCII escapes. An object is the list of its
  members in insertion order, with distinct keys. A float carries its value and the text Python
  prints for it; infinities and NaN are not modelled.
\<close>

datatype json =
    JNull
  | JBool bool
  | JInt int
  | JFloat rat string
  | JStr string
  | JList "json list"
  | JObj "(string \<times> json) list"

type_synonym fields = "(string \<times> json) list"

section \<open>Member access\<close>

text \<open>\<open>d.get(k)\<close>, where a missing key reads as \<open>None\<close>, and \<open>{**d, k: v}\<close> for a key of \<open>d\<close>.\<close>

definition fld :: "fields \<Rightarrow> string \<Rightarrow> json" where
  "fld d k = (case map_of d k of Some v \<Rightarrow> v | None \<Rightarrow> JNull)"

definition fld_set :: "string \<Rightarrow> json \<Rightarrow> fields \<Rightarrow> fields" where
  "fld_set k v d = map (\<lambda>(k', v'). if k' = k then (k', v) else (k', v')) d"

definition keys :: "fields \<Rightarrow> string set" where
  "keys d = fst ` set d"

lemma fld_set_same [simp]: "k \<in> keys d \<Longrightarrow> fld (fld_set k v d) k = v"
  by (induction d) (auto simp: keys_def fld_set_def fld_def)

lemma fld_set_other [simp]: "k' \<noteq> k \<Longrightarrow> fld (fld_set k v d) k' = fld d k'"
  by (induction d) (auto simp: fld_set_def fld_def)

lemma keys_fld_set [simp]: "keys (fld_set k v d) = keys d"
  by (force simp: keys_def fld_set_def)

section \<open>Truth, str, repr\<close>

fun truthy :: "json \<Rightarrow> bool" where
  "truthy JNull = False"
| "truthy (JBool b) = b"
| "truthy (JInt i) = (i \<noteq> 0)"
| "truthy (JFloat q r) = (q \<noteq> 0)"
| "truthy (JStr s) = (s \<noteq> [])"
| "truthy (JList xs) = (xs \<noteq> [])"
| "truthy (JObj d) = (d \<noteq> [])"

definition repr_char :: "char \<Rightarrow> char \<Rightarrow> string" where
  "repr_char q c =
     (if c = q \<or> c = CHR 0x5C then [CHR 0x5C, c]
      else if c = CHR 0x09 then [CHR 0x5C, CHR ''t'']
      else if c = CHR 0x0A then [CHR 0x5C, CHR ''n'']
      else if c = CHR 0x0D then [CHR 0x5C, CHR ''r'']
      else if (32 \<le> code c \<and> code c \<le> 126) \<or> (161 \<le> code c \<and> code c \<noteq> 173) then [c]
      else [CHR 0x5C, CHR ''x''] @ hex_digits 2 (int (code c)))"

definition repr_str :: "string \<Rightarrow> string" where
  "repr_str s =
     (let q = (if CHR 0x27 \<in> set s \<and> CHR 0x22 \<notin> set s then CHR 0x22 else CHR 0x27)
      in q # concat (map (repr_char q) s) @ [q])"

fun py_repr :: "json \<Rightarrow> string" where
  "py_repr JNull = ''None''"
| "py_repr (JBool b) = (if b then ''True'' else ''False'')"
| "py_repr (JInt i) = show_int i"
| "py_repr (JFloat q r) = r"
| "py_repr (JStr s) = repr_str s"
| "py_repr (JList xs) = ''['' @ py_join '', '' (map py_repr xs) @ '']''"
| "py_repr (JObj d) =
     ''{'' @ py_join '', '' (map (\<lambda>(k, v). repr_str k @ '': '' @ py_repr v) d) @ ''}''"

definition py_str :: "json \<Rightarrow> string" where
  "py_str v = (case v of JStr s \<Rightarrow> s | _ \<Rightarrow> py_repr v)"

text \<open>\<open>str(value or "")\<close>\<close>

definition or_empty :: "json \<Rightarrow> string" where
  "or_empty v = (if truthy v then py_str v else [])"

lemma py_str_JStr [simp]: "py_str (JStr s) = s"
  by (simp add: py_str_def)

lemma or_empty_JStr [simp]: "or_empty (JStr s) = s"
  by (simp add: or_empty_def)

lemma or_empty_JNull [simp]: "or_empty JNull = []"
  by (simp add: or_empty_def)

text \<open>\<open>value == n\<close> for an integer constant: Python compares numbers and truth values by value.\<close>

fun num_value :: "json \<Rightarrow> rat option" where
  "num_value (JBool b) = Some (if b then 1 else 0)"
| "num_value (JInt i) = Some (of_int i)"
| "num_value (JFloat q r) = Some q"
| "num_value _ = None"

definition eq_int :: "json \<Rightarrow> int \<Rightarrow> bool" where
  "eq_int v n = (num_value v = Some (of_int n))"

section \<open>json.dumps\<close>

definition json_esc :: "char \<Rightarrow> string" where
  "json_esc c =
     (if c = CHR 0x22 \<or> c = CHR 0x5C then [CHR 0x5C, c]
      else if c = CHR 0x0A then [CHR 0x5C, CHR ''n'']
      else if c = CHR 0x0D then [CHR 0x5C, CHR ''r'']
      else if c = CHR 0x09 then [CHR 0x5C, CHR ''t'']
      else if c = CHR 0x0C then [CHR 0x5C, CHR ''f'']
      else if c = CHR 0x08 then [CHR 0x5C, CHR ''b'']
      else if 32 \<le> code c \<and> code c \<le> 126 then [c]
      else [CHR 0x5C, CHR ''u''] @ hex_digits 4 (int (code c)))"

definition json_text :: "string \<Rightarrow> string" where
  "json_text s = CHR 0x22 # concat (map json_esc s) @ [CHR 0x22]"

fun dumps :: "bool \<Rightarrow> json \<Rightarrow> string" where
  "dumps sk JNull = ''null''"
| "dumps sk (JBool b) = (if b then ''true'' else ''false'')"
| "dumps sk (JInt i) = show_int i"
| "dumps sk (JFloat q r) = r"
| "dumps sk (JStr s) = json_text s"
| "dumps sk (JList xs) = ''['' @ py_join '','' (map (dumps sk) xs) @ '']''"
| "dumps sk (JObj d) =
     (let ms = map (\<lambda>(k, v). (k, dumps sk v)) d;
          ms' = (if sk then sort_key fst ms else ms)
      in ''{'' @ py_join '','' (map (\<lambda>(k, t). json_text k @ '':'' @ t) ms') @ ''}'')"

end
