(* ===== verification/Protocol.thy ===== *)
theory Protocol
  imports Json
begin

text \<open>
  \<open>remote_agent_connector/protocol.py\<close>: identifier grammars and their parsers, scopes,
  capability profiles, the texts that are signed, the Hub's app assertion and the verification
  of the delegation headers. SHA-256, HMAC, Ed25519 and the JSON reader are parameters
  (\<open>hmac\<close>, \<open>edv\<close>, \<open>loads\<close>).
\<close>

section \<open>Constants\<close>

definition PROTOCOL_VERSION :: int where "PROTOCOL_VERSION = 1"
definition RELAY_MAX_MESSAGE_BYTES :: int where "RELAY_MAX_MESSAGE_BYTES = 2 * 1024 * 1024"
definition RESULT_MAX_BYTES :: int where "RESULT_MAX_BYTES = 1 * 1024 * 1024"
definition APP_ASSERTION_SCHEMA_VERSION :: string where
  "APP_ASSERTION_SCHEMA_VERSION = ''business-mcp-remote-agent-app-assertion-v2''"
definition APP_ASSERTION_ISSUER :: string where "APP_ASSERTION_ISSUER = ''business-mcp-hub''"
definition APP_ASSERTION_AUDIENCE :: string where "APP_ASSERTION_AUDIENCE = ''remote-agent-device''"
definition APP_ASSERTION_HEADER :: string where "APP_ASSERTION_HEADER = ''x-mcp-hub-app-assertion''"
definition APP_ASSERTION_MAX_TTL_SECONDS :: int where "APP_ASSERTION_MAX_TTL_SECONDS = 300"
definition ASSERTION_DELIVERY_ALLOWANCE_SECONDS :: int where
  "ASSERTION_DELIVERY_ALLOWANCE_SECONDS = 30"
definition CONNECTOR_MAX_REQUEST_TIMEOUT_SECONDS :: int where
  "CONNECTOR_MAX_REQUEST_TIMEOUT_SECONDS = 600"

definition ASSERTION_FIELDS :: "string list" where
  "ASSERTION_FIELDS =
     [''schema_version'', ''issuer'', ''audience'', ''key_id'', ''client_id'', ''app_id'',
      ''connector_id'', ''scopes'', ''issued_at'', ''expires_at'', ''nonce'', ''request_id'',
      ''assertion_id'', ''signature'']"

definition AGENT_SCOPES :: "string list" where
  "AGENT_SCOPES =
     [''agent:read'', ''agent:write'', ''agent:terminal'', ''agent:ssh'', ''agent:skills'',
      ''agent:mcp'', ''agent:control'']"

definition READ_ONLY_CAPABILITIES :: "string list" where
  "READ_ONLY_CAPABILITIES =
     [''connector_health'', ''files_list'', ''files_stat'', ''files_search'', ''files_read'',
      ''files_download'', ''skills_list'', ''mcp_list_servers'', ''mcp_health'', ''skills_health'']"

definition READ_WRITE_CAPABILITIES :: "string list" where
  "READ_WRITE_CAPABILITIES = READ_ONLY_CAPABILITIES @
     [''files_write'', ''files_delete'', ''files_move'', ''files_mkdir'', ''files_upload'',
      ''skills_materialize'']"

definition FULL_AGENT_CAPABILITIES :: "string list" where
  "FULL_AGENT_CAPABILITIES = READ_WRITE_CAPABILITIES @
     [''terminal_execute'', ''ssh_execute'', ''ssh_list_profiles'', ''skills_execute'', ''mcp_call'']"

definition CAPABILITIES_BY_PROFILE :: "(string \<times> string list) list" where
  "CAPABILITIES_BY_PROFILE =
     [(''read_only'', READ_ONLY_CAPABILITIES), (''read_write'', READ_WRITE_CAPABILITIES),
      (''full_agent'', FULL_AGENT_CAPABILITIES)]"

definition MUTATING_RELAY_TOOLS :: "string list" where
  "MUTATING_RELAY_TOOLS =
     [''files.write'', ''files.delete'', ''files.move'', ''files.mkdir'', ''files.upload'',
      ''terminal.execute'', ''ssh.execute'', ''skills.materialize'', ''skills.execute'', ''mcp.call'']"

section \<open>Identifier grammars\<close>

text \<open>
  The patterns are a class for the first character and a bounded run of a second class, matched
  against the whole text.
\<close>

definition one_then :: "(char \<Rightarrow> bool) \<Rightarrow> (char \<Rightarrow> bool) \<Rightarrow> nat \<Rightarrow> string \<Rightarrow> bool" where
  "one_then h t n s = (case s of [] \<Rightarrow> False | c # cs \<Rightarrow> h c \<and> length cs \<le> n \<and> list_all t cs)"

definition run_between :: "(char \<Rightarrow> bool) \<Rightarrow> nat \<Rightarrow> nat \<Rightarrow> string \<Rightarrow> bool" where
  "run_between t lo hi s = (lo \<le> length s \<and> length s \<le> hi \<and> list_all t s)"

definition CLIENT_ID_PATTERN :: "string \<Rightarrow> bool" where
  "CLIENT_ID_PATTERN = one_then is_alnum (\<lambda>c. is_alnum c \<or> c \<in> set ''_.-'') 47"

definition APP_ID_PATTERN :: "string \<Rightarrow> bool" where
  "APP_ID_PATTERN = one_then is_alnum (\<lambda>c. is_alnum c \<or> c \<in> set ''_.-'') 63"

definition CONNECTOR_ID_PATTERN :: "string \<Rightarrow> bool" where
  "CONNECTOR_ID_PATTERN s = (case s of
       [] \<Rightarrow> False
     | c # r \<Rightarrow> is_lower c \<and>
         one_then (\<lambda>c. is_lower c \<or> is_digit c)
                  (\<lambda>c. is_lower c \<or> is_digit c \<or> c \<in> set ''_.-'') 62 r)"

definition KEY_ID_PATTERN :: "string \<Rightarrow> bool" where
  "KEY_ID_PATTERN = one_then is_lower (\<lambda>c. is_lower c \<or> is_digit c \<or> c \<in> set ''_.-'') 63"

definition INSTANCE_ID_PATTERN :: "string \<Rightarrow> bool" where
  "INSTANCE_ID_PATTERN = one_then is_alnum (\<lambda>c. is_alnum c \<or> c \<in> set ''_.-'') 127"

definition NONCE_PATTERN :: "string \<Rightarrow> bool" where
  "NONCE_PATTERN = run_between (\<lambda>c. is_alnum c \<or> c \<in> set ''_-'') 20 128"

definition SCOPE_PATTERN :: "string \<Rightarrow> bool" where
  "SCOPE_PATTERN = one_then is_alnum (\<lambda>c. is_alnum c \<or> c \<in> set '':._*-'') 63"

definition DISPLAY_LABEL_PATTERN :: "string \<Rightarrow> bool" where
  "DISPLAY_LABEL_PATTERN = run_between (\<lambda>c. is_alnum c \<or> c \<in> set '' ._()#-'') 1 80"

definition PLATFORM_PATTERN :: "string \<Rightarrow> bool" where
  "PLATFORM_PATTERN = one_then is_alnum (\<lambda>c. is_alnum c \<or> c \<in> set '' ._()#:/-'') 63"

definition SIGNATURE_HEX_PATTERN :: "string \<Rightarrow> bool" where
  "SIGNATURE_HEX_PATTERN = run_between (\<lambda>c. is_digit c \<or> (97 \<le> code c \<and> code c \<le> 102)) 64 64"

section \<open>Parsers\<close>

definition parse_uuid :: "json \<Rightarrow> string \<Rightarrow> string res" where
  "parse_uuid value field = (case uuid_canon (py_str value) of
       Some u \<Rightarrow> Inr u
     | None \<Rightarrow> Inl (ProtocolError (field @ '' must be a UUID'')))"

definition parse_connector_id :: "json \<Rightarrow> string res" where
  "parse_connector_id value =
     (let connector_id = py_lower (py_strip (or_empty value))
      in if CONNECTOR_ID_PATTERN connector_id then Inr connector_id
         else Inl (ProtocolError ''connector_id is invalid''))"

definition parse_instance_id :: "json \<Rightarrow> string res" where
  "parse_instance_id value =
     (let instance_id = py_strip (or_empty value)
      in if INSTANCE_ID_PATTERN instance_id then Inr instance_id
         else Inl (ProtocolError ''instance_id is invalid''))"

definition parse_client_id :: "json \<Rightarrow> string res" where
  "parse_client_id value =
     (let client_id = py_strip (or_empty value)
      in if CLIENT_ID_PATTERN client_id then Inr client_id
         else Inl (ProtocolError ''client id is invalid''))"

definition parse_nonce :: "json \<Rightarrow> string res" where
  "parse_nonce value =
     (let nonce = py_strip (or_empty value)
      in if NONCE_PATTERN nonce then Inr nonce
         else Inl (ProtocolError ''delegation nonce is invalid''))"

text \<open>The items of \<open>raw\<close>: a text is split at commas, a dictionary yields its keys, a number raises.\<close>

definition scope_items :: "json \<Rightarrow> json list res" where
  "scope_items value = (case value of
       JStr s \<Rightarrow> Inr (map JStr (py_split (CHR '','') s))
     | JList xs \<Rightarrow> Inr xs
     | JObj d \<Rightarrow> Inr (map (JStr \<circ> fst) d)
     | _ \<Rightarrow> if truthy value then Inl TypeError else Inr [])"

definition normalize_scopes :: "json \<Rightarrow> string list res" where
  "normalize_scopes value = bindR (scope_items value) (\<lambda>raw.
     let scopes = sort (remdups (filter (\<lambda>s. s \<noteq> []) (map (\<lambda>s. py_strip (or_empty s)) raw)))
     in if scopes = [] \<or> (\<exists>s \<in> set scopes. \<not> SCOPE_PATTERN s)
        then Inl (ProtocolError ''delegated scopes are invalid'')
        else Inr scopes)"

definition validate_agent_scopes :: "json \<Rightarrow> string list res" where
  "validate_agent_scopes value = bindR (normalize_scopes value) (\<lambda>scopes.
     if \<exists>s \<in> set scopes. s \<notin> set AGENT_SCOPES
     then Inl (ProtocolError ''delegated agent scopes are invalid'')
     else Inr scopes)"

definition validate_display_label :: "json \<Rightarrow> string res" where
  "validate_display_label value =
     (let label = py_strip (or_empty value)
      in if DISPLAY_LABEL_PATTERN label then Inr label
         else Inl (ProtocolError ''display_label is invalid''))"

definition validate_platform :: "json \<Rightarrow> string res" where
  "validate_platform value =
     (let platform = py_strip (or_empty value)
      in if platform \<noteq> [] \<and> PLATFORM_PATTERN platform then Inr platform
         else Inl (ProtocolError ''platform is invalid''))"

definition validate_capability_profile :: "json \<Rightarrow> string res" where
  "validate_capability_profile value =
     (let profile = py_lower (py_strip (or_empty value))
      in if profile \<in> fst ` set CAPABILITIES_BY_PROFILE then Inr profile
         else Inl (ProtocolError ''capability_profile is invalid''))"

text \<open>\<open>CAPABILITIES_BY_PROFILE[profile]\<close> raises \<open>KeyError\<close> for an unknown profile.\<close>

definition capabilities_for_profile :: "string \<Rightarrow> string list res" where
  "capabilities_for_profile profile = (case map_of CAPABILITIES_BY_PROFILE profile of
       Some caps \<Rightarrow> Inr (sort (remdups caps))
     | None \<Rightarrow> Inl KeyError)"

definition HEARTBEAT_INTERVAL_SECONDS :: int where "HEARTBEAT_INTERVAL_SECONDS = 15"
definition INSTANCE_STALE_MULTIPLIER :: int where "INSTANCE_STALE_MULTIPLIER = 5"

definition instance_stale_seconds :: "int \<Rightarrow> int" where
  "instance_stale_seconds heartbeat_timeout_seconds =
     max heartbeat_timeout_seconds (HEARTBEAT_INTERVAL_SECONDS * INSTANCE_STALE_MULTIPLIER)"

section \<open>Keys, signatures and the signed texts\<close>

definition b64decode_field :: "json \<Rightarrow> string \<Rightarrow> nat \<Rightarrow> bytes res" where
  "b64decode_field value field expected_length =
     (case urlsafe_b64decode (py_strip (or_empty value)) of
        None \<Rightarrow> Inl (ProtocolError (field @ '' is not base64url''))
      | Some raw \<Rightarrow> if length raw \<noteq> expected_length
                    then Inl (ProtocolError (field @ '' has an invalid length''))
                    else Inr raw)"

definition parse_public_key :: "json \<Rightarrow> bytes res" where
  "parse_public_key value = b64decode_field value ''public_key'' 32"

definition parse_signature :: "json \<Rightarrow> bytes res" where
  "parse_signature value = b64decode_field value ''signature'' 64"

definition enrollment_payload ::
    "string \<Rightarrow> string \<Rightarrow> string \<Rightarrow> string \<Rightarrow> string \<Rightarrow> bytes res" where
  "enrollment_payload challenge_id challenge connector_id enrollment_token public_key =
     bindR (parse_uuid (JStr challenge_id) ''challenge_id'') (\<lambda>cid.
     bindR (parse_connector_id (JStr connector_id)) (\<lambda>conn.
     Inr (utf8_encode (''remote-agent-enrollment-v1'' @ nl @ cid @ nl @ challenge @ nl @ conn @ nl
            @ enrollment_token @ nl @ public_key))))"

definition relay_auth_payload ::
    "string \<Rightarrow> string \<Rightarrow> string \<Rightarrow> string \<Rightarrow> int \<Rightarrow> bytes res" where
  "relay_auth_payload challenge_id challenge connector_id instance_id context_epoch =
     bindR (parse_uuid (JStr challenge_id) ''challenge_id'') (\<lambda>cid.
     bindR (parse_connector_id (JStr connector_id)) (\<lambda>conn.
     bindR (parse_instance_id (JStr instance_id)) (\<lambda>inst.
     Inr (utf8_encode (''remote-agent-relay-auth-v1'' @ nl @ cid @ nl @ challenge @ nl @ conn @ nl
            @ inst @ nl @ show_int context_epoch)))))"

text \<open>
  \<open>edv key message signature\<close> is Ed25519 verification. Every failure, in the decoding or in
  the check, is the same error.
\<close>

definition verify_ed25519 ::
    "(bytes \<Rightarrow> bytes \<Rightarrow> bytes \<Rightarrow> bool) \<Rightarrow> string \<Rightarrow> bytes \<Rightarrow> string \<Rightarrow> unit res" where
  "verify_ed25519 edv public_key_b64 payload signature_b64 =
     (case (parse_public_key (JStr public_key_b64), parse_signature (JStr signature_b64)) of
        (Inr pk, Inr sig) \<Rightarrow>
          if edv pk payload sig then Inr ()
          else Inl (ProtocolError ''Ed25519 signature verification failed'')
      | _ \<Rightarrow> Inl (ProtocolError ''Ed25519 signature verification failed''))"

text \<open>\<open>sha\<close> is the hexadecimal SHA-256 digest of a byte sequence.\<close>

definition public_key_fingerprint :: "(bytes \<Rightarrow> string) \<Rightarrow> string \<Rightarrow> string res" where
  "public_key_fingerprint sha public_key_b64 =
     bindR (parse_public_key (JStr public_key_b64)) (\<lambda>pk. Inr (take 16 (sha pk)))"

definition canonical_json_bytes :: "fields \<Rightarrow> bytes" where
  "canonical_json_bytes value = utf8_encode (dumps True (JObj value) @ nl)"

definition canonical_json_digest :: "(bytes \<Rightarrow> string) \<Rightarrow> fields \<Rightarrow> string" where
  "canonical_json_digest sha value = sha (utf8_encode (dumps True (JObj value)))"

definition build_cancel_frame :: "string \<Rightarrow> string \<Rightarrow> json res" where
  "build_cancel_frame connector_id request_id =
     bindR (parse_uuid (JStr request_id) ''request_id'') (\<lambda>_.
     Inr (JObj [(''v'', JInt PROTOCOL_VERSION), (''type'', JStr ''cancel''),
                (''request_id'', JStr request_id), (''connector_id'', JStr connector_id)]))"

section \<open>The app assertion\<close>

definition assertion_int :: "json \<Rightarrow> string \<Rightarrow> int res" where
  "assertion_int value field = (case value of
       JInt i \<Rightarrow> Inr i
     | _ \<Rightarrow> Inl (ProtocolError (''app assertion '' @ field @ '' is invalid'')))"

definition parse_app_assertion_fields :: "fields \<Rightarrow> fields res" where
  "parse_app_assertion_fields decoded =
     bindR (requireR (keys decoded = set ASSERTION_FIELDS) (ProtocolError ''app assertion fields are invalid'')) (\<lambda>_.
     bindR (requireR (fld decoded ''schema_version'' = JStr APP_ASSERTION_SCHEMA_VERSION) (ProtocolError ''app assertion schema is unsupported'')) (\<lambda>_.
     bindR (requireR (fld decoded ''issuer'' = JStr APP_ASSERTION_ISSUER) (ProtocolError ''app assertion issuer is invalid'')) (\<lambda>_.
     bindR (requireR (fld decoded ''audience'' = JStr APP_ASSERTION_AUDIENCE) (ProtocolError ''app assertion audience is invalid'')) (\<lambda>_.
     bindR (requireR (KEY_ID_PATTERN (py_str (fld decoded ''key_id''))) (ProtocolError ''app assertion key id is invalid'')) (\<lambda>_.
     bindR (parse_client_id (fld decoded ''client_id'')) (\<lambda>_.
     let app_id = py_strip (or_empty (fld decoded ''app_id'')) in
     bindR (requireR (APP_ID_PATTERN app_id) (ProtocolError ''app assertion app id is invalid'')) (\<lambda>_.
     bindR (parse_connector_id (fld decoded ''connector_id'')) (\<lambda>_.
     bindR (validate_agent_scopes (fld decoded ''scopes'')) (\<lambda>scopes.
     bindR (assertion_int (fld decoded ''issued_at'') ''issued_at'') (\<lambda>issued_at.
     bindR (assertion_int (fld decoded ''expires_at'') ''expires_at'') (\<lambda>expires_at.
     bindR (requireR (issued_at < expires_at) (ProtocolError ''app assertion expiry is invalid'')) (\<lambda>_.
     bindR (requireR (expires_at - issued_at \<le> APP_ASSERTION_MAX_TTL_SECONDS) (ProtocolError ''app assertion lifetime is too long'')) (\<lambda>_.
     bindR (parse_nonce (fld decoded ''nonce'')) (\<lambda>_.
     bindR (parse_uuid (fld decoded ''request_id'') ''request_id'') (\<lambda>_.
     bindR (parse_uuid (fld decoded ''assertion_id'') ''assertion_id'') (\<lambda>_.
     bindR (parse_signature (fld decoded ''signature'')) (\<lambda>_.
     Inr (fld_set ''scopes'' (JList (map JStr scopes)) (fld_set ''app_id'' (JStr app_id) decoded)))))))))))))))))))"

text \<open>
  The two transports: an object as it is, and a text that is base64url over UTF-8 JSON.
  \<open>loads\<close> decodes bytes as UTF-8 and reads the JSON text (\<open>None\<close> for \<open>ValueError\<close>).
\<close>

definition parse_app_assertion :: "(bytes \<Rightarrow> json option) \<Rightarrow> json \<Rightarrow> fields res" where
  "parse_app_assertion loads value = (case value of
       JObj d \<Rightarrow> parse_app_assertion_fields d
     | _ \<Rightarrow>
         (let encoded = py_strip (or_empty value)
          in if encoded = [] then Inl (ProtocolError ''app assertion is missing'')
             else case Option.bind (urlsafe_b64decode encoded) loads of
                    None \<Rightarrow> Inl (ProtocolError ''app assertion is not valid JSON'')
                  | Some (JObj d) \<Rightarrow> parse_app_assertion_fields d
                  | Some _ \<Rightarrow> Inl (ProtocolError ''app assertion fields are invalid'')))"

section \<open>Delegated identity\<close>

definition canonical_delegation ::
    "string \<Rightarrow> string \<Rightarrow> int \<Rightarrow> string \<Rightarrow> json \<Rightarrow> string \<Rightarrow> bytes res" where
  "canonical_delegation audience client_id timestamp nonce scopes app_id =
     bindR (parse_client_id (JStr client_id)) (\<lambda>normalized_client_id.
     bindR (parse_nonce (JStr nonce)) (\<lambda>normalized_nonce.
     bindR (validate_agent_scopes scopes) (\<lambda>normalized_scopes.
     let normalized_app_id = py_strip app_id in
     Inr (utf8_encode (
       if normalized_app_id \<noteq> []
       then ''v4'' @ nl @ audience @ nl @ normalized_client_id @ nl @ normalized_app_id @ nl
            @ show_int timestamp @ nl @ normalized_nonce @ nl @ py_join '','' normalized_scopes
       else ''v3'' @ nl @ audience @ nl @ normalized_client_id @ nl
            @ show_int timestamp @ nl @ normalized_nonce @ nl @ py_join '','' normalized_scopes)))))"

record delegated_identity =
  di_client_id :: string
  di_scopes :: "string list"
  di_nonce :: string
  di_timestamp :: int
  di_app_id :: string
  di_app_assertion :: "fields option"

text \<open>The header block read under \<open>try\<close>: any failure in it is one and the same error.\<close>

definition read_identity_headers ::
    "(string \<Rightarrow> string) \<Rightarrow> (string \<times> string list \<times> string \<times> int \<times> string) res" where
  "read_identity_headers hdr =
     (let read =
        bindR (parse_client_id (JStr (hdr ''x-mcp-hub-client-id''))) (\<lambda>client_id.
        bindR (validate_agent_scopes (JStr (hdr ''x-mcp-hub-client-scopes''))) (\<lambda>scopes.
        bindR (parse_nonce (JStr (hdr ''x-mcp-hub-client-nonce''))) (\<lambda>nonce.
        bindR (case py_int 10 (py_strip (hdr ''x-mcp-hub-client-timestamp'')) of
                 Some t \<Rightarrow> Inr t | None \<Rightarrow> Inl ValueError) (\<lambda>timestamp.
        Inr (client_id, scopes, nonce, timestamp,
             py_lower (py_strip (hdr ''x-mcp-hub-client-signature'')))))))
      in case read of
           Inl _ \<Rightarrow> Inl (ProtocolError ''delegated identity headers are invalid'')
         | Inr x \<Rightarrow> Inr x)"

definition assertion_matches ::
    "fields \<Rightarrow> string \<Rightarrow> string \<Rightarrow> string \<Rightarrow> string list \<Rightarrow> bool" where
  "assertion_matches a client_id app_id nonce scopes =
     (fld a ''client_id'' = JStr client_id \<and> fld a ''app_id'' = JStr app_id
      \<and> fld a ''nonce'' = JStr nonce \<and> fld a ''scopes'' = JList (map JStr scopes))"

text \<open>
  \<open>hmac key message\<close> is HMAC-SHA-256 in hexadecimal; \<open>headers\<close> is a case-insensitive header
  lookup, \<open>None\<close> for an absent header.
\<close>

definition verify_delegation_headers ::
    "(bytes \<Rightarrow> bytes \<Rightarrow> string) \<Rightarrow> (bytes \<Rightarrow> json option) \<Rightarrow> (string \<Rightarrow> string option) \<Rightarrow> string
     \<Rightarrow> string \<Rightarrow> int \<Rightarrow> int \<Rightarrow> bool \<Rightarrow> delegated_identity res" where
  "verify_delegation_headers hmac loads headers secret audience now max_age_seconds require_app_assertion =
     (let hdr = (\<lambda>n. case headers n of Some v \<Rightarrow> v | None \<Rightarrow> []) in
      bindR (read_identity_headers hdr) (\<lambda>(client_id, scopes, nonce, timestamp, signature).
      bindR (requireR (SIGNATURE_HEX_PATTERN signature) (ProtocolError ''delegation signature is invalid'')) (\<lambda>_.
      bindR (requireR (\<bar>now - timestamp\<bar> \<le> max 1 max_age_seconds) (ProtocolError ''delegation is expired'')) (\<lambda>_.
      let app_id = py_strip (hdr ''x-mcp-hub-app-id'') in
      bindR (canonical_delegation audience client_id timestamp nonce (JList (map JStr scopes)) app_id) (\<lambda>payload.
      bindR (requireR (hmac (utf8_encode secret) payload = signature) (ProtocolError ''delegation signature is invalid'')) (\<lambda>_.
      let raw_assertion = py_strip (hdr APP_ASSERTION_HEADER) in
      bindR (if app_id \<noteq> [] then
               if raw_assertion \<noteq> [] then
                 bindR (parse_app_assertion loads (JStr raw_assertion)) (\<lambda>a.
                   if assertion_matches a client_id app_id nonce scopes then Inr (Some a)
                   else Inl (ProtocolError ''app assertion does not match the delegation''))
               else if require_app_assertion then Inl (ProtocolError ''app assertion is required'')
               else Inr None
             else if raw_assertion \<noteq> [] then Inl (ProtocolError ''app assertion requires a v4 delegation'')
             else Inr None) (\<lambda>app_assertion.
      Inr \<lparr>di_client_id = client_id, di_scopes = scopes, di_nonce = nonce, di_timestamp = timestamp,
           di_app_id = app_id, di_app_assertion = app_assertion\<rparr>)))))))"

section \<open>Facts about the grammars\<close>

lemma one_then_list_all:
  "one_then h t n s \<Longrightarrow> s \<noteq> [] \<and> length s \<le> Suc n \<and> list_all (\<lambda>c. h c \<or> t c) s"
  by (cases s) (auto simp: one_then_def list_all_iff)

lemma run_between_list_all:
  "run_between t lo hi s \<Longrightarrow> lo \<le> length s \<and> length s \<le> hi \<and> list_all t s"
  by (simp add: run_between_def)

lemma char_in_class_iff:
  "c \<in> set ''_.-'' \<longleftrightarrow> code c \<in> {95, 46, 45}"
  "c \<in> set ''_-'' \<longleftrightarrow> code c \<in> {95, 45}"
  "c \<in> set '':._*-'' \<longleftrightarrow> code c \<in> {58, 46, 95, 42, 45}"
  by (simp_all only: list.set insert_iff empty_iff char_eq_code) simp_all

lemma CONNECTOR_ID_chars:
  "CONNECTOR_ID_PATTERN s \<Longrightarrow> list_all (\<lambda>c. is_lower c \<or> is_digit c \<or> c \<in> set ''_.-'') s"
  by (cases s) (auto simp: CONNECTOR_ID_PATTERN_def list_all_iff dest!: one_then_list_all)

text \<open>No identifier holds a newline, so a newline separates the fields of the signed texts.\<close>

lemma pattern_no_newline:
  "CONNECTOR_ID_PATTERN s \<Longrightarrow> newline \<notin> set s"
  "CLIENT_ID_PATTERN s \<Longrightarrow> newline \<notin> set s"
  "INSTANCE_ID_PATTERN s \<Longrightarrow> newline \<notin> set s"
  "NONCE_PATTERN s \<Longrightarrow> newline \<notin> set s"
  "SCOPE_PATTERN s \<Longrightarrow> newline \<notin> set s \<and> CHR '','' \<notin> set s \<and> s \<noteq> []"
proof -
  show "CONNECTOR_ID_PATTERN s \<Longrightarrow> newline \<notin> set s"
    using CONNECTOR_ID_chars [of s] by (fastforce simp: list_all_iff newline_def char_class_defs)
  show "CLIENT_ID_PATTERN s \<Longrightarrow> newline \<notin> set s"
    by (fastforce simp: CLIENT_ID_PATTERN_def list_all_iff newline_def char_class_defs
        dest!: one_then_list_all)
  show "INSTANCE_ID_PATTERN s \<Longrightarrow> newline \<notin> set s"
    by (fastforce simp: INSTANCE_ID_PATTERN_def list_all_iff newline_def char_class_defs
        dest!: one_then_list_all)
  show "NONCE_PATTERN s \<Longrightarrow> newline \<notin> set s"
    by (fastforce simp: NONCE_PATTERN_def list_all_iff newline_def char_class_defs
        dest!: run_between_list_all)
  show "SCOPE_PATTERN s \<Longrightarrow> newline \<notin> set s \<and> CHR '','' \<notin> set s \<and> s \<noteq> []"
    by (fastforce simp: SCOPE_PATTERN_def list_all_iff newline_def char_class_defs
        dest!: one_then_list_all)
qed

lemma map_id_list_all: "list_all (\<lambda>c. f c = c) s \<Longrightarrow> map f s = s"
  by (induction s) auto

lemma connector_strip_lower:
  assumes "CONNECTOR_ID_PATTERN s"
  shows "py_strip s = s" and "py_lower s = s"
proof -
  have c: "list_all (\<lambda>c. is_lower c \<or> is_digit c \<or> c \<in> set ''_.-'') s"
    by (rule CONNECTOR_ID_chars [OF assms])
  then have "list_all (\<lambda>c. \<not> is_space c) s"
    unfolding list_all_iff char_in_class_iff by (auto simp: char_class_defs)
  then show "py_strip s = s" by (simp add: py_strip_def strip_chars_id)
  from c have "list_all (\<lambda>c. lower_char c = c) s"
    unfolding list_all_iff using lower_char_id by blast
  then show "py_lower s = s" unfolding py_lower_def by (rule map_id_list_all)
qed

lemma parse_connector_id_Inr:
  assumes "parse_connector_id v = Inr c"
  shows "CONNECTOR_ID_PATTERN c" and "parse_connector_id (JStr c) = Inr c"
proof -
  show p: "CONNECTOR_ID_PATTERN c"
    using assms by (auto simp: parse_connector_id_def Let_def split: if_splits)
  show "parse_connector_id (JStr c) = Inr c"
    using p by (simp add: parse_connector_id_def connector_strip_lower [OF p])
qed

lemma parse_client_id_Inr:
  "parse_client_id v = Inr c \<Longrightarrow> CLIENT_ID_PATTERN c \<and> parse_client_id (JStr c) = Inr c"
  by (auto simp: parse_client_id_def Let_def split: if_splits)

lemma parse_instance_id_Inr:
  "parse_instance_id v = Inr c \<Longrightarrow> INSTANCE_ID_PATTERN c \<and> parse_instance_id (JStr c) = Inr c"
  by (auto simp: parse_instance_id_def Let_def split: if_splits)

lemma parse_nonce_Inr:
  "parse_nonce v = Inr c \<Longrightarrow> NONCE_PATTERN c \<and> parse_nonce (JStr c) = Inr c"
  by (auto simp: parse_nonce_def Let_def split: if_splits)

lemma parse_uuid_Inr:
  assumes "parse_uuid v f = Inr u"
  shows "uuid_canon u = Some u" and "length u = 36" and "newline \<notin> set u"
proof -
  obtain s where s: "uuid_canon s = Some u"
    using assms by (auto simp: parse_uuid_def split: option.splits)
  show "uuid_canon u = Some u" by (rule uuid_canon_idem [OF s])
  obtain n where n: "u = uuid_text n" using s by (rule uuid_canon_SomeD)
  then show "length u = 36" by (simp add: length_uuid_text)
  show "newline \<notin> set u"
    using set_uuid_text [of newline n] by (auto simp: n newline_def char_class_defs)
qed

subsection \<open>Scopes\<close>

definition scope_set :: "json list \<Rightarrow> string set" where
  "scope_set raw = {s. s \<noteq> [] \<and> s \<in> (\<lambda>x. py_strip (or_empty x)) ` set raw}"

lemma set_filter_scopes:
  "set (filter (\<lambda>s. s \<noteq> []) (map (\<lambda>s. py_strip (or_empty s)) raw)) = scope_set raw"
  by (auto simp: scope_set_def)

lemma sort_remdups_eq: "set xs = set ys \<Longrightarrow> sort (remdups xs) = sort (remdups (ys::'a::linorder list))"
  by (metis sorted_list_of_set_sort_remdups)

lemma normalize_scopes_Inr:
  assumes "normalize_scopes v = Inr r"
  shows "sorted r" and "distinct r" and "r \<noteq> []" and "\<forall>s \<in> set r. SCOPE_PATTERN s \<and> py_strip s = s"
  using assms
  by (auto simp: normalize_scopes_def Let_def split: if_splits)

lemma strip_id_items:
  "\<forall>s \<in> set r. s \<noteq> [] \<and> py_strip s = s \<Longrightarrow>
   filter (\<lambda>s. s \<noteq> []) (map (\<lambda>s. py_strip (or_empty s)) (map JStr r)) = r"
  by (induction r) auto

lemma normalize_scopes_list:
  assumes "sorted r" "distinct r" "r \<noteq> []" "\<forall>s \<in> set r. SCOPE_PATTERN s \<and> py_strip s = s"
  shows "normalize_scopes (JList (map JStr r)) = Inr r"
proof -
  have "\<forall>s \<in> set r. s \<noteq> [] \<and> py_strip s = s" using assms(4) pattern_no_newline(5) by blast
  then have "filter (\<lambda>s. s \<noteq> []) (map (\<lambda>s. py_strip (or_empty s)) (map JStr r)) = r"
    by (rule strip_id_items)
  then show ?thesis
    using assms
    by (simp add: normalize_scopes_def scope_items_def Let_def comp_def distinct_remdups_id sorted_sort_id
        del: map_map)
qed

lemma normalize_scopes_idem:
  "normalize_scopes v = Inr r \<Longrightarrow> normalize_scopes (JList (map JStr r)) = Inr r"
  by (rule normalize_scopes_list; rule normalize_scopes_Inr)

lemma validate_agent_scopes_idem:
  assumes "validate_agent_scopes v = Inr r"
  shows "validate_agent_scopes (JList (map JStr r)) = Inr r"
proof -
  have "normalize_scopes v = Inr r" "\<not> (\<exists>s \<in> set r. s \<notin> set AGENT_SCOPES)"
    using assms by (auto simp: validate_agent_scopes_def split: if_splits)
  with normalize_scopes_idem show ?thesis by (auto simp: validate_agent_scopes_def)
qed

lemma validate_agent_scopes_Inr:
  assumes "validate_agent_scopes v = Inr r"
  shows "sorted r" "distinct r" "r \<noteq> []" "set r \<subseteq> set AGENT_SCOPES" "\<forall>s \<in> set r. SCOPE_PATTERN s"
proof -
  have n: "normalize_scopes v = Inr r"
    using assms by (auto simp: validate_agent_scopes_def split: if_splits)
  show "sorted r" "distinct r" "r \<noteq> []" "\<forall>s \<in> set r. SCOPE_PATTERN s"
    using normalize_scopes_Inr [OF n] by auto
  show "set r \<subseteq> set AGENT_SCOPES"
    using assms by (auto simp: validate_agent_scopes_def split: if_splits)
qed

section \<open>The signed texts determine their fields\<close>

text \<open>
  The two forms of the delegation text, with the fields already normalised. Fields before the
  application id are read from the left, fields after it from the right.
\<close>

definition delegation_text ::
    "string \<Rightarrow> string \<Rightarrow> string \<Rightarrow> int \<Rightarrow> string \<Rightarrow> string list \<Rightarrow> string" where
  "delegation_text audience cid app ts nonce scopes =
     (let tail = show_int ts @ nl @ nonce @ nl @ py_join '','' scopes
      in if app \<noteq> [] then ''v4'' @ nl @ audience @ nl @ cid @ nl @ app @ nl @ tail
         else ''v3'' @ nl @ audience @ nl @ cid @ nl @ tail)"

lemma canonical_delegation_text:
  assumes "canonical_delegation audience client_id ts nonce scopes app = Inr b"
  obtains cid n sc where "parse_client_id (JStr client_id) = Inr cid"
    "parse_nonce (JStr nonce) = Inr n" "validate_agent_scopes scopes = Inr sc"
    "b = utf8_encode (delegation_text audience cid (py_strip app) ts n sc)"
  using assms by (auto simp: canonical_delegation_def delegation_text_def Let_def)

lemma tail_eq:
  assumes "x @ show_int ts @ nl @ n @ nl @ py_join '','' sc = x' @ show_int ts' @ nl @ n' @ nl @ py_join '','' sc'"
    and "newline \<notin> set n" "newline \<notin> set n'" "validate_agent_scopes v = Inr sc" "validate_agent_scopes v' = Inr sc'"
  shows "x @ show_int ts = x' @ show_int ts' \<and> n = n' \<and> sc = sc'"
proof -
  have no: "newline \<notin> set (py_join '','' s)" if "\<forall>w \<in> set s. SCOPE_PATTERN w" for s
    using that
  proof (induction s)
    case (Cons w s)
    then show ?case using pattern_no_newline(5) by (cases s) (auto simp: newline_def)
  qed simp
  note sc = validate_agent_scopes_Inr [OF assms(4)] and sc' = validate_agent_scopes_Inr [OF assms(5)]
  have "(x @ show_int ts @ nl @ n) @ newline # py_join '','' sc = (x' @ show_int ts' @ nl @ n') @ newline # py_join '','' sc'"
    using assms(1) by simp
  from append_sep_eq_right [OF this] no sc(5) sc'(5)
  have e: "x @ show_int ts @ nl @ n = x' @ show_int ts' @ nl @ n'" and j: "py_join '','' sc = py_join '','' sc'"
    by auto
  have "sc = sc'"
    by (rule py_join_inj [OF j sc(3) sc'(3)]) (use sc(5) sc'(5) pattern_no_newline(5) in auto)
  moreover have "(x @ show_int ts) @ newline # n = (x' @ show_int ts') @ newline # n'" using e by simp
  from append_sep_eq_right [OF this assms(2,3)] have "x @ show_int ts = x' @ show_int ts'" "n = n'" by auto
  ultimately show ?thesis by simp
qed

lemma delegation_text_inj:
  assumes eq: "delegation_text a c p ts n sc = delegation_text a' c' p' ts' n' sc'"
    and a: "newline \<notin> set a" "newline \<notin> set a'" and c: "newline \<notin> set c" "newline \<notin> set c'"
    and n: "newline \<notin> set n" "newline \<notin> set n'"
    and sc: "validate_agent_scopes v = Inr sc" "validate_agent_scopes v' = Inr sc'"
  shows "a = a' \<and> c = c' \<and> p = p' \<and> ts = ts' \<and> n = n' \<and> sc = sc'"
proof -
  let ?t = "show_int ts @ nl @ n @ nl @ py_join '','' sc"
  let ?t' = "show_int ts' @ nl @ n' @ nl @ py_join '','' sc'"
  show ?thesis
  proof (cases "p = [] \<longleftrightarrow> p' = []")
    case False
    with eq show ?thesis by (auto simp: delegation_text_def Let_def)
  next
    case True
    define q where "q = (if p = [] then [] else p @ nl)"
    define q' where "q' = (if p' = [] then [] else p' @ nl)"
    have "a @ newline # c @ newline # q @ ?t = a' @ newline # c' @ newline # q' @ ?t'"
      using eq True by (auto simp: delegation_text_def Let_def q_def q'_def split: if_splits)
    from append_sep_eq [OF this a] have "a = a'" "c @ newline # q @ ?t = c' @ newline # q' @ ?t'" by auto
    moreover from append_sep_eq [OF this(2) c] have "c = c'" "q @ ?t = q' @ ?t'" by auto
    moreover from tail_eq [OF this(2) n sc] have t: "q @ show_int ts = q' @ show_int ts'" "n = n'" "sc = sc'"
      by auto
    moreover have "p = p' \<and> ts = ts'"
    proof (cases "p = []")
      case True': True
      with t(1) True show ?thesis by (simp add: q_def q'_def)
    next
      case False
      with t(1) True have "p @ newline # show_int ts = p' @ newline # show_int ts'"
        by (simp add: q_def q'_def)
      from append_sep_eq_right [OF this] show ?thesis by simp
    qed
    ultimately show ?thesis by simp
  qed
qed

text \<open>
  C22. The delegation text the Hub's HMAC covers determines every field it carries: equal texts
  come from the same audience, client, application id, timestamp, nonce and scopes. In
  particular a v3 text is never a v4 text, so a caller cannot attach, drop or swap the
  application id after signing.
\<close>

theorem canonical_delegation_injective:
  assumes "canonical_delegation a c t n s p = Inr b" and "canonical_delegation a' c' t' n' s' p' = Inr b"
    and "newline \<notin> set a" and "newline \<notin> set a'"
  shows "a = a' \<and> parse_client_id (JStr c) = parse_client_id (JStr c') \<and> t = t'
    \<and> parse_nonce (JStr n) = parse_nonce (JStr n') \<and> validate_agent_scopes s = validate_agent_scopes s'
    \<and> py_strip p = py_strip p'"
proof -
  from assms(1) obtain cid nn sc where 1: "parse_client_id (JStr c) = Inr cid" "parse_nonce (JStr n) = Inr nn"
    "validate_agent_scopes s = Inr sc" "b = utf8_encode (delegation_text a cid (py_strip p) t nn sc)"
    by (rule canonical_delegation_text)
  from assms(2) obtain cid' nn' sc' where 2: "parse_client_id (JStr c') = Inr cid'" "parse_nonce (JStr n') = Inr nn'"
    "validate_agent_scopes s' = Inr sc'" "b = utf8_encode (delegation_text a' cid' (py_strip p') t' nn' sc')"
    by (rule canonical_delegation_text)
  have "delegation_text a cid (py_strip p) t nn sc = delegation_text a' cid' (py_strip p') t' nn' sc'"
    using 1(4) 2(4) by (metis utf8_encode_inj)
  from delegation_text_inj [OF this assms(3,4) _ _ _ _ 1(3) 2(3)]
  have "a = a' \<and> cid = cid' \<and> py_strip p = py_strip p' \<and> t = t' \<and> nn = nn' \<and> sc = sc'"
    using 1(1,2) 2(1,2) parse_client_id_Inr parse_nonce_Inr pattern_no_newline(2,4) by blast
  with 1 2 show ?thesis by simp
qed

theorem canonical_delegation_injective_witness:
  "newline \<notin> set ''aud''
   \<and> canonical_delegation ''aud'' ''hub'' 7 ''abcdefghijklmnopqrst'' (JStr ''agent:read'') ''app''
       = canonical_delegation ''aud'' ''hub'' 7 ''abcdefghijklmnopqrst'' (JStr ''agent:read'') '' app''
   \<and> py_strip ''app'' = py_strip '' app''"
proof -
  let ?cd = "canonical_delegation ''aud'' ''hub'' 7 ''abcdefghijklmnopqrst'' (JStr ''agent:read'')"
  have same: "?cd '' app'' = ?cd ''app''" by code_simp
  have "\<not> isl (?cd ''app'')" by code_simp
  then obtain b where b: "?cd ''app'' = Inr b" by (cases "?cd ''app''") simp_all
  have no: "newline \<notin> set ''aud''" by (simp add: newline_def)
  from canonical_delegation_injective [OF b same [unfolded b] no no] no same show ?thesis by simp
qed

text \<open>
  The text a device signs to enrol is never the text it signs to authenticate, so a
  signature made in one exchange cannot be replayed in the other.
\<close>

theorem handshake_texts_separated:
  assumes "enrollment_payload cid ch conn tok pk = Inr b"
    and "relay_auth_payload cid' ch' conn' inst epoch = Inr b'"
  shows "b \<noteq> b'"
proof
  assume "b = b'"
  moreover obtain r where "b = utf8_encode (''remote-agent-enrollment-v1'' @ r)"
    using assms(1) by (auto simp: enrollment_payload_def)
  moreover obtain r' where "b' = utf8_encode (''remote-agent-relay-auth-v1'' @ r')"
    using assms(2) by (auto simp: relay_auth_payload_def)
  ultimately show False by simp
qed

text \<open>
  The text a device signs to authenticate determines the challenge, the connector, the
  instance and the context epoch, for challenges without a newline (the issued ones are
  base64url texts).
\<close>

theorem relay_auth_payload_injective:
  assumes "relay_auth_payload cid ch conn inst ep = Inr b" and "relay_auth_payload cid' ch' conn' inst' ep' = Inr b"
    and "newline \<notin> set ch" and "newline \<notin> set ch'"
  shows "parse_uuid (JStr cid) f = parse_uuid (JStr cid') f \<and> ch = ch'
    \<and> parse_connector_id (JStr conn) = parse_connector_id (JStr conn')
    \<and> parse_instance_id (JStr inst) = parse_instance_id (JStr inst') \<and> ep = ep'"
proof -
  from assms(1) obtain u c i where 1: "parse_uuid (JStr cid) ''challenge_id'' = Inr u" "parse_connector_id (JStr conn) = Inr c"
    "parse_instance_id (JStr inst) = Inr i"
    "b = utf8_encode (''remote-agent-relay-auth-v1'' @ nl @ u @ nl @ ch @ nl @ c @ nl @ i @ nl @ show_int ep)"
    by (auto simp: relay_auth_payload_def)
  from assms(2) obtain u' c' i' where 2: "parse_uuid (JStr cid') ''challenge_id'' = Inr u'" "parse_connector_id (JStr conn') = Inr c'"
    "parse_instance_id (JStr inst') = Inr i'"
    "b = utf8_encode (''remote-agent-relay-auth-v1'' @ nl @ u' @ nl @ ch' @ nl @ c' @ nl @ i' @ nl @ show_int ep')"
    by (auto simp: relay_auth_payload_def)
  note no = parse_uuid_Inr(3) parse_connector_id_Inr(1) [THEN pattern_no_newline(1)]
    parse_instance_id_Inr [THEN conjunct1, THEN pattern_no_newline(3)]
  have "u @ newline # ch @ newline # c @ newline # i @ newline # show_int ep
      = u' @ newline # ch' @ newline # c' @ newline # i' @ newline # show_int ep'"
    using 1(4) 2(4) by simp
  from append_sep_eq [OF this no(1) [OF 1(1)] no(1) [OF 2(1)]]
  have u: "u = u'" and "ch @ newline # c @ newline # i @ newline # show_int ep
      = ch' @ newline # c' @ newline # i' @ newline # show_int ep'" by auto
  from append_sep_eq [OF this(2) assms(3,4)]
  have ch: "ch = ch'" and "c @ newline # i @ newline # show_int ep = c' @ newline # i' @ newline # show_int ep'" by auto
  from append_sep_eq [OF this(2) no(2) [OF 1(2)] no(2) [OF 2(2)]]
  have c: "c = c'" and "i @ newline # show_int ep = i' @ newline # show_int ep'" by auto
  from append_sep_eq [OF this(2) no(3) [OF 1(3)] no(3) [OF 2(3)]] have i: "i = i'" "ep = ep'" by auto
  have "parse_uuid (JStr cid) f = parse_uuid (JStr cid') f"
    using 1(1) 2(1) u by (auto simp: parse_uuid_def split: option.splits)
  with u ch c i 1 2 show ?thesis by simp
qed

section \<open>What the header check accepts\<close>

text \<open>
  C8. An identity is only ever returned for headers whose signature is the HMAC, under the
  shared secret, of the canonical text of that very identity, with a timestamp inside the
  window and known scopes. An app assertion in it belongs to a v4 identity and agrees with it in
  client, application, nonce and scopes; a v4 identity without one is returned only when the
  assertion is not required.
\<close>

theorem verify_delegation_sound:
  assumes "verify_delegation_headers hmac loads headers secret audience now max_age req = Inr d"
  shows "(\<exists>payload. canonical_delegation audience (di_client_id d) (di_timestamp d) (di_nonce d)
             (JList (map JStr (di_scopes d))) (di_app_id d) = Inr payload
           \<and> headers ''x-mcp-hub-client-signature'' \<noteq> None
           \<and> hmac (utf8_encode secret) payload =
               py_lower (py_strip (the (headers ''x-mcp-hub-client-signature''))))
    \<and> \<bar>now - di_timestamp d\<bar> \<le> max 1 max_age
    \<and> set (di_scopes d) \<subseteq> set AGENT_SCOPES \<and> di_scopes d \<noteq> []
    \<and> (case di_app_assertion d of
         None \<Rightarrow> di_app_id d = [] \<or> \<not> req
       | Some a \<Rightarrow> di_app_id d \<noteq> [] \<and>
           assertion_matches a (di_client_id d) (di_app_id d) (di_nonce d) (di_scopes d))"
proof -
  let ?hdr = "\<lambda>n. case headers n of Some v \<Rightarrow> v | None \<Rightarrow> []"
  from assms obtain c s n t g where
    r: "read_identity_headers ?hdr = Inr (c, s, n, t, g)"
    and sig: "SIGNATURE_HEX_PATTERN g" and d: "di_client_id d = c" "di_scopes d = s" "di_nonce d = n"
      "di_timestamp d = t" "di_app_id d = py_strip (?hdr ''x-mcp-hub-app-id'')"
    and fresh: "\<bar>now - t\<bar> \<le> max 1 max_age"
    and pay: "\<exists>payload. canonical_delegation audience c t n (JList (map JStr s)) (di_app_id d) = Inr payload
        \<and> hmac (utf8_encode secret) payload = g"
    and app: "case di_app_assertion d of None \<Rightarrow> di_app_id d = [] \<or> \<not> req
       | Some a \<Rightarrow> di_app_id d \<noteq> [] \<and> assertion_matches a c (di_app_id d) n s"
    unfolding verify_delegation_headers_def Let_def
    by (auto split: if_splits prod.splits)
  from r have g: "g = py_lower (py_strip (?hdr ''x-mcp-hub-client-signature''))"
    and sc: "validate_agent_scopes (JStr (?hdr ''x-mcp-hub-client-scopes'')) = Inr s"
    by (auto simp: read_identity_headers_def Let_def split: sum.splits)
  have "headers ''x-mcp-hub-client-signature'' \<noteq> None"
  proof
    assume "headers ''x-mcp-hub-client-signature'' = None"
    then have "g = []" using g by (simp add: py_strip_def py_strip_chars_def py_lower_def)
    with sig show False by (simp add: SIGNATURE_HEX_PATTERN_def run_between_def)
  qed
  with d g pay fresh app validate_agent_scopes_Inr(3,4) [OF sc] show ?thesis by auto
qed

theorem handshake_texts_separated_witness:
  "\<exists>b b'. enrollment_payload ''12345678-1234-5678-1234-567812345678'' ''chal'' ''dev-1'' ''tok'' ''pk'' = Inr b
    \<and> relay_auth_payload ''12345678-1234-5678-1234-567812345678'' ''chal'' ''dev-1'' ''inst'' 0 = Inr b' \<and> b \<noteq> b'"
proof -
  let ?e = "enrollment_payload ''12345678-1234-5678-1234-567812345678'' ''chal'' ''dev-1'' ''tok'' ''pk''"
  let ?r = "relay_auth_payload ''12345678-1234-5678-1234-567812345678'' ''chal'' ''dev-1'' ''inst'' 0"
  have "\<not> isl ?e" "\<not> isl ?r" by code_simp+
  then obtain b b' where "?e = Inr b" "?r = Inr b'" by (cases ?e; cases ?r) simp_all
  with handshake_texts_separated [OF this] show ?thesis by blast
qed

theorem relay_auth_payload_injective_witness:
  "newline \<notin> set ''chal'' \<and> parse_connector_id (JStr ''dev-1'') = parse_connector_id (JStr ''DEV-1'')"
proof -
  let ?r = "\<lambda>c. relay_auth_payload ''12345678-1234-5678-1234-567812345678'' ''chal'' c ''inst'' 0"
  have "\<not> isl (?r ''dev-1'')" and same: "?r ''DEV-1'' = ?r ''dev-1''" by code_simp+
  then obtain b where b: "?r ''dev-1'' = Inr b" by (cases "?r ''dev-1''") simp_all
  have no: "newline \<notin> set ''chal''" by (simp add: newline_def)
  from relay_auth_payload_injective [OF b same [unfolded b] no no] no show ?thesis by blast
qed

definition sample_headers :: "string \<Rightarrow> string option" where
  "sample_headers = map_of
     [(''x-mcp-hub-client-id'', ''hub''), (''x-mcp-hub-client-scopes'', ''agent:read''),
      (''x-mcp-hub-client-nonce'', ''abcdefghijklmnopqrst''), (''x-mcp-hub-client-timestamp'', ''1000''),
      (''x-mcp-hub-client-signature'', replicate 64 (CHR ''0'')), (''x-mcp-hub-app-id'', ''app'')]"

theorem verify_delegation_sound_witness:
  "\<exists>d. verify_delegation_headers (\<lambda>k m. replicate 64 (CHR ''0'')) (\<lambda>_. None) sample_headers
          ''secret'' ''aud'' 1010 90 False = Inr d
    \<and> \<bar>1010 - di_timestamp d\<bar> \<le> max 1 90 \<and> set (di_scopes d) \<subseteq> set AGENT_SCOPES"
proof -
  let ?v = "verify_delegation_headers (\<lambda>k m. replicate 64 (CHR ''0'')) (\<lambda>_. None) sample_headers
          ''secret'' ''aud'' 1010 90 False"
  have "\<not> isl ?v" by code_simp
  then obtain d where d: "?v = Inr d" by (cases ?v) simp_all
  from verify_delegation_sound [OF d] d show ?thesis by blast
qed

end
