(* ===== verification/Redaction.thy ===== *)
theory Redaction
  imports Json
begin

text \<open>
  \<open>remote_agent_connector/redaction.py\<close>: what is blotted out of audit details before they are
  stored. Each of the four patterns is written as a matcher: given the character before the
  position and the rest of the text, it returns the replacement and the length of the match, or
  nothing. The patterns never need backtracking, because each repeated class excludes the
  character that may follow it.
\<close>

section \<open>Scanning for matches\<close>

text \<open>\<open>\w\<close> for code points below 256.\<close>

definition is_word :: "char \<Rightarrow> bool" where
  "is_word c = (is_alnum c \<or> c = CHR ''_'' \<or> code c \<in> {170, 178, 179, 181, 185, 186, 188, 189, 190}
     \<or> (192 \<le> code c \<and> code c \<noteq> 215 \<and> code c \<noteq> 247))"

text \<open>\<open>\b\<close> in front of a word character: the previous character is none.\<close>

definition boundary_before :: "char option \<Rightarrow> bool" where
  "boundary_before prev = (case prev of None \<Rightarrow> True | Some c \<Rightarrow> \<not> is_word c)"

definition boundary_after :: "string \<Rightarrow> bool" where
  "boundary_after rest = (case rest of [] \<Rightarrow> True | c # _ \<Rightarrow> \<not> is_word c)"

definition starts_with_ci :: "string \<Rightarrow> string \<Rightarrow> bool" where
  "starts_with_ci p s = (map lower_char (take (length p) s) = p)"

type_synonym matcher = "char option \<Rightarrow> string \<Rightarrow> (string \<times> nat) option"

text \<open>\<open>re.sub\<close>: leftmost matches, left to right, scanning on after each match.\<close>

function (sequential) re_sub :: "matcher \<Rightarrow> char option \<Rightarrow> string \<Rightarrow> string" where
  "re_sub m prev [] = []"
| "re_sub m prev (c # cs) =
     (case m prev (c # cs) of
        Some (r, n) \<Rightarrow>
          if 0 < n then r @ re_sub m (Some (last (take n (c # cs)))) (drop n (c # cs))
          else c # re_sub m (Some c) cs
      | None \<Rightarrow> c # re_sub m (Some c) cs)"
  by pat_completeness auto
termination
  by (relation "measure (\<lambda>(m, p, s). length s)") auto

section \<open>The patterns\<close>

text \<open>The class \<open>[^\s,;]\<close>.\<close>

definition plain_char :: "char \<Rightarrow> bool" where
  "plain_char c = (\<not> is_space c \<and> c \<noteq> CHR '','' \<and> c \<noteq> CHR '';'')"

definition bearer_char :: "char \<Rightarrow> bool" where
  "bearer_char c = (is_alnum c \<or> c \<in> set ''._~+/=-'')"

definition BEARER_PATTERN :: matcher where
  "BEARER_PATTERN prev s =
     (if boundary_before prev \<and> starts_with_ci ''bearer'' s
      then (let r = drop 6 s; sp = takeWhile is_space r; tok = takeWhile bearer_char (drop (length sp) r)
            in if sp \<noteq> [] \<and> tok \<noteq> []
               then Some (take 6 s @ sp @ ''[REDACTED]'', 6 + length sp + length tok) else None)
      else None)"

definition sensitive_words :: "string list" where
  "sensitive_words =
     [''authorization'', ''bearer'', ''cookie'', ''jwt'', ''token'', ''secret'', ''password'',
      ''credential'', ''proxy'', ''cdp'', ''sql'', ''shell'', ''path'', ''file'']"

definition SENSITIVE_VALUE_PATTERN :: matcher where
  "SENSITIVE_VALUE_PATTERN prev s =
     (case find (\<lambda>w. starts_with_ci w s \<and> boundary_after (drop (length w) s)) sensitive_words of
        None \<Rightarrow> None
      | Some w \<Rightarrow>
          if boundary_before prev
          then (let n = length w; r = drop n s; sp = takeWhile is_space r; r' = drop (length sp) r
                in case r' of
                     [] \<Rightarrow> None
                   | d # r'' \<Rightarrow>
                       if d = CHR '':'' \<or> d = CHR ''=''
                       then (let sp' = takeWhile is_space r'';
                                 v = takeWhile plain_char (drop (length sp') r'')
                             in if v \<noteq> []
                                then Some (take n s @ sp @ [d] @ sp' @ ''[REDACTED]'',
                                           n + length sp + 1 + length sp' + length v)
                                else None)
                       else None)
          else None)"

definition WINDOWS_PATH_PATTERN :: matcher where
  "WINDOWS_PATH_PATTERN prev s =
     (case s of
        c # d # b # r \<Rightarrow>
          if boundary_before prev \<and> (is_upper c \<or> is_lower c) \<and> d = CHR '':'' \<and> b = CHR 0x5C
             \<and> takeWhile plain_char r \<noteq> []
          then Some (''[REDACTED_PATH]'', 3 + length (takeWhile plain_char r)) else None
      | _ \<Rightarrow> None)"

definition UNIX_PATH_PATTERN :: matcher where
  "UNIX_PATH_PATTERN prev s =
     (case s of
        c # r \<Rightarrow>
          if c = CHR ''/'' \<and> (case prev of None \<Rightarrow> True | Some p \<Rightarrow> \<not> is_alnum p)
             \<and> takeWhile plain_char r \<noteq> []
          then Some (''[REDACTED_PATH]'', 1 + length (takeWhile plain_char r)) else None
      | _ \<Rightarrow> None)"

section \<open>redact_audit_value\<close>

definition sensitive_key_words :: "string list" where
  "sensitive_key_words =
     [''token'', ''secret'', ''cookie'', ''jwt'', ''password'', ''credential'', ''proxy'', ''path'',
      ''file'', ''cdp'', ''sql'', ''shell'']"

definition sensitive_key :: "string \<Rightarrow> bool" where
  "sensitive_key k =
     (\<exists>w \<in> set sensitive_key_words. \<exists>i \<in> set [0..<Suc (length k)]. starts_with_ci w (drop i k))"

definition redact_text :: "string \<Rightarrow> string" where
  "redact_text s =
     (let t = re_sub BEARER_PATTERN None s;
          t = re_sub SENSITIVE_VALUE_PATTERN None t;
          t = re_sub WINDOWS_PATH_PATTERN None t
      in re_sub UNIX_PATH_PATTERN None t)"

fun redact_audit_value :: "json \<Rightarrow> json" where
  "redact_audit_value (JObj d) =
     JObj (map (\<lambda>(k, v). (k, if sensitive_key k then JStr ''[REDACTED]'' else redact_audit_value v)) d)"
| "redact_audit_value (JList xs) = JList (map redact_audit_value xs)"
| "redact_audit_value (JStr s) = JStr (redact_text s)"
| "redact_audit_value v = v"

end
