(* ===== verification/Store.thy ===== *)
theory Store
  imports Protocol Redaction "HOL-Library.Product_Lexorder"
begin

text \<open>
  \<open>remote_agent_connector/store.py\<close> over the schema of \<open>migrations/sqlite\<close>: the tables and
  every operation of \<open>RemoteAgentStore\<close>. A transaction is one step, and an exception inside it
  leaves the tables as they were. Times are microseconds since the epoch; \<open>as_timestamp\<close>
  keeps whole seconds, as the stored text does, and fixed-width UTC texts compare as the seconds
  they name. Random tokens and uuids are arguments of the operations that draw them. \<open>sha\<close> is
  SHA-256 in hexadecimal.
\<close>

section \<open>Tables\<close>

type_synonym datetime = int
type_synonym timestamp = int

definition as_timestamp :: "datetime \<Rightarrow> timestamp" where
  "as_timestamp t = t div 1000000"

definition seconds :: "int \<Rightarrow> datetime" where
  "seconds n = n * 1000000"

definition hash_opaque :: "(bytes \<Rightarrow> string) \<Rightarrow> string \<Rightarrow> string" where
  "hash_opaque sha v = sha (utf8_encode v)"

datatype enrollment_state = Enrolled | Revoked
datatype instance_state = Online | Offline
datatype request_status = Pending | Completed | Failed

record device_row =
  dv_connector_id :: string
  dv_public_key :: string
  dv_display_label :: string
  dv_capability_profile :: string
  dv_capabilities_json :: "string list"
  dv_platform :: string
  dv_enrollment_state :: enrollment_state
  dv_enrolled_at :: timestamp
  dv_revoked_at :: "timestamp option"
  dv_updated_at :: timestamp

record token_row =
  tk_token_hash :: string
  tk_connector_id :: string
  tk_capability_profile :: string
  tk_display_label :: string
  tk_expires_at :: timestamp
  tk_consumed_at :: "timestamp option"
  tk_created_at :: timestamp

record challenge_row =
  ch_challenge_id :: string
  ch_challenge_hash :: string
  ch_expires_at :: timestamp
  ch_consumed_at :: "timestamp option"
  ch_created_at :: timestamp

record instance_row =
  in_instance_id :: string
  in_connector_id :: string
  in_connection_generation :: string
  in_context_epoch :: int
  in_state :: instance_state
  in_connected_at :: timestamp
  in_last_heartbeat_at :: timestamp
  in_disconnected_at :: "timestamp option"

record request_row =
  rq_connector_id :: string
  rq_client_id :: string
  rq_idempotency_key :: string
  rq_request_id :: string
  rq_tool_name :: string
  rq_request_digest :: string
  rq_status :: request_status
  rq_result :: "json option"
  rq_created_at :: timestamp
  rq_completed_at :: "timestamp option"

record audit_row =
  au_event_id :: string
  au_agent_principal :: "string option"
  au_connector_id :: "string option"
  au_request_id :: "string option"
  au_action :: string
  au_result_code :: string
  au_details :: json
  au_created_at :: timestamp

record store =
  devices :: "device_row list"
  tokens :: "token_row list"
  challenges :: "challenge_row list"
  instances :: "instance_row list"
  requests :: "request_row list"
  audit :: "audit_row list"

definition empty_store :: store where
  "empty_store = \<lparr>devices = [], tokens = [], challenges = [], instances = [], requests = [], audit = []\<rparr>"

type_synonym request_key = "string \<times> string \<times> string"

definition rq_key :: "request_row \<Rightarrow> request_key" where
  "rq_key r = (rq_connector_id r, rq_client_id r, rq_idempotency_key r)"

text \<open>SQLite integers are signed 64-bit; binding a larger Python integer raises.\<close>

definition fits_sqlite :: "int \<Rightarrow> bool" where
  "fits_sqlite n = (- (2 ^ 63) \<le> n \<and> n < 2 ^ 63)"

section \<open>Enrollment tokens\<close>

definition issue_enrollment_token ::
    "(bytes \<Rightarrow> string) \<Rightarrow> string \<Rightarrow> string \<Rightarrow> string \<Rightarrow> string \<Rightarrow> int \<Rightarrow> datetime \<Rightarrow> store
     \<Rightarrow> string res \<times> store" where
  "issue_enrollment_token sha raw_token connector_id capability_profile display_label
      expires_in_seconds current st =
     (let row = \<lparr>tk_token_hash = hash_opaque sha raw_token, tk_connector_id = connector_id,
                 tk_capability_profile = capability_profile, tk_display_label = display_label,
                 tk_expires_at = as_timestamp (current + seconds expires_in_seconds),
                 tk_consumed_at = None, tk_created_at = as_timestamp current\<rparr>
      in if tbl_get tk_token_hash (tk_token_hash row) (tokens st) \<noteq> None then (Inl IntegrityError, st)
         else (Inr raw_token, st\<lparr>tokens := tbl_insert row (tokens st)\<rparr>))"

definition set_token_consumed :: "timestamp \<Rightarrow> token_row \<Rightarrow> token_row" where
  "set_token_consumed t r = r\<lparr>tk_consumed_at := Some t\<rparr>"

definition consume_enrollment_token_detailed ::
    "(bytes \<Rightarrow> string) \<Rightarrow> string \<Rightarrow> string \<Rightarrow> datetime \<Rightarrow> store
     \<Rightarrow> (string \<times> token_row option) \<times> store" where
  "consume_enrollment_token_detailed sha raw_token connector_id now st =
     (let token_hash = hash_opaque sha raw_token; current = as_timestamp now
      in case tbl_get tk_token_hash token_hash (tokens st) of
           None \<Rightarrow> ((''invalid'', None), st)
         | Some row \<Rightarrow>
             if tk_connector_id row \<noteq> connector_id then ((''connector_mismatch'', None), st)
             else if tk_consumed_at row \<noteq> None then ((''consumed'', None), st)
             else if tk_expires_at row \<le> current then ((''expired'', None), st)
             else (let p = (\<lambda>r. tk_token_hash r = token_hash \<and> tk_consumed_at r = None);
                       st' = st\<lparr>tokens := tbl_update p (set_token_consumed current) (tokens st)\<rparr>
                   in if tbl_count p (tokens st) \<noteq> 1 then ((''consumed'', None), st')
                      else ((''accepted'', Some row), st')))"

definition consume_enrollment_token ::
    "(bytes \<Rightarrow> string) \<Rightarrow> string \<Rightarrow> string \<Rightarrow> datetime \<Rightarrow> store \<Rightarrow> token_row option \<times> store" where
  "consume_enrollment_token sha raw_token connector_id now st =
     (let ((status, record), st') = consume_enrollment_token_detailed sha raw_token connector_id now st
      in (if status = ''accepted'' then record else None, st'))"

section \<open>Challenges\<close>

definition create_challenge ::
    "(bytes \<Rightarrow> string) \<Rightarrow> string \<Rightarrow> string \<Rightarrow> int \<Rightarrow> datetime \<Rightarrow> store \<Rightarrow> (string \<times> string) res \<times> store" where
  "create_challenge sha challenge_id challenge expires_in_seconds current st =
     (let row = \<lparr>ch_challenge_id = challenge_id, ch_challenge_hash = hash_opaque sha challenge,
                 ch_expires_at = as_timestamp (current + seconds expires_in_seconds),
                 ch_consumed_at = None, ch_created_at = as_timestamp current\<rparr>
      in if tbl_get ch_challenge_id challenge_id (challenges st) \<noteq> None then (Inl IntegrityError, st)
         else (Inr (challenge_id, challenge), st\<lparr>challenges := tbl_insert row (challenges st)\<rparr>))"

definition set_challenge_consumed :: "timestamp \<Rightarrow> challenge_row \<Rightarrow> challenge_row" where
  "set_challenge_consumed t r = r\<lparr>ch_consumed_at := Some t\<rparr>"

definition consume_challenge ::
    "(bytes \<Rightarrow> string) \<Rightarrow> string \<Rightarrow> string \<Rightarrow> datetime \<Rightarrow> store \<Rightarrow> bool \<times> store" where
  "consume_challenge sha challenge_id challenge now st =
     (let current = as_timestamp now
      in case tbl_get ch_challenge_id challenge_id (challenges st) of
           None \<Rightarrow> (False, st)
         | Some row \<Rightarrow>
             if ch_consumed_at row \<noteq> None \<or> ch_expires_at row \<le> current
                \<or> ch_challenge_hash row \<noteq> hash_opaque sha challenge
             then (False, st)
             else (True, st\<lparr>challenges := tbl_update
                      (\<lambda>r. ch_challenge_id r = challenge_id \<and> ch_consumed_at r = None)
                      (set_challenge_consumed current) (challenges st)\<rparr>))"

section \<open>Devices\<close>

definition get_device :: "string \<Rightarrow> store \<Rightarrow> device_row option" where
  "get_device connector_id st = tbl_get dv_connector_id connector_id (devices st)"

definition enroll_device ::
    "string \<Rightarrow> string \<Rightarrow> string \<Rightarrow> string \<Rightarrow> datetime \<Rightarrow> string \<Rightarrow> store \<Rightarrow> bool res \<times> store" where
  "enroll_device connector_id public_key display_label capability_profile now platform st =
     (let current = as_timestamp now
      in case capabilities_for_profile capability_profile of
           Inl e \<Rightarrow> (Inl e, st)
         | Inr capabilities \<Rightarrow>
             if get_device connector_id st \<noteq> None then (Inr False, st)
             else (Inr True, st\<lparr>devices := tbl_insert
                     \<lparr>dv_connector_id = connector_id, dv_public_key = public_key,
                      dv_display_label = display_label, dv_capability_profile = capability_profile,
                      dv_capabilities_json = capabilities, dv_platform = platform,
                      dv_enrollment_state = Enrolled, dv_enrolled_at = current,
                      dv_revoked_at = None, dv_updated_at = current\<rparr> (devices st)\<rparr>))"

definition list_devices :: "store \<Rightarrow> device_row list" where
  "list_devices st = sort_key (\<lambda>r. (dv_display_label r, dv_connector_id r)) (devices st)"

definition set_revoked :: "timestamp \<Rightarrow> device_row \<Rightarrow> device_row" where
  "set_revoked t r = r\<lparr>dv_enrollment_state := Revoked, dv_revoked_at := Some t, dv_updated_at := t\<rparr>"

definition set_offline :: "timestamp \<Rightarrow> instance_row \<Rightarrow> instance_row" where
  "set_offline t r = r\<lparr>in_state := Offline, in_disconnected_at := Some t\<rparr>"

definition revoke_device :: "string \<Rightarrow> datetime \<Rightarrow> store \<Rightarrow> bool \<times> store" where
  "revoke_device connector_id now st =
     (let current = as_timestamp now
      in if get_device connector_id st = None then (False, st)
         else (True, st\<lparr>devices := tbl_update (\<lambda>r. dv_connector_id r = connector_id)
                            (set_revoked current) (devices st),
                        instances := tbl_update (\<lambda>r. in_connector_id r = connector_id \<and> in_state r \<noteq> Offline)
                            (set_offline current) (instances st)\<rparr>))"

definition delete_revoked_device :: "string \<Rightarrow> store \<Rightarrow> string \<times> store" where
  "delete_revoked_device connector_id st =
     (case get_device connector_id st of
        None \<Rightarrow> (''device_not_found'', st)
      | Some device \<Rightarrow>
          if dv_enrollment_state device \<noteq> Revoked then (''device_not_revoked'', st)
          else (''deleted'', st\<lparr>instances := tbl_delete (\<lambda>r. in_connector_id r = connector_id) (instances st),
                               devices := tbl_delete (\<lambda>r. dv_connector_id r = connector_id) (devices st)\<rparr>))"

text \<open>The \<open>UPDATE\<close> that \<open>RemoteAgentService.rename_device\<close> issues on the table.\<close>

definition set_label :: "string \<Rightarrow> timestamp \<Rightarrow> device_row \<Rightarrow> device_row" where
  "set_label label t r = r\<lparr>dv_display_label := label, dv_updated_at := t\<rparr>"

definition update_display_label :: "string \<Rightarrow> string \<Rightarrow> datetime \<Rightarrow> store \<Rightarrow> store" where
  "update_display_label connector_id display_label now st =
     st\<lparr>devices := tbl_update (\<lambda>r. dv_connector_id r = connector_id)
          (set_label display_label (as_timestamp now)) (devices st)\<rparr>"

section \<open>Live instances\<close>

definition set_presence :: "string \<Rightarrow> string \<Rightarrow> int \<Rightarrow> timestamp \<Rightarrow> instance_row \<Rightarrow> instance_row" where
  "set_presence connector_id generation epoch t r =
     r\<lparr>in_connector_id := connector_id, in_connection_generation := generation,
       in_context_epoch := epoch, in_state := Online, in_connected_at := t,
       in_last_heartbeat_at := t, in_disconnected_at := None\<rparr>"

definition upsert_presence ::
    "string \<Rightarrow> string \<Rightarrow> string \<Rightarrow> int \<Rightarrow> string list \<Rightarrow> datetime \<Rightarrow> store \<Rightarrow> bool res \<times> store" where
  "upsert_presence connector_id instance_id connection_generation context_epoch capabilities now st =
     (let current = as_timestamp now
      in case get_device connector_id st of
           None \<Rightarrow> (Inr False, st)
         | Some device \<Rightarrow>
             if dv_enrollment_state device \<noteq> Enrolled then (Inr False, st)
             else case capabilities_for_profile (dv_capability_profile device) of
                    Inl e \<Rightarrow> (Inl e, st)
                  | Inr stored_capabilities \<Rightarrow>
                      if \<not> set capabilities \<subseteq> set stored_capabilities then (Inr False, st)
                      else if \<not> fits_sqlite context_epoch then (Inl OverflowError, st)
                      else if context_epoch < 0 then (Inl IntegrityError, st)
                      else (Inr True,
                        case tbl_get in_instance_id instance_id (instances st) of
                          None \<Rightarrow> st\<lparr>instances := tbl_insert
                            \<lparr>in_instance_id = instance_id, in_connector_id = connector_id,
                             in_connection_generation = connection_generation,
                             in_context_epoch = context_epoch, in_state = Online,
                             in_connected_at = current, in_last_heartbeat_at = current,
                             in_disconnected_at = None\<rparr> (instances st)\<rparr>
                        | Some _ \<Rightarrow> st\<lparr>instances := tbl_update (\<lambda>r. in_instance_id r = instance_id)
                            (set_presence connector_id connection_generation context_epoch current)
                            (instances st)\<rparr>))"

definition set_heartbeat :: "int \<Rightarrow> timestamp \<Rightarrow> instance_row \<Rightarrow> instance_row" where
  "set_heartbeat epoch t r = r\<lparr>in_context_epoch := epoch, in_last_heartbeat_at := t\<rparr>"

definition heartbeat :: "string \<Rightarrow> string \<Rightarrow> int \<Rightarrow> datetime \<Rightarrow> store \<Rightarrow> bool res \<times> store" where
  "heartbeat instance_id connection_generation context_epoch now st =
     (let current = as_timestamp now
      in case find (\<lambda>r. in_instance_id r = instance_id \<and> in_state r = Online) (instances st) of
           None \<Rightarrow> (Inr False, st)
         | Some row \<Rightarrow>
             if in_connection_generation row \<noteq> connection_generation
                \<or> context_epoch < in_context_epoch row
             then (Inr False, st)
             else if \<not> fits_sqlite context_epoch then (Inl OverflowError, st)
             else (Inr True, st\<lparr>instances := tbl_update
                     (\<lambda>r. in_instance_id r = instance_id
                        \<and> in_connection_generation r = connection_generation \<and> in_state r = Online)
                     (set_heartbeat context_epoch current) (instances st)\<rparr>))"

definition disconnect_instance :: "string \<Rightarrow> string \<Rightarrow> datetime \<Rightarrow> store \<Rightarrow> bool \<times> store" where
  "disconnect_instance instance_id connection_generation now st =
     (let current = as_timestamp now
      in case tbl_get in_instance_id instance_id (instances st) of
           None \<Rightarrow> (False, st)
         | Some row \<Rightarrow>
             if in_connection_generation row \<noteq> connection_generation then (False, st)
             else (True, st\<lparr>instances := tbl_update
                     (\<lambda>r. in_instance_id r = instance_id \<and> in_connection_generation r = connection_generation)
                     (set_offline current) (instances st)\<rparr>))"

definition set_stale :: "instance_row \<Rightarrow> instance_row" where
  "set_stale r = r\<lparr>in_state := Offline, in_disconnected_at :=
     (case in_disconnected_at r of Some t \<Rightarrow> Some t | None \<Rightarrow> Some (in_last_heartbeat_at r))\<rparr>"

definition is_overdue :: "timestamp \<Rightarrow> instance_row \<Rightarrow> bool" where
  "is_overdue cutoff r = (in_state r = Online \<and> in_last_heartbeat_at r \<le> cutoff)"

definition mark_stale_instances :: "datetime \<Rightarrow> store \<Rightarrow> nat \<times> store" where
  "mark_stale_instances stale_before st =
     (let p = is_overdue (as_timestamp stale_before)
      in (tbl_count p (instances st), st\<lparr>instances := tbl_update p set_stale (instances st)\<rparr>))"

definition exact_online_instance ::
    "string \<Rightarrow> string \<Rightarrow> datetime \<Rightarrow> store \<Rightarrow> instance_row option \<times> store" where
  "exact_online_instance connector_id instance_id fresh_after st =
     (let (_, st') = mark_stale_instances fresh_after st
      in (find (\<lambda>r. in_connector_id r = connector_id \<and> in_instance_id r = instance_id
                  \<and> in_state r = Online \<and> as_timestamp fresh_after < in_last_heartbeat_at r)
            (instances st'), st'))"

text \<open>
  \<open>ORDER BY last_heartbeat_at DESC LIMIT 1\<close>. SQL leaves the choice among equal heartbeats
  open; the model takes the row inserted last, as a backward scan of the table's index does.
\<close>

fun latest_of :: "instance_row list \<Rightarrow> instance_row option" where
  "latest_of [] = None"
| "latest_of (r # rs) = (case latest_of rs of
       None \<Rightarrow> Some r
     | Some r' \<Rightarrow> if in_last_heartbeat_at r' < in_last_heartbeat_at r then Some r else Some r')"

definition latest_online_instance :: "string \<Rightarrow> datetime \<Rightarrow> store \<Rightarrow> instance_row option \<times> store" where
  "latest_online_instance connector_id fresh_after st =
     (let (_, st') = mark_stale_instances fresh_after st
      in (latest_of (filter (\<lambda>r. in_connector_id r = connector_id \<and> in_state r = Online
                  \<and> as_timestamp fresh_after < in_last_heartbeat_at r) (instances st')), st'))"

record agent_row =
  ag_device_id :: string
  ag_platform :: string
  ag_capability_profile :: string
  ag_capabilities_json :: "string list"
  ag_connected_at :: timestamp
  ag_last_heartbeat_at :: timestamp

definition online_agents :: "datetime \<Rightarrow> store \<Rightarrow> agent_row list \<times> store" where
  "online_agents stale_before st =
     (let (_, st') = mark_stale_instances stale_before st; cutoff = as_timestamp stale_before
      in (concat (map (\<lambda>d. map (\<lambda>i. \<lparr>ag_device_id = dv_connector_id d, ag_platform = dv_platform d,
                     ag_capability_profile = dv_capability_profile d,
                     ag_capabilities_json = dv_capabilities_json d,
                     ag_connected_at = in_connected_at i, ag_last_heartbeat_at = in_last_heartbeat_at i\<rparr>)
               (sort_key (\<lambda>i. - in_last_heartbeat_at i)
                 (filter (\<lambda>i. in_connector_id i = dv_connector_id d \<and> in_state i = Online
                            \<and> cutoff < in_last_heartbeat_at i) (instances st'))))
            (sort_key dv_connector_id (filter (\<lambda>d. dv_enrollment_state d = Enrolled) (devices st')))), st'))"

section \<open>Requests\<close>

text \<open>What \<open>json.loads(json.dumps(value, sort_keys=True))\<close> returns: members sorted at every level.\<close>

fun json_sorted :: "json \<Rightarrow> json" where
  "json_sorted (JObj d) = JObj (sort_key fst (map (\<lambda>(k, v). (k, json_sorted v)) d))"
| "json_sorted (JList xs) = JList (map json_sorted xs)"
| "json_sorted v = v"

datatype claim_outcome = New | Conflict | PendingClaim | Replay json

definition claim_request ::
    "string \<Rightarrow> string \<Rightarrow> string \<Rightarrow> string \<Rightarrow> string \<Rightarrow> string \<Rightarrow> datetime \<Rightarrow> store \<Rightarrow> claim_outcome \<times> store" where
  "claim_request connector_id client_id idempotency_key request_id tool_name request_digest now st =
     (let k = (connector_id, client_id, idempotency_key);
          row = \<lparr>rq_connector_id = connector_id, rq_client_id = client_id,
                 rq_idempotency_key = idempotency_key, rq_request_id = request_id,
                 rq_tool_name = tool_name, rq_request_digest = request_digest, rq_status = Pending,
                 rq_result = None, rq_created_at = as_timestamp now, rq_completed_at = None\<rparr>;
          st' = (if tbl_get rq_key k (requests st) = None
                 then st\<lparr>requests := tbl_insert row (requests st)\<rparr> else st);
          existing = the (tbl_get rq_key k (requests st'))
      in (if rq_request_id existing = request_id then New
          else if rq_request_digest existing \<noteq> request_digest then Conflict
          else if rq_status existing = Pending then PendingClaim
          else Replay (case rq_result existing of Some r \<Rightarrow> r | None \<Rightarrow> JObj []), st'))"

definition set_completed :: "request_status \<Rightarrow> json \<Rightarrow> timestamp \<Rightarrow> request_row \<Rightarrow> request_row" where
  "set_completed status result t r =
     r\<lparr>rq_status := status, rq_result := Some (json_sorted result), rq_completed_at := Some t\<rparr>"

definition complete_request ::
    "string \<Rightarrow> string \<Rightarrow> string \<Rightarrow> request_status \<Rightarrow> json \<Rightarrow> datetime \<Rightarrow> store \<Rightarrow> store" where
  "complete_request connector_id client_id idempotency_key status result now st =
     st\<lparr>requests := tbl_update
         (\<lambda>r. rq_key r = (connector_id, client_id, idempotency_key) \<and> rq_status r = Pending)
         (set_completed status result (as_timestamp now)) (requests st)\<rparr>"

section \<open>Audit\<close>

definition append_audit ::
    "string \<Rightarrow> string \<Rightarrow> string \<Rightarrow> string option \<Rightarrow> string option \<Rightarrow> string option \<Rightarrow> fields \<Rightarrow> datetime
     \<Rightarrow> store \<Rightarrow> string res \<times> store" where
  "append_audit event_id action result_code agent_principal connector_id request_id details now st =
     (if tbl_get au_event_id event_id (audit st) \<noteq> None then (Inl IntegrityError, st)
      else (Inr event_id, st\<lparr>audit := tbl_insert
         \<lparr>au_event_id = event_id, au_agent_principal = agent_principal, au_connector_id = connector_id,
          au_request_id = request_id, au_action = action, au_result_code = result_code,
          au_details = redact_audit_value (JObj details), au_created_at = as_timestamp now\<rparr> (audit st)\<rparr>))"

definition audit_events :: "int \<Rightarrow> store \<Rightarrow> audit_row list" where
  "audit_events limit st =
     take (nat (max 1 (min limit 500)))
       (rev (sort_key (\<lambda>r. (au_created_at r, au_event_id r)) (audit st)))"

section \<open>The column assignments keep the primary keys\<close>

interpretation token_upd: row_update tk_token_hash "set_token_consumed t" for t
  by unfold_locales (simp add: set_token_consumed_def)

interpretation challenge_upd: row_update ch_challenge_id "set_challenge_consumed t" for t
  by unfold_locales (simp add: set_challenge_consumed_def)

interpretation revoke_upd: row_update dv_connector_id "set_revoked t" for t
  by unfold_locales (simp add: set_revoked_def)

interpretation label_upd: row_update dv_connector_id "set_label l t" for l t
  by unfold_locales (simp add: set_label_def)

interpretation offline_upd: row_update in_instance_id "set_offline t" for t
  by unfold_locales (simp add: set_offline_def)

interpretation presence_upd: row_update in_instance_id "set_presence c g e t" for c g e t
  by unfold_locales (simp add: set_presence_def)

interpretation heartbeat_upd: row_update in_instance_id "set_heartbeat e t" for e t
  by unfold_locales (simp add: set_heartbeat_def)

interpretation stale_upd: row_update in_instance_id set_stale
  by unfold_locales (simp add: set_stale_def)

interpretation complete_upd: row_update rq_key "set_completed s j t" for s j t
  by unfold_locales (simp add: set_completed_def rq_key_def)

lemmas upd_ok =
  token_upd.ok_update challenge_upd.ok_update revoke_upd.ok_update label_upd.ok_update
  offline_upd.ok_update presence_upd.ok_update heartbeat_upd.ok_update stale_upd.ok_update
  complete_upd.ok_update

end
