(* ===== verification/StoreInv.thy ===== *)
theory StoreInv
  imports Store
begin

text \<open>
  The store as a state machine: every statement the service issues is one operation of
  \<open>store_op\<close>, \<open>store_step\<close> runs it, and \<open>store_inv\<close> is what the schema and the code together
  keep: the primary keys, the foreign key of \<open>live_instances\<close>, and the agreement of each
  state column with the columns that depend on it.
\<close>

section \<open>Operations as steps\<close>

text \<open>
  \<open>OpComplete\<close> carries a flag for \<open>completed\<close> or \<open>failed\<close>: no caller passes \<open>pending\<close>.
  \<open>OpSweep\<close> is \<open>mark_stale_instances\<close>, the only write of the liveness reads.
\<close>

datatype store_op =
    OpIssueToken string string string string int datetime
  | OpConsumeToken string string datetime
  | OpCreateChallenge string string int datetime
  | OpConsumeChallenge string string datetime
  | OpEnroll string string string string datetime string
  | OpRename string string datetime
  | OpRevoke string datetime
  | OpDelete string
  | OpPresence string string string int "string list" datetime
  | OpHeartbeat string string int datetime
  | OpDisconnect string string datetime
  | OpSweep datetime
  | OpClaim string string string string string string datetime
  | OpComplete string string string bool json datetime
  | OpAudit string string string "string option" "string option" "string option" fields datetime

fun store_step :: "(bytes \<Rightarrow> string) \<Rightarrow> store_op \<Rightarrow> store \<Rightarrow> store" where
  "store_step sha (OpIssueToken raw c p l n t) st = snd (issue_enrollment_token sha raw c p l n t st)"
| "store_step sha (OpConsumeToken raw c t) st = snd (consume_enrollment_token_detailed sha raw c t st)"
| "store_step sha (OpCreateChallenge i ch n t) st = snd (create_challenge sha i ch n t st)"
| "store_step sha (OpConsumeChallenge i ch t) st = snd (consume_challenge sha i ch t st)"
| "store_step sha (OpEnroll c k l p t pf) st = snd (enroll_device c k l p t pf st)"
| "store_step sha (OpRename c l t) st = update_display_label c l t st"
| "store_step sha (OpRevoke c t) st = snd (revoke_device c t st)"
| "store_step sha (OpDelete c) st = snd (delete_revoked_device c st)"
| "store_step sha (OpPresence c i g e caps t) st = snd (upsert_presence c i g e caps t st)"
| "store_step sha (OpHeartbeat i g e t) st = snd (heartbeat i g e t st)"
| "store_step sha (OpDisconnect i g t) st = snd (disconnect_instance i g t st)"
| "store_step sha (OpSweep t) st = snd (mark_stale_instances t st)"
| "store_step sha (OpClaim c cl k rid tool d t) st = snd (claim_request c cl k rid tool d t st)"
| "store_step sha (OpComplete c cl k ok j t) st =
     complete_request c cl k (if ok then Completed else Failed) j t st"
| "store_step sha (OpAudit e a rc p c rid d t) st = snd (append_audit e a rc p c rid d t st)"

section \<open>The invariant\<close>

definition device_ok :: "device_row \<Rightarrow> bool" where
  "device_ok d =
     (capabilities_for_profile (dv_capability_profile d) = Inr (dv_capabilities_json d)
      \<and> (dv_enrollment_state d = Revoked \<longleftrightarrow> dv_revoked_at d \<noteq> None))"

definition instance_ok :: "device_row list \<Rightarrow> instance_row \<Rightarrow> bool" where
  "instance_ok ds i =
     (0 \<le> in_context_epoch i \<and> fits_sqlite (in_context_epoch i)
      \<and> (in_state i = Offline \<longleftrightarrow> in_disconnected_at i \<noteq> None)
      \<and> tbl_get dv_connector_id (in_connector_id i) ds \<noteq> None
      \<and> (in_state i = Online \<longrightarrow>
           map_option dv_enrollment_state (tbl_get dv_connector_id (in_connector_id i) ds) = Some Enrolled))"

definition request_ok :: "request_row \<Rightarrow> bool" where
  "request_ok r =
     ((rq_status r = Pending \<longleftrightarrow> rq_result r = None)
      \<and> (rq_status r = Pending \<longleftrightarrow> rq_completed_at r = None))"

definition keys_ok :: "store \<Rightarrow> bool" where
  "keys_ok st =
     (tbl_ok dv_connector_id (devices st) \<and> tbl_ok tk_token_hash (tokens st)
      \<and> tbl_ok ch_challenge_id (challenges st) \<and> tbl_ok in_instance_id (instances st)
      \<and> tbl_ok rq_key (requests st) \<and> tbl_ok au_event_id (audit st))"

definition store_inv :: "store \<Rightarrow> bool" where
  "store_inv st =
     (keys_ok st \<and> (\<forall>d \<in> set (devices st). device_ok d)
      \<and> (\<forall>i \<in> set (instances st). instance_ok (devices st) i)
      \<and> (\<forall>r \<in> set (requests st). request_ok r))"

section \<open>Every operation keeps it\<close>

lemma ball_tbl_update:
  "(\<forall>r \<in> set (tbl_update p f rows). P r) \<longleftrightarrow> (\<forall>r \<in> set rows. P (if p r then f r else r))"
  by (auto simp: set_tbl_update)

named_theorems inv_step

text \<open>An operation that leaves devices, instances and requests alone only has to keep the keys.\<close>

lemma store_inv_frame:
  assumes "store_inv st" and "keys_ok st'" and "devices st' = devices st"
    and "instances st' = instances st" and "requests st' = requests st"
  shows "store_inv st'"
  using assms by (simp add: store_inv_def)

lemma inv_issue_token [inv_step]: "store_inv st \<Longrightarrow> store_inv (snd (issue_enrollment_token sha raw c p l n t st))"
  by (rule store_inv_frame) (auto simp: issue_enrollment_token_def Let_def keys_ok_def store_inv_def)

lemma inv_consume_token [inv_step]:
  "store_inv st \<Longrightarrow> store_inv (snd (consume_enrollment_token_detailed sha raw c t st))"
  by (rule store_inv_frame)
    (auto simp: consume_enrollment_token_detailed_def Let_def keys_ok_def store_inv_def upd_ok split: option.split)

lemma inv_create_challenge [inv_step]: "store_inv st \<Longrightarrow> store_inv (snd (create_challenge sha i ch n t st))"
  by (rule store_inv_frame) (auto simp: create_challenge_def Let_def keys_ok_def store_inv_def)

lemma inv_consume_challenge [inv_step]: "store_inv st \<Longrightarrow> store_inv (snd (consume_challenge sha i ch t st))"
  by (rule store_inv_frame)
    (auto simp: consume_challenge_def Let_def keys_ok_def store_inv_def upd_ok split: option.split)

lemma inv_audit [inv_step]: "store_inv st \<Longrightarrow> store_inv (snd (append_audit e a rc p c rid d t st))"
  by (rule store_inv_frame) (auto simp: append_audit_def keys_ok_def store_inv_def)

text \<open>
  Writing instances keeps the invariant when the rows written satisfy it; writing devices does
  when no device that a row refers to disappears or changes its enrolment.
\<close>

lemma store_inv_instances:
  assumes "store_inv st" and "tbl_ok in_instance_id rows" and "\<And>i. i \<in> set rows \<Longrightarrow> instance_ok (devices st) i"
  shows "store_inv (st\<lparr>instances := rows\<rparr>)"
  using assms by (simp add: store_inv_def keys_ok_def)

lemma store_inv_update_instances:
  assumes "store_inv st" and "\<And>p rows. tbl_ok in_instance_id (tbl_update p f rows) = tbl_ok in_instance_id rows"
    and "\<And>i. instance_ok (devices st) i \<Longrightarrow> p i \<Longrightarrow> instance_ok (devices st) (f i)"
  shows "store_inv (st\<lparr>instances := tbl_update p f (instances st)\<rparr>)"
proof (rule store_inv_instances [OF assms(1)])
  show "tbl_ok in_instance_id (tbl_update p f (instances st))"
    using assms(1,2) by (simp add: store_inv_def keys_ok_def)
  show "instance_ok (devices st) i" if "i \<in> set (tbl_update p f (instances st))" for i
    using that assms(1,3) by (auto simp: set_tbl_update store_inv_def)
qed

lemma store_inv_devices:
  assumes inv: "store_inv st" and keys: "tbl_ok dv_connector_id rows"
    and rows: "\<And>d. d \<in> set rows \<Longrightarrow> device_ok d"
    and found: "\<And>c d. tbl_get dv_connector_id c (devices st) = Some d \<Longrightarrow>
           \<exists>d'. tbl_get dv_connector_id c rows = Some d' \<and> dv_enrollment_state d' = dv_enrollment_state d"
  shows "store_inv (st\<lparr>devices := rows\<rparr>)"
proof -
  have "instance_ok rows i" if "instance_ok (devices st) i" for i
    using that found [of "in_connector_id i"] by (fastforce simp: instance_ok_def)
  with inv keys rows show ?thesis by (simp add: store_inv_def keys_ok_def)
qed

lemma inv_enroll [inv_step]:
  assumes inv: "store_inv st"
  shows "store_inv (snd (enroll_device c k l p t pf st))"
proof (cases "capabilities_for_profile p")
  case (Inl e)
  with inv show ?thesis by (simp add: enroll_device_def)
next
  case (Inr caps)
  show ?thesis
  proof (cases "get_device c st")
    case None
    have "store_inv (st\<lparr>devices := tbl_insert \<lparr>dv_connector_id = c, dv_public_key = k,
        dv_display_label = l, dv_capability_profile = p, dv_capabilities_json = caps, dv_platform = pf,
        dv_enrollment_state = Enrolled, dv_enrolled_at = as_timestamp t, dv_revoked_at = None,
        dv_updated_at = as_timestamp t\<rparr> (devices st)\<rparr>)"
      using inv None Inr
      by (intro store_inv_devices) (auto simp: store_inv_def keys_ok_def get_device_def device_ok_def)
    with Inr None show ?thesis by (simp add: enroll_device_def Let_def)
  qed (use inv Inr in \<open>simp add: enroll_device_def\<close>)
qed

lemma inv_rename [inv_step]: "store_inv st \<Longrightarrow> store_inv (update_display_label c l t st)"
  unfolding update_display_label_def
  by (rule store_inv_devices)
    (auto simp: store_inv_def keys_ok_def upd_ok set_tbl_update device_ok_def set_label_def label_upd.get_update)

lemma revoke_instance_ok:
  assumes "instance_ok ds i"
  shows "instance_ok (tbl_update (\<lambda>r. dv_connector_id r = c) (set_revoked t) ds)
     (if in_connector_id i = c \<and> in_state i \<noteq> Offline then set_offline t i else i)"
proof -
  obtain d where d: "tbl_get dv_connector_id (in_connector_id i) ds = Some d"
    using assms by (auto simp: instance_ok_def)
  then have "dv_connector_id d = in_connector_id i" by (rule tbl_get_key)
  with assms d show ?thesis
    by (cases "in_state i") (auto simp: instance_ok_def revoke_upd.get_update set_offline_def set_revoked_def)
qed

lemma inv_revoke [inv_step]:
  assumes "store_inv st"
  shows "store_inv (snd (revoke_device c t st))"
proof (cases "get_device c st = None")
  case True
  with assms show ?thesis by (simp add: revoke_device_def)
next
  case False
  let ?ds = "tbl_update (\<lambda>r. dv_connector_id r = c) (set_revoked (as_timestamp t)) (devices st)"
  let ?is = "tbl_update (\<lambda>r. in_connector_id r = c \<and> in_state r \<noteq> Offline) (set_offline (as_timestamp t)) (instances st)"
  have "device_ok (set_revoked (as_timestamp t) d)" if "device_ok d" for d
    using that by (simp add: device_ok_def set_revoked_def)
  with assms have "\<forall>d \<in> set ?ds. device_ok d"
    by (auto simp: ball_tbl_update store_inv_def)
  moreover have "\<forall>i \<in> set ?is. instance_ok ?ds i"
    unfolding ball_tbl_update using assms by (auto simp only: store_inv_def intro!: revoke_instance_ok)
  ultimately show ?thesis using assms False
    by (simp add: revoke_device_def Let_def store_inv_def keys_ok_def upd_ok)
qed

lemma inv_delete [inv_step]:
  assumes "store_inv st"
  shows "store_inv (snd (delete_revoked_device c st))"
proof -
  have "instance_ok (tbl_delete (\<lambda>r. dv_connector_id r = c) (devices st)) i"
    if "instance_ok (devices st) i" and "in_connector_id i \<noteq> c" for i
    using that by (simp add: instance_ok_def)
  with assms show ?thesis
    by (simp add: delete_revoked_device_def store_inv_def keys_ok_def split: option.split)
qed

lemma set_presence_ok:
  assumes "get_device c st = Some d" and "dv_enrollment_state d = Enrolled"
    and "0 \<le> e" and "fits_sqlite e"
  shows "instance_ok (devices st) (set_presence c g e t i)"
  using assms by (simp add: instance_ok_def set_presence_def get_device_def)

lemma set_heartbeat_ok:
  "instance_ok ds i \<Longrightarrow> 0 \<le> e \<Longrightarrow> fits_sqlite e \<Longrightarrow> instance_ok ds (set_heartbeat e t i)"
  by (simp add: instance_ok_def set_heartbeat_def)

lemma set_offline_ok: "instance_ok ds i \<Longrightarrow> instance_ok ds (set_offline t i)"
  by (simp add: instance_ok_def set_offline_def)

lemma set_stale_ok: "instance_ok ds i \<Longrightarrow> instance_ok ds (set_stale i)"
  by (simp add: instance_ok_def set_stale_def split: option.split)

text \<open>When \<open>upsert_presence\<close> accepts, and what it writes.\<close>

lemma upsert_presence_accepted:
  "fst (upsert_presence c i g e caps t st) = Inr True \<longleftrightarrow>
     (\<exists>d stored. get_device c st = Some d \<and> dv_enrollment_state d = Enrolled
        \<and> capabilities_for_profile (dv_capability_profile d) = Inr stored
        \<and> set caps \<subseteq> set stored \<and> fits_sqlite e \<and> 0 \<le> e)"
  by (simp add: upsert_presence_def Let_def split: option.split sum.split)

lemma upsert_presence_refused:
  "fst (upsert_presence c i g e caps t st) \<noteq> Inr True \<Longrightarrow> snd (upsert_presence c i g e caps t st) = st"
  by (simp add: upsert_presence_def Let_def split: option.splits sum.splits if_splits)

definition presence_row :: "string \<Rightarrow> string \<Rightarrow> string \<Rightarrow> int \<Rightarrow> timestamp \<Rightarrow> instance_row" where
  "presence_row c i g e t =
     \<lparr>in_instance_id = i, in_connector_id = c, in_connection_generation = g, in_context_epoch = e,
      in_state = Online, in_connected_at = t, in_last_heartbeat_at = t, in_disconnected_at = None\<rparr>"

lemma upsert_presence_writes:
  assumes "fst (upsert_presence c i g e caps t st) = Inr True"
  shows "snd (upsert_presence c i g e caps t st) =
     st\<lparr>instances :=
        (if tbl_get in_instance_id i (instances st) = None
         then tbl_insert (presence_row c i g e (as_timestamp t)) (instances st)
         else tbl_update (\<lambda>r. in_instance_id r = i) (set_presence c g e (as_timestamp t)) (instances st))\<rparr>"
proof -
  obtain d stored where "get_device c st = Some d" "dv_enrollment_state d = Enrolled"
    "capabilities_for_profile (dv_capability_profile d) = Inr stored"
    "set caps \<subseteq> set stored" "fits_sqlite e" "0 \<le> e"
    using assms by (auto simp: upsert_presence_accepted)
  then show ?thesis
    by (cases "tbl_get in_instance_id i (instances st)")
      (simp_all add: upsert_presence_def Let_def presence_row_def)
qed

lemma inv_presence [inv_step]:
  assumes inv: "store_inv st"
  shows "store_inv (snd (upsert_presence c i g e caps t st))"
proof (cases "fst (upsert_presence c i g e caps t st) = Inr True")
  case False
  with inv show ?thesis by (simp add: upsert_presence_refused)
next
  case True
  then obtain d where d: "get_device c st = Some d" "dv_enrollment_state d = Enrolled"
    and e: "0 \<le> e" "fits_sqlite e"
    by (auto simp: upsert_presence_accepted)
  have row: "instance_ok (devices st) (presence_row c i g e s)" for s
    using d e by (simp add: instance_ok_def presence_row_def get_device_def)
  show ?thesis
  proof (cases "tbl_get in_instance_id i (instances st)")
    case None
    have "store_inv (st\<lparr>instances := tbl_insert (presence_row c i g e (as_timestamp t)) (instances st)\<rparr>)"
      using inv None row by (intro store_inv_instances) (auto simp: store_inv_def keys_ok_def presence_row_def)
    with True None show ?thesis by (simp add: upsert_presence_writes)
  next
    case (Some r)
    have "store_inv (st\<lparr>instances := tbl_update (\<lambda>r. in_instance_id r = i)
            (set_presence c g e (as_timestamp t)) (instances st)\<rparr>)"
      by (rule store_inv_update_instances [OF inv presence_upd.ok_update set_presence_ok [OF d e]])
    with True Some show ?thesis by (simp add: upsert_presence_writes)
  qed
qed

lemma find_SomeD: "find P xs = Some x \<Longrightarrow> P x \<and> x \<in> set xs"
  by (auto simp: find_Some_iff)

lemma inv_heartbeat [inv_step]:
  assumes "store_inv st"
  shows "store_inv (snd (heartbeat i g e t st))"
proof (cases "find (\<lambda>r. in_instance_id r = i \<and> in_state r = Online) (instances st)")
  case None
  with assms show ?thesis by (simp add: heartbeat_def)
next
  case (Some row)
  then have "row \<in> set (instances st)" by (blast dest: find_SomeD)
  with assms have "0 \<le> in_context_epoch row" by (simp add: store_inv_def instance_ok_def)
  with Some assms show ?thesis
    by (auto simp: heartbeat_def Let_def
        intro!: store_inv_update_instances heartbeat_upd.ok_update set_heartbeat_ok)
qed

lemma inv_disconnect [inv_step]: "store_inv st \<Longrightarrow> store_inv (snd (disconnect_instance i g t st))"
  by (auto simp: disconnect_instance_def Let_def split: option.split
      intro!: store_inv_update_instances offline_upd.ok_update set_offline_ok)

lemma inv_sweep [inv_step]: "store_inv st \<Longrightarrow> store_inv (snd (mark_stale_instances t st))"
  by (auto simp: mark_stale_instances_def Let_def
      intro!: store_inv_update_instances stale_upd.ok_update set_stale_ok)

lemma inv_claim [inv_step]: "store_inv st \<Longrightarrow> store_inv (snd (claim_request c cl k rid tool d t st))"
  by (auto simp: claim_request_def Let_def store_inv_def keys_ok_def request_ok_def rq_key_def)

lemma inv_complete [inv_step]:
  "store_inv st \<Longrightarrow> s \<noteq> Pending \<Longrightarrow> store_inv (complete_request c cl k s j t st)"
  by (auto simp: complete_request_def store_inv_def keys_ok_def upd_ok ball_tbl_update
      request_ok_def set_completed_def)

lemma store_inv_empty [simp]: "store_inv empty_store"
  by (simp add: empty_store_def store_inv_def keys_ok_def)

lemma store_inv_step: "store_inv st \<Longrightarrow> store_inv (store_step sha op st)"
  by (cases op) (simp_all add: inv_step)

interpretation store_machine: invariant_machine "store_step sha" "\<lambda>_. True" store_inv for sha
  by unfold_locales (rule store_inv_step)

section \<open>Revocation\<close>

definition is_revoked :: "string \<Rightarrow> store \<Rightarrow> bool" where
  "is_revoked c st = (map_option dv_enrollment_state (get_device c st) = Some Revoked)"

text \<open>The statements that leave the devices as they are.\<close>

lemma devices_unchanged:
  "devices (snd (issue_enrollment_token sha raw c p l n t st)) = devices st"
  "devices (snd (consume_enrollment_token_detailed sha raw c t st)) = devices st"
  "devices (snd (create_challenge sha i ch n t st)) = devices st"
  "devices (snd (consume_challenge sha i ch t st)) = devices st"
  "devices (snd (upsert_presence c i g e caps t st)) = devices st"
  "devices (snd (heartbeat i g e t st)) = devices st"
  "devices (snd (disconnect_instance i g t st)) = devices st"
  "devices (snd (mark_stale_instances t st)) = devices st"
  "devices (snd (claim_request c cl k rid tool dg t st)) = devices st"
  "devices (complete_request c cl k s j t st) = devices st"
  "devices (snd (append_audit ev a rc pr co rq d t st)) = devices st"
  by (simp_all add: issue_enrollment_token_def consume_enrollment_token_detailed_def create_challenge_def
      consume_challenge_def upsert_presence_def heartbeat_def disconnect_instance_def
      mark_stale_instances_def claim_request_def complete_request_def append_audit_def Let_def
      split: option.split sum.split)

lemma is_revoked_iff:
  "is_revoked c st \<longleftrightarrow>
     (\<exists>d. tbl_get dv_connector_id c (devices st) = Some d \<and> dv_enrollment_state d = Revoked)"
  by (auto simp: is_revoked_def get_device_def)

lemma is_revoked_step:
  assumes "op \<noteq> OpDelete c" and "is_revoked c st"
  shows "is_revoked c (store_step sha op st)"
proof -
  obtain d where d: "tbl_get dv_connector_id c (devices st) = Some d" "dv_enrollment_state d = Revoked"
    using assms(2) by (auto simp: is_revoked_iff)
  show ?thesis
  proof (cases op)
    case (OpEnroll c' k l p t pf)
    with d show ?thesis
      by (simp add: is_revoked_iff get_device_def enroll_device_def Let_def split: sum.split)
  next
    case (OpRename c' l t)
    with d show ?thesis
      by (simp add: is_revoked_iff update_display_label_def label_upd.get_update set_label_def)
  next
    case (OpRevoke c' t)
    with d show ?thesis
      by (simp add: is_revoked_iff revoke_device_def Let_def revoke_upd.get_update set_revoked_def)
  next
    case (OpDelete c')
    with d assms(1) show ?thesis
      by (auto simp: is_revoked_iff delete_revoked_device_def split: option.split)
  qed (use d in \<open>simp_all add: is_revoked_iff devices_unchanged\<close>)
qed

interpretation revoked_machine: invariant_machine "store_step sha" "\<lambda>op. op \<noteq> OpDelete c" "is_revoked c" for sha c
  by unfold_locales (rule is_revoked_step)

lemma revoke_device_revokes:
  assumes "fst (revoke_device c t st)"
  shows "is_revoked c (snd (revoke_device c t st))"
proof -
  obtain d where "tbl_get dv_connector_id c (devices st) = Some d"
    using assms by (auto simp: revoke_device_def Let_def get_device_def split: if_splits)
  moreover from this have "dv_connector_id d = c" by (rule tbl_get_key)
  ultimately show ?thesis
    by (simp add: revoke_device_def Let_def is_revoked_iff get_device_def revoke_upd.get_update set_revoked_def)
qed

text \<open>Under the invariant a revoked device has no online instance.\<close>

lemma revoked_no_online:
  "store_inv st \<Longrightarrow> is_revoked c st \<Longrightarrow> i \<in> set (instances st) \<Longrightarrow> in_connector_id i = c \<Longrightarrow> in_state i = Offline"
  by (cases "in_state i") (auto simp: store_inv_def instance_ok_def is_revoked_def get_device_def)

section \<open>Properties\<close>

text \<open>
  C14. Every state the store can reach from an empty database keeps the keys, the foreign key of
  the live instances and the agreement of every state column: an online instance has no
  disconnection time and belongs to an enrolled device, a stored capability list is the one of
  the device's profile, and a request has a result exactly when it is no longer pending.
\<close>

theorem reachable_store_inv: "store_inv (run_steps (store_step sha) ops empty_store)"
  by (rule store_machine.run_inv) simp_all

text \<open>
  C6. Revocation is effective: once a device has been revoked, and as long as the device is
  not deleted, no sequence of store operations lets the device present itself, be found by a
  routing read, or be listed as an online agent.
\<close>

theorem revoked_device_stays_out:
  assumes "store_inv st" and "fst (revoke_device c t st)" and "OpDelete c \<notin> set ops"
    and st': "st' = run_steps (store_step sha) ops (snd (revoke_device c t st))"
  shows "fst (upsert_presence c i g e caps now st') = Inr False
    \<and> fst (exact_online_instance c i fresh st') = None
    \<and> fst (latest_online_instance c fresh st') = None
    \<and> (\<forall>a \<in> set (fst (online_agents fresh st')). ag_device_id a \<noteq> c)"
proof (intro conjI)
  have inv: "store_inv st'" and rev: "is_revoked c st'"
    using assms by (auto intro!: store_machine.run_inv revoked_machine.run_inv inv_step revoke_device_revokes)
  show "fst (upsert_presence c i g e caps now st') = Inr False"
    using rev by (auto simp: upsert_presence_def Let_def is_revoked_def split: option.split)
  have off: "in_state r = Offline"
    if "r \<in> set (instances (snd (mark_stale_instances fresh st')))" "in_connector_id r = c" for r
    using revoked_no_online [OF inv_sweep [OF inv], where c = c and i = r] that rev
    by (simp add: is_revoked_def get_device_def devices_unchanged)
  show "fst (exact_online_instance c i fresh st') = None"
    using off by (fastforce simp: exact_online_instance_def find_None_iff split: prod.split)
  have "filter (\<lambda>r. in_connector_id r = c \<and> in_state r = Online \<and> as_timestamp fresh < in_last_heartbeat_at r)
      (instances (snd (mark_stale_instances fresh st'))) = []"
    using off by (fastforce simp: filter_empty_conv)
  then show "fst (latest_online_instance c fresh st') = None"
    by (simp add: latest_online_instance_def split_beta)
  have "\<forall>d \<in> set (devices st'). dv_enrollment_state d = Enrolled \<longrightarrow> dv_connector_id d \<noteq> c"
    using inv rev by (auto simp: is_revoked_def get_device_def store_inv_def keys_ok_def dest: tbl_get_in_set)
  then show "\<forall>a \<in> set (fst (online_agents fresh st')). ag_device_id a \<noteq> c"
    by (auto simp: online_agents_def Let_def devices_unchanged split_beta)
qed

text \<open>The witness enrols a device, lets it come online, revokes it and lets it try again.\<close>

definition demo_sha :: "bytes \<Rightarrow> string" where
  "demo_sha bs = map char_of bs"

definition demo_enrolled :: store where
  "demo_enrolled = run_steps (store_step demo_sha)
     [OpEnroll ''dev-1'' ''key'' ''Laptop'' ''read_only'' (seconds 100) ''linux'',
      OpPresence ''dev-1'' ''i-1'' ''gen-1'' 0 [] (seconds 110)] empty_store"

theorem revoked_device_stays_out_witness:
  "fst (upsert_presence ''dev-1'' ''i-1'' ''gen-2'' 1 [] (seconds 130)
          (run_steps (store_step demo_sha)
            [OpPresence ''dev-1'' ''i-1'' ''gen-2'' 1 [] (seconds 125),
             OpHeartbeat ''i-1'' ''gen-1'' 1 (seconds 126)]
            (snd (revoke_device ''dev-1'' (seconds 120) demo_enrolled)))) = Inr False"
proof -
  have "store_inv demo_enrolled"
    unfolding demo_enrolled_def by (rule store_machine.run_inv) simp_all
  moreover have "fst (revoke_device ''dev-1'' (seconds 120) demo_enrolled)" by code_simp
  moreover have "OpDelete ''dev-1'' \<notin> set [OpPresence ''dev-1'' ''i-1'' ''gen-2'' 1 [] (seconds 125),
     OpHeartbeat ''i-1'' ''gen-1'' 1 (seconds 126)]" by simp
  ultimately show ?thesis
    using revoked_device_stays_out [OF _ _ _ refl] by blast
qed

end
