(* ===== verification/Liveness.thy ===== *)
theory Liveness
  imports StoreInv
begin

text \<open>
  Liveness of device instances: the sweep that closes overdue rows, the reads that route a
  command, the inventory of online agents, and the two protections of a connection against its
  predecessors, the connection generation and the context epoch.
\<close>

section \<open>The sweep and the reads\<close>

text \<open>What a routing read may return: the abstract notion of a live instance of a device.\<close>

definition is_live :: "string \<Rightarrow> timestamp \<Rightarrow> instance_row \<Rightarrow> bool" where
  "is_live c cutoff r = (in_connector_id r = c \<and> in_state r = Online \<and> cutoff < in_last_heartbeat_at r)"

lemma set_stale_offline [simp]: "in_state (set_stale r) = Offline"
  by (simp add: set_stale_def)

lemma online_after_sweep:
  "r \<in> set (instances (snd (mark_stale_instances t st))) \<and> in_state r = Online \<longleftrightarrow>
   r \<in> set (instances st) \<and> in_state r = Online \<and> as_timestamp t < in_last_heartbeat_at r"
proof -
  have "in_state (set_stale x) \<noteq> Online" for x by simp
  then show ?thesis
    by (fastforce simp: mark_stale_instances_def Let_def set_tbl_update is_overdue_def image_iff)
qed

lemma live_after_sweep:
  "r \<in> set (instances (snd (mark_stale_instances t st))) \<and> is_live c (as_timestamp t) r \<longleftrightarrow>
   r \<in> set (instances st) \<and> is_live c (as_timestamp t) r"
  using online_after_sweep [of r t st] by (auto simp: is_live_def)

lemma latest_of_None [simp]: "latest_of rs = None \<longleftrightarrow> rs = []"
  by (cases rs) (simp_all split: option.split)

lemma latest_of_Some:
  "latest_of rs = Some r \<Longrightarrow> r \<in> set rs \<and> (\<forall>r' \<in> set rs. in_last_heartbeat_at r' \<le> in_last_heartbeat_at r)"
  by (induction rs arbitrary: r) (fastforce split: option.splits if_splits)+

lemma fst_latest:
  "fst (latest_online_instance c t st) =
     latest_of (filter (is_live c (as_timestamp t)) (instances (snd (mark_stale_instances t st))))"
  by (simp add: latest_online_instance_def split_beta is_live_def cong: filter_cong)

lemma fst_exact:
  "fst (exact_online_instance c i t st) =
     find (\<lambda>r. in_instance_id r = i \<and> is_live c (as_timestamp t) r) (instances (snd (mark_stale_instances t st)))"
  by (auto simp: exact_online_instance_def split_beta is_live_def intro!: arg_cong [where f = "\<lambda>p. find p _"])

lemma read_is_sweep:
  "snd (latest_online_instance c t st) = snd (mark_stale_instances t st)"
  "snd (exact_online_instance c i t st) = snd (mark_stale_instances t st)"
  "snd (online_agents t st) = snd (mark_stale_instances t st)"
  by (simp_all add: latest_online_instance_def exact_online_instance_def online_agents_def Let_def split_beta)

lemma latest_live:
  assumes "fst (latest_online_instance c t st) = Some r"
  shows "r \<in> set (instances st) \<and> is_live c (as_timestamp t) r"
proof -
  from assms have "r \<in> set (filter (is_live c (as_timestamp t)) (instances (snd (mark_stale_instances t st))))"
    by (metis fst_latest latest_of_Some)
  then show ?thesis using live_after_sweep [of r t st c] by simp
qed

lemma exact_live:
  assumes "fst (exact_online_instance c i t st) = Some r"
  shows "r \<in> set (instances st) \<and> in_instance_id r = i \<and> is_live c (as_timestamp t) r"
  using assms live_after_sweep [of r t st c] by (auto simp: fst_exact dest!: find_SomeD)

text \<open>Under the invariant a live instance belongs to an enrolled device.\<close>

lemma live_enrolled:
  assumes "store_inv st" and "r \<in> set (instances st)" and "is_live c cutoff r"
  shows "map_option dv_enrollment_state (get_device c st) = Some Enrolled"
  using assms by (auto simp: store_inv_def instance_ok_def is_live_def get_device_def)

section \<open>Generations\<close>

text \<open>The connection generation that a row of an instance carries, if there is a row.\<close>

definition generation_of :: "string \<Rightarrow> store \<Rightarrow> string option" where
  "generation_of i st = map_option in_connection_generation (tbl_get in_instance_id i (instances st))"

fun presents_generation :: "string \<Rightarrow> store_op \<Rightarrow> bool" where
  "presents_generation g (OpPresence c i g' e caps t) = (g' = g)"
| "presents_generation g op = False"

text \<open>The statements that leave the instances as they are.\<close>

lemma instances_unchanged:
  "instances (snd (issue_enrollment_token sha raw c p l n t st)) = instances st"
  "instances (snd (consume_enrollment_token_detailed sha raw c t st)) = instances st"
  "instances (snd (create_challenge sha i ch n t st)) = instances st"
  "instances (snd (consume_challenge sha i ch t st)) = instances st"
  "instances (snd (enroll_device c k l p t pf st)) = instances st"
  "instances (update_display_label c l t st) = instances st"
  "instances (snd (claim_request c cl k rid tool dg t st)) = instances st"
  "instances (complete_request c cl k s j t st) = instances st"
  "instances (snd (append_audit ev a rc pr co rq d t st)) = instances st"
  by (simp_all add: issue_enrollment_token_def consume_enrollment_token_detailed_def create_challenge_def
      consume_challenge_def enroll_device_def update_display_label_def claim_request_def
      complete_request_def append_audit_def Let_def split: option.split sum.split)

text \<open>
  How one operation changes the row of an instance: it stays, it goes, it changes columns other
  than the generation without lowering the epoch, or a presence replaces it.
\<close>

lemma row_after_step:
  assumes get: "tbl_get in_instance_id i (instances (store_step sha op st)) = Some r'"
    and ok: "tbl_ok in_instance_id (instances st)"
  shows "presents_generation (in_connection_generation r') op
     \<or> (\<exists>r. tbl_get in_instance_id i (instances st) = Some r
          \<and> in_connection_generation r' = in_connection_generation r
          \<and> in_context_epoch r \<le> in_context_epoch r')"
proof (cases op)
  case (OpRevoke c t)
  with get show ?thesis
    by (auto simp: revoke_device_def Let_def offline_upd.get_update set_offline_def split: if_splits)
next
  case (OpDelete c)
  have "\<exists>r. tbl_get in_instance_id i (instances st) = Some r \<and> r = r'"
    using get OpDelete ok tbl_get_in_set [OF ok]
    by (fastforce simp: delete_revoked_device_def split: option.splits if_splits dest: tbl_get_SomeD)
  then show ?thesis by auto
next
  case (OpPresence c i' g e caps t)
  show ?thesis
  proof (cases "fst (upsert_presence c i' g e caps t st) = Inr True")
    case False
    with get OpPresence show ?thesis by (auto simp: upsert_presence_refused)
  next
    case True
    with get OpPresence show ?thesis
      by (auto simp: upsert_presence_writes presence_upd.get_update presence_row_def set_presence_def
          split: if_splits option.splits)
  qed
next
  case (OpHeartbeat i' g e t)
  show ?thesis
  proof (cases "find (\<lambda>r. in_instance_id r = i' \<and> in_state r = Online) (instances st)")
    case None
    with get OpHeartbeat show ?thesis by (auto simp: heartbeat_def)
  next
    case (Some row)
    then have row: "row \<in> set (instances st)" "in_instance_id row = i'" by (auto dest: find_SomeD)
    then have "tbl_get in_instance_id i' (instances st) = Some row"
      using tbl_get_in_set [OF ok] by blast
    with Some get OpHeartbeat show ?thesis
      by (auto simp: heartbeat_def Let_def heartbeat_upd.get_update set_heartbeat_def
          split: if_splits dest: tbl_get_key)
  qed
next
  case (OpDisconnect i' g t)
  with get show ?thesis
    by (auto simp: disconnect_instance_def Let_def offline_upd.get_update set_offline_def
        split: if_splits option.splits)
next
  case (OpSweep t)
  with get show ?thesis
    by (auto simp: mark_stale_instances_def Let_def stale_upd.get_update set_stale_def split: if_splits)
qed (use get in \<open>auto simp: instances_unchanged\<close>)

definition generation_gone :: "string \<Rightarrow> string \<Rightarrow> store \<Rightarrow> bool" where
  "generation_gone i g st = (store_inv st \<and> generation_of i st \<noteq> Some g)"

interpretation superseded_machine:
  invariant_machine "store_step sha" "\<lambda>op. \<not> presents_generation g op" "generation_gone i g" for sha g i
proof unfold_locales
  fix op st
  assume op: "\<not> presents_generation g op" and gone: "generation_gone i g st"
  have "generation_of i (store_step sha op st) \<noteq> Some g"
  proof
    assume "generation_of i (store_step sha op st) = Some g"
    then obtain r' where "tbl_get in_instance_id i (instances (store_step sha op st)) = Some r'"
      and g: "in_connection_generation r' = g" by (auto simp: generation_of_def)
    from row_after_step [OF this(1)] gone op g show False
      by (auto simp: generation_gone_def generation_of_def store_inv_def keys_ok_def)
  qed
  with gone show "generation_gone i g (store_step sha op st)"
    by (simp add: generation_gone_def store_inv_step)
qed

definition epoch_floor :: "string \<Rightarrow> string \<Rightarrow> int \<Rightarrow> store \<Rightarrow> bool" where
  "epoch_floor i g e st =
     (store_inv st \<and> (case tbl_get in_instance_id i (instances st) of
        None \<Rightarrow> True | Some r \<Rightarrow> in_connection_generation r = g \<longrightarrow> e \<le> in_context_epoch r))"

interpretation epoch_machine:
  invariant_machine "store_step sha" "\<lambda>op. \<not> presents_generation g op" "epoch_floor i g e" for sha g i e
proof unfold_locales
  fix op st
  assume op: "\<not> presents_generation g op" and floor: "epoch_floor i g e st"
  then have ok: "tbl_ok in_instance_id (instances st)" by (simp add: epoch_floor_def store_inv_def keys_ok_def)
  have "in_connection_generation r' = g \<longrightarrow> e \<le> in_context_epoch r'"
    if "tbl_get in_instance_id i (instances (store_step sha op st)) = Some r'" for r'
    using row_after_step [OF that ok] floor op by (auto simp: epoch_floor_def)
  with floor show "epoch_floor i g e (store_step sha op st)"
    by (auto simp: epoch_floor_def store_inv_step split: option.split)
qed

section \<open>Properties\<close>

text \<open>
  C20. A routing read without a named instance returns the newest live instance of the device,
  never one whose heartbeat is at or before the cutoff, and reports the device offline exactly
  when it has no live instance.
\<close>

theorem latest_online_instance_spec:
  "case fst (latest_online_instance c t st) of
     None \<Rightarrow> \<forall>r \<in> set (instances st). \<not> is_live c (as_timestamp t) r
   | Some r \<Rightarrow> r \<in> set (instances st) \<and> is_live c (as_timestamp t) r
       \<and> (\<forall>r' \<in> set (instances st). is_live c (as_timestamp t) r' \<longrightarrow>
            in_last_heartbeat_at r' \<le> in_last_heartbeat_at r)"
proof (cases "fst (latest_online_instance c t st)")
  case None
  then have "filter (is_live c (as_timestamp t)) (instances (snd (mark_stale_instances t st))) = []"
    by (simp add: fst_latest)
  with None live_after_sweep [of _ t st c] show ?thesis by (auto simp: filter_empty_conv)
next
  case (Some r)
  let ?live = "filter (is_live c (as_timestamp t)) (instances (snd (mark_stale_instances t st)))"
  have "\<forall>r' \<in> set ?live. in_last_heartbeat_at r' \<le> in_last_heartbeat_at r"
    using Some latest_of_Some by (metis fst_latest)
  with Some latest_live [OF Some] live_after_sweep [of _ t st c] show ?thesis by auto
qed

theorem latest_online_instance_spec_witness:
  "fst (latest_online_instance ''dev-1'' (seconds 109) demo_enrolled) = Some (presence_row ''dev-1'' ''i-1'' ''gen-1'' 0 110)"
proof -
  have rows: "instances demo_enrolled = [presence_row ''dev-1'' ''i-1'' ''gen-1'' 0 110]" by code_simp
  have live: "is_live ''dev-1'' (as_timestamp (seconds 109)) (presence_row ''dev-1'' ''i-1'' ''gen-1'' 0 110)"
    by code_simp
  show ?thesis
    using latest_online_instance_spec [where c = "''dev-1''" and t = "seconds 109" and st = demo_enrolled] live
    by (auto simp: rows split: option.splits)
qed

text \<open>
  A routing read with a named instance returns a row exactly when the row of that instance
  belongs to the named connector, is online and has a heartbeat after the cutoff.
\<close>

theorem exact_online_instance_iff:
  assumes "store_inv st"
  shows "fst (exact_online_instance c i t st) = Some r \<longleftrightarrow>
     tbl_get in_instance_id i (instances st) = Some r \<and> is_live c (as_timestamp t) r"
proof
  assume "fst (exact_online_instance c i t st) = Some r"
  from exact_live [OF this] assms
  show "tbl_get in_instance_id i (instances st) = Some r \<and> is_live c (as_timestamp t) r"
    using tbl_get_in_set [of in_instance_id] by (auto simp: store_inv_def keys_ok_def)
next
  let ?rows = "instances (snd (mark_stale_instances t st))"
  assume r: "tbl_get in_instance_id i (instances st) = Some r \<and> is_live c (as_timestamp t) r"
  then have i: "in_instance_id r = i" and "r \<in> set (instances st)" by (auto dest: tbl_get_SomeD)
  with r live_after_sweep [of r t st c] have mem: "r \<in> set ?rows" by blast
  have "tbl_ok in_instance_id ?rows"
    using inv_sweep [OF assms] by (simp add: store_inv_def keys_ok_def)
  then have only: "x = r" if "x \<in> set ?rows" "in_instance_id x = i" for x
    using tbl_get_in_set mem i that by (metis option.inject)
  have "find (\<lambda>r. in_instance_id r = i \<and> is_live c (as_timestamp t) r) ?rows \<noteq> None"
    using mem r i by (auto simp: find_None_iff)
  then show "fst (exact_online_instance c i t st) = Some r"
    using only by (auto simp: fst_exact dest: find_SomeD)
qed

theorem exact_online_instance_iff_witness:
  "fst (exact_online_instance ''dev-1'' ''i-1'' (seconds 109) demo_enrolled)
     = Some (presence_row ''dev-1'' ''i-1'' ''gen-1'' 0 110)"
proof -
  have "store_inv demo_enrolled"
    unfolding demo_enrolled_def by (rule store_machine.run_inv) simp_all
  moreover have "tbl_get in_instance_id ''i-1'' (instances demo_enrolled)
      = Some (presence_row ''dev-1'' ''i-1'' ''gen-1'' 0 110)
    \<and> is_live ''dev-1'' (as_timestamp (seconds 109)) (presence_row ''dev-1'' ''i-1'' ''gen-1'' 0 110)"
    by code_simp
  ultimately show ?thesis using exact_online_instance_iff by blast
qed

text \<open>
  The sweep closes exactly the online rows whose last heartbeat is at or before the cutoff,
  records that heartbeat as the disconnection time, counts them, and leaves nothing for a second
  sweep with the same cutoff.
\<close>

theorem mark_stale_spec:
  assumes "store_inv st"
  shows "mark_stale_instances t st =
      (length (filter (is_overdue (as_timestamp t)) (instances st)),
       st\<lparr>instances := map (\<lambda>r. if is_overdue (as_timestamp t) r
            then r\<lparr>in_state := Offline, in_disconnected_at := Some (in_last_heartbeat_at r)\<rparr> else r)
          (instances st)\<rparr>)
    \<and> mark_stale_instances t (snd (mark_stale_instances t st)) = (0, snd (mark_stale_instances t st))"
proof -
  have none: "in_disconnected_at r = None" if "r \<in> set (instances st)" "is_overdue s r" for r s
  proof -
    have "instance_ok (devices st) r" using assms that by (simp add: store_inv_def)
    with that show ?thesis by (simp add: instance_ok_def is_overdue_def)
  qed
  have off: "\<not> is_overdue s (set_stale r)" for s r by (simp add: is_overdue_def)
  have twice: "tbl_update (is_overdue s) set_stale (tbl_update (is_overdue s) set_stale rows)
      = tbl_update (is_overdue s) set_stale rows" for s rows
    by (simp add: tbl_update_def off)
  have "filter (is_overdue s) (tbl_update (is_overdue s) set_stale rows) = []" for s rows
    using off by (auto simp: filter_empty_conv set_tbl_update)
  with twice have second: "mark_stale_instances t (snd (mark_stale_instances t st)) = (0, snd (mark_stale_instances t st))"
    by (simp add: mark_stale_instances_def Let_def tbl_count_def)
  have "tbl_update (is_overdue s) set_stale (instances st) = map (\<lambda>r. if is_overdue s r
      then r\<lparr>in_state := Offline, in_disconnected_at := Some (in_last_heartbeat_at r)\<rparr> else r) (instances st)" for s
    unfolding tbl_update_def by (rule map_cong) (simp_all add: set_stale_def none)
  with second show ?thesis
    by (simp add: mark_stale_instances_def Let_def tbl_count_def)
qed

theorem mark_stale_spec_witness:
  "mark_stale_instances (seconds 111) demo_enrolled =
     (1, demo_enrolled\<lparr>instances :=
          [(presence_row ''dev-1'' ''i-1'' ''gen-1'' 0 110)\<lparr>in_state := Offline, in_disconnected_at := Some 110\<rparr>]\<rparr>)"
proof -
  have inv: "store_inv demo_enrolled"
    unfolding demo_enrolled_def by (rule store_machine.run_inv) simp_all
  have rows: "instances demo_enrolled = [presence_row ''dev-1'' ''i-1'' ''gen-1'' 0 110]" by code_simp
  show ?thesis
    using mark_stale_spec [OF inv, of "seconds 111"]
    by (simp add: rows is_overdue_def presence_row_def as_timestamp_def seconds_def)
qed

text \<open>
  C19. A superseded connection is powerless: once another generation has presented itself on an
  instance, and as long as the old generation is not presented again, whatever else the store
  does the old connection's heartbeats are refused and its disconnect does not touch the row.
\<close>

theorem superseded_generation_powerless:
  assumes "store_inv st" and "fst (upsert_presence c i g' e caps t st) = Inr True" and "g' \<noteq> g"
    and "\<forall>op \<in> set ops. \<not> presents_generation g op"
    and st': "st' = run_steps (store_step sha) ops (snd (upsert_presence c i g' e caps t st))"
  shows "heartbeat i g e' now st' = (Inr False, st') \<and> disconnect_instance i g now st' = (False, st')"
proof -
  have "generation_of i (snd (upsert_presence c i g' e caps t st)) = Some g'"
  proof (cases "tbl_get in_instance_id i (instances st)")
    case None
    with assms(2) show ?thesis
      by (simp add: upsert_presence_writes generation_of_def presence_row_def)
  next
    case (Some r)
    moreover from this have "in_instance_id r = i" by (rule tbl_get_key)
    ultimately show ?thesis using assms(2)
      by (simp add: upsert_presence_writes generation_of_def presence_upd.get_update set_presence_def)
  qed
  with assms have "generation_gone i g (snd (upsert_presence c i g' e caps t st))"
    by (simp add: generation_gone_def inv_step)
  then have gone: "generation_gone i g st'"
    unfolding st' using assms(4) by (intro superseded_machine.run_inv) auto
  then have ok: "tbl_ok in_instance_id (instances st')" and gen: "generation_of i st' \<noteq> Some g"
    by (simp_all add: generation_gone_def store_inv_def keys_ok_def)
  have "in_connection_generation r \<noteq> g"
    if "find (\<lambda>r. in_instance_id r = i \<and> in_state r = Online) (instances st') = Some r" for r
    using find_SomeD [OF that] gen tbl_get_in_set [OF ok] by (auto simp: generation_of_def)
  then show ?thesis using gen
    by (auto simp: heartbeat_def disconnect_instance_def Let_def generation_of_def split: option.split)
qed

theorem superseded_generation_powerless_witness:
  "heartbeat ''i-1'' ''gen-1'' 5 (seconds 140)
     (run_steps (store_step demo_sha) [OpHeartbeat ''i-1'' ''gen-2'' 2 (seconds 130)]
       (snd (upsert_presence ''dev-1'' ''i-1'' ''gen-2'' 1 [] (seconds 120) demo_enrolled)))
   = (Inr False, run_steps (store_step demo_sha) [OpHeartbeat ''i-1'' ''gen-2'' 2 (seconds 130)]
       (snd (upsert_presence ''dev-1'' ''i-1'' ''gen-2'' 1 [] (seconds 120) demo_enrolled)))"
proof -
  have inv: "store_inv demo_enrolled"
    unfolding demo_enrolled_def by (rule store_machine.run_inv) simp_all
  have acc: "fst (upsert_presence ''dev-1'' ''i-1'' ''gen-2'' 1 [] (seconds 120) demo_enrolled) = Inr True"
    by code_simp
  have gen: "''gen-2'' \<noteq> ''gen-1''" by simp
  have ops: "\<forall>op \<in> set [OpHeartbeat ''i-1'' ''gen-2'' 2 (seconds 130)]. \<not> presents_generation ''gen-1'' op"
    by simp
  show ?thesis
    by (rule conjunct1 [OF superseded_generation_powerless [OF inv acc gen ops refl]])
qed

text \<open>
  Within one connection the context epoch never goes back: after any operations that do not
  present the generation anew, the row it still holds carries an epoch at least as high.
\<close>

theorem context_epoch_monotone:
  assumes "store_inv st" and "tbl_get in_instance_id i (instances st) = Some r"
    and "\<forall>op \<in> set ops. \<not> presents_generation (in_connection_generation r) op"
    and "tbl_get in_instance_id i (instances (run_steps (store_step sha) ops st)) = Some r'"
    and "in_connection_generation r' = in_connection_generation r"
  shows "in_context_epoch r \<le> in_context_epoch r'"
proof -
  have "epoch_floor i (in_connection_generation r) (in_context_epoch r) (run_steps (store_step sha) ops st)"
    using assms(1-3) by (intro epoch_machine.run_inv) (auto simp: epoch_floor_def)
  with assms(4,5) show ?thesis by (simp add: epoch_floor_def)
qed

theorem context_epoch_monotone_witness:
  "in_context_epoch (presence_row ''dev-1'' ''i-1'' ''gen-1'' 0 110)
     \<le> in_context_epoch ((presence_row ''dev-1'' ''i-1'' ''gen-1'' 7 110)\<lparr>in_last_heartbeat_at := 120\<rparr>)"
proof (rule context_epoch_monotone [where i = "''i-1''" and st = demo_enrolled and sha = demo_sha
      and ops = "[OpHeartbeat ''i-1'' ''gen-1'' 7 (seconds 120), OpHeartbeat ''i-1'' ''gen-1'' 3 (seconds 125)]"])
  show "store_inv demo_enrolled"
    unfolding demo_enrolled_def by (rule store_machine.run_inv) simp_all
  show "tbl_get in_instance_id ''i-1'' (instances demo_enrolled) = Some (presence_row ''dev-1'' ''i-1'' ''gen-1'' 0 110)"
    by code_simp
  show "tbl_get in_instance_id ''i-1'' (instances (run_steps (store_step demo_sha)
      [OpHeartbeat ''i-1'' ''gen-1'' 7 (seconds 120), OpHeartbeat ''i-1'' ''gen-1'' 3 (seconds 125)] demo_enrolled))
    = Some ((presence_row ''dev-1'' ''i-1'' ''gen-1'' 7 110)\<lparr>in_last_heartbeat_at := 120\<rparr>)"
    by code_simp
qed (simp_all add: presence_row_def)

end
