(* ===== verification/OneShot.thy ===== *)
theory OneShot
  imports StoreInv
begin

text \<open>
  Enrollment tokens and relay challenges are spent at most once. Both tables interpret the
  \<open>one_shot\<close> contract of the prelude on the store's own step function, so the bound holds over
  every sequence of store operations, interleaved in any way.
\<close>

section \<open>Tokens\<close>

definition token_spent :: "(bytes \<Rightarrow> string) \<Rightarrow> string \<Rightarrow> store \<Rightarrow> bool" where
  "token_spent sha raw st =
     (case tbl_get tk_token_hash (hash_opaque sha raw) (tokens st) of
        None \<Rightarrow> False | Some r \<Rightarrow> tk_consumed_at r \<noteq> None)"

text \<open>A call that consumes the token \<open>raw\<close>, or any text with its hash, and is accepted.\<close>

fun token_accepted :: "(bytes \<Rightarrow> string) \<Rightarrow> string \<Rightarrow> store_op \<Rightarrow> store \<Rightarrow> bool" where
  "token_accepted sha raw (OpConsumeToken raw' c t) st =
     (hash_opaque sha raw' = hash_opaque sha raw
      \<and> fst (fst (consume_enrollment_token_detailed sha raw' c t st)) = ''accepted'')"
| "token_accepted sha raw op st = False"

lemma tokens_unchanged:
  "tokens (snd (create_challenge sha i ch n t st)) = tokens st"
  "tokens (snd (consume_challenge sha i ch t st)) = tokens st"
  "tokens (snd (enroll_device c k l p t pf st)) = tokens st"
  "tokens (update_display_label c l t st) = tokens st"
  "tokens (snd (revoke_device c t st)) = tokens st"
  "tokens (snd (delete_revoked_device c st)) = tokens st"
  "tokens (snd (upsert_presence c i g e caps t st)) = tokens st"
  "tokens (snd (heartbeat i g e t st)) = tokens st"
  "tokens (snd (disconnect_instance i g t st)) = tokens st"
  "tokens (snd (mark_stale_instances t st)) = tokens st"
  "tokens (snd (claim_request c cl k rid tool dg t st)) = tokens st"
  "tokens (complete_request c cl k s j t st) = tokens st"
  "tokens (snd (append_audit ev a rc pr co rq d t st)) = tokens st"
  by (simp_all add: create_challenge_def consume_challenge_def enroll_device_def update_display_label_def
      revoke_device_def delete_revoked_device_def upsert_presence_def heartbeat_def disconnect_instance_def
      mark_stale_instances_def claim_request_def complete_request_def append_audit_def Let_def
      split: option.split sum.split)

text \<open>The five answers, on the row the hash finds; only the last one writes.\<close>

lemma consume_token_cases:
  assumes "tbl_ok tk_token_hash (tokens st)"
  shows "consume_enrollment_token_detailed sha raw c t st =
     (case tbl_get tk_token_hash (hash_opaque sha raw) (tokens st) of
        None \<Rightarrow> ((''invalid'', None), st)
      | Some row \<Rightarrow>
          if tk_connector_id row \<noteq> c then ((''connector_mismatch'', None), st)
          else if tk_consumed_at row \<noteq> None then ((''consumed'', None), st)
          else if tk_expires_at row \<le> as_timestamp t then ((''expired'', None), st)
          else ((''accepted'', Some row), st\<lparr>tokens := tbl_update
                 (\<lambda>r. tk_token_hash r = hash_opaque sha raw \<and> tk_consumed_at r = None)
                 (set_token_consumed (as_timestamp t)) (tokens st)\<rparr>))"
proof (cases "tbl_get tk_token_hash (hash_opaque sha raw) (tokens st)")
  case None
  then show ?thesis by (simp add: consume_enrollment_token_detailed_def)
next
  case (Some row)
  then have "tk_token_hash row = hash_opaque sha raw" by (rule tbl_get_key)
  then have "tk_consumed_at row = None \<Longrightarrow>
      tbl_count (\<lambda>r. tk_token_hash r = hash_opaque sha raw \<and> tk_consumed_at r = None) (tokens st) = 1"
    by (intro tbl_count_key [OF assms Some]) simp_all
  with Some show ?thesis by (simp add: consume_enrollment_token_detailed_def Let_def)
qed

lemma token_row_kept:
  assumes "tbl_get tk_token_hash h (tokens st) = Some r"
  shows "\<exists>r'. tbl_get tk_token_hash h (tokens (store_step sha op st)) = Some r'
     \<and> (tk_consumed_at r \<noteq> None \<longrightarrow> tk_consumed_at r' \<noteq> None)
     \<and> (\<not> (\<exists>raw c t. op = OpConsumeToken raw c t \<and> hash_opaque sha raw = h) \<longrightarrow> r' = r)"
proof (cases op)
  case (OpIssueToken raw c p l n t)
  with assms show ?thesis by (simp add: issue_enrollment_token_def Let_def)
next
  case (OpConsumeToken raw c t)
  have "tk_token_hash r = h" using assms by (rule tbl_get_key)
  with assms OpConsumeToken show ?thesis
    by (simp add: consume_enrollment_token_detailed_def Let_def token_upd.get_update set_token_consumed_def
        split: option.split)
qed (use assms in \<open>simp_all add: tokens_unchanged\<close>)

interpretation token_shot: one_shot "store_step sha" "\<lambda>_. True" "token_spent sha raw" "token_accepted sha raw"
  for sha raw
proof unfold_locales
  fix op st
  show "token_spent sha raw (store_step sha op st)" if spent: "token_spent sha raw st"
  proof -
    obtain r where r: "tbl_get tk_token_hash (hash_opaque sha raw) (tokens st) = Some r"
      and "tk_consumed_at r \<noteq> None"
      using spent by (auto simp: token_spent_def split: option.splits)
    with token_row_kept [OF r, of sha op] show ?thesis by (auto simp: token_spent_def)
  qed
  show "token_spent sha raw (store_step sha op st)" if hit: "token_accepted sha raw op st"
  proof -
    obtain raw' c t where op: "op = OpConsumeToken raw' c t" and h: "hash_opaque sha raw' = hash_opaque sha raw"
      and acc: "fst (fst (consume_enrollment_token_detailed sha raw' c t st)) = ''accepted''"
      using hit by (cases op) auto
    then obtain r where r: "tbl_get tk_token_hash (hash_opaque sha raw) (tokens st) = Some r"
      by (auto simp: consume_enrollment_token_detailed_def Let_def split: option.splits)
    then have "tk_token_hash r = hash_opaque sha raw" by (rule tbl_get_key)
    with acc r h op show ?thesis
      by (simp add: token_spent_def consume_enrollment_token_detailed_def Let_def token_upd.get_update
          set_token_consumed_def split: if_splits)
  qed
  show "\<not> token_accepted sha raw op st" if "token_spent sha raw st"
    using that by (cases op)
      (auto simp: token_spent_def consume_enrollment_token_detailed_def Let_def split: option.splits if_splits)
qed

section \<open>Challenges\<close>

definition challenge_spent :: "string \<Rightarrow> store \<Rightarrow> bool" where
  "challenge_spent i st =
     (case tbl_get ch_challenge_id i (challenges st) of
        None \<Rightarrow> False | Some r \<Rightarrow> ch_consumed_at r \<noteq> None)"

fun challenge_accepted :: "(bytes \<Rightarrow> string) \<Rightarrow> string \<Rightarrow> store_op \<Rightarrow> store \<Rightarrow> bool" where
  "challenge_accepted sha i (OpConsumeChallenge i' ch t) st = (i' = i \<and> fst (consume_challenge sha i' ch t st))"
| "challenge_accepted sha i op st = False"

lemma challenges_unchanged:
  "challenges (snd (issue_enrollment_token sha raw c p l n t st)) = challenges st"
  "challenges (snd (consume_enrollment_token_detailed sha raw c t st)) = challenges st"
  "challenges (snd (enroll_device c k l p t pf st)) = challenges st"
  "challenges (update_display_label c l t st) = challenges st"
  "challenges (snd (revoke_device c t st)) = challenges st"
  "challenges (snd (delete_revoked_device c st)) = challenges st"
  "challenges (snd (upsert_presence c i g e caps t st)) = challenges st"
  "challenges (snd (heartbeat i g e t st)) = challenges st"
  "challenges (snd (disconnect_instance i g t st)) = challenges st"
  "challenges (snd (mark_stale_instances t st)) = challenges st"
  "challenges (snd (claim_request c cl k rid tool dg t st)) = challenges st"
  "challenges (complete_request c cl k s j t st) = challenges st"
  "challenges (snd (append_audit ev a rc pr co rq d t st)) = challenges st"
  by (simp_all add: issue_enrollment_token_def consume_enrollment_token_detailed_def enroll_device_def
      update_display_label_def revoke_device_def delete_revoked_device_def upsert_presence_def heartbeat_def
      disconnect_instance_def mark_stale_instances_def claim_request_def complete_request_def append_audit_def
      Let_def split: option.split sum.split)

lemma challenge_spent_step:
  assumes "challenge_spent i st"
  shows "challenge_spent i (store_step sha op st)"
proof -
  obtain r where r: "tbl_get ch_challenge_id i (challenges st) = Some r" "ch_consumed_at r \<noteq> None"
    using assms by (auto simp: challenge_spent_def split: option.splits)
  show ?thesis
  proof (cases op)
    case (OpCreateChallenge i' ch n t)
    with r show ?thesis by (simp add: challenge_spent_def create_challenge_def Let_def)
  next
    case (OpConsumeChallenge i' ch t)
    with r show ?thesis
      by (auto simp: challenge_spent_def consume_challenge_def Let_def challenge_upd.get_update split: option.split)
  qed (use r in \<open>simp_all add: challenge_spent_def challenges_unchanged\<close>)
qed

interpretation challenge_shot: one_shot "store_step sha" "\<lambda>_. True" "challenge_spent i" "challenge_accepted sha i"
  for sha i
proof unfold_locales
  fix op st
  show "challenge_spent i (store_step sha op st)" if "challenge_spent i st"
    using that by (rule challenge_spent_step)
  show "challenge_spent i (store_step sha op st)" if hit: "challenge_accepted sha i op st"
  proof -
    obtain ch t where op: "op = OpConsumeChallenge i ch t" and acc: "fst (consume_challenge sha i ch t st)"
      using hit by (cases op) auto
    then obtain r where r: "tbl_get ch_challenge_id i (challenges st) = Some r"
      by (auto simp: consume_challenge_def Let_def split: option.splits)
    then have "ch_challenge_id r = i" by (rule tbl_get_key)
    with acc r op show ?thesis
      by (simp add: challenge_spent_def consume_challenge_def Let_def challenge_upd.get_update
          set_challenge_consumed_def split: if_splits)
  qed
  show "\<not> challenge_accepted sha i op st" if "challenge_spent i st"
    using that by (cases op) (auto simp: challenge_spent_def consume_challenge_def Let_def split: option.splits)
qed

section \<open>Properties\<close>

text \<open>
  C16. An enrollment token enrols at most once: in every run of the store, from every state, at
  most one call that presents it is accepted.
\<close>

theorem token_single_use: "count_steps (store_step sha) (token_accepted sha raw) ops st \<le> 1"
  by (rule token_shot.at_most_once) simp

text \<open>
  A relay challenge is answered at most once: in every run of the store, from every state,
  at most one call that consumes it succeeds.
\<close>

theorem challenge_single_use: "count_steps (store_step sha) (challenge_accepted sha i) ops st \<le> 1"
  by (rule challenge_shot.at_most_once) simp

text \<open>
  C21. An issued token is accepted with the profile and the label it was issued for: until it is
  presented, and whatever else the store does, the answer to the first presentation depends on
  the connector and on the expiry alone, the second that names the expiry excluded.
\<close>

theorem issued_token_answer:
  assumes "store_inv st" and "fst (issue_enrollment_token sha raw c profile label n t st) = Inr raw"
    and "\<forall>op \<in> set ops. \<forall>raw' c' t'. op = OpConsumeToken raw' c' t' \<longrightarrow> hash_opaque sha raw' \<noteq> hash_opaque sha raw"
    and st': "st' = run_steps (store_step sha) ops (snd (issue_enrollment_token sha raw c profile label n t st))"
  shows "fst (consume_enrollment_token_detailed sha raw c' now st') =
     (if c' \<noteq> c then (''connector_mismatch'', None)
      else if as_timestamp (t + seconds n) \<le> as_timestamp now then (''expired'', None)
      else (''accepted'', Some \<lparr>tk_token_hash = hash_opaque sha raw, tk_connector_id = c,
              tk_capability_profile = profile, tk_display_label = label,
              tk_expires_at = as_timestamp (t + seconds n), tk_consumed_at = None,
              tk_created_at = as_timestamp t\<rparr>))"
proof -
  let ?row = "\<lparr>tk_token_hash = hash_opaque sha raw, tk_connector_id = c, tk_capability_profile = profile,
      tk_display_label = label, tk_expires_at = as_timestamp (t + seconds n), tk_consumed_at = None,
      tk_created_at = as_timestamp t\<rparr>"
  let ?has = "\<lambda>s. tbl_get tk_token_hash (hash_opaque sha raw) (tokens s) = Some ?row"
  have issued: "?has (snd (issue_enrollment_token sha raw c profile label n t st))"
    using assms(2) by (simp add: issue_enrollment_token_def Let_def split: if_splits)
  have keep: "?has (run_steps (store_step sha) ops s)" if "?has s" for s
    using assms(3) that
  proof (induction ops arbitrary: s)
    case (Cons op ops)
    from token_row_kept [OF Cons.prems(2), of sha op] Cons.prems(1) have "?has (store_step sha op s)" by auto
    with Cons show ?case by simp
  qed simp
  have "store_inv st'"
    unfolding st' using assms(1) by (intro store_machine.run_inv) (simp_all add: inv_step)
  then have "tbl_ok tk_token_hash (tokens st')" by (simp add: store_inv_def keys_ok_def)
  moreover have "?has st'" unfolding st' by (rule keep [OF issued])
  ultimately show ?thesis by (simp add: consume_token_cases)
qed

theorem issued_token_answer_witness:
  "fst (fst (consume_enrollment_token_detailed demo_sha ''tok'' ''dev-2'' (seconds 699)
      (snd (issue_enrollment_token demo_sha ''tok'' ''dev-2'' ''read_only'' ''Desk'' 600 (seconds 100) demo_enrolled))))
     = ''accepted''"
proof -
  have inv: "store_inv demo_enrolled"
    unfolding demo_enrolled_def by (rule store_machine.run_inv) simp_all
  have issued: "fst (issue_enrollment_token demo_sha ''tok'' ''dev-2'' ''read_only'' ''Desk'' 600 (seconds 100)
      demo_enrolled) = Inr ''tok''"
    by code_simp
  have "fst (consume_enrollment_token_detailed demo_sha ''tok'' ''dev-2'' (seconds 699)
      (run_steps (store_step demo_sha) []
        (snd (issue_enrollment_token demo_sha ''tok'' ''dev-2'' ''read_only'' ''Desk'' 600 (seconds 100) demo_enrolled))))
    = (''accepted'', Some \<lparr>tk_token_hash = hash_opaque demo_sha ''tok'', tk_connector_id = ''dev-2'',
         tk_capability_profile = ''read_only'', tk_display_label = ''Desk'', tk_expires_at = 700,
         tk_consumed_at = None, tk_created_at = 100\<rparr>)"
    using issued_token_answer [OF inv issued _ refl, of "[]" "''dev-2''" "seconds 699"]
    by (simp add: as_timestamp_def seconds_def)
  then show ?thesis by simp
qed

end
