(* ===== verification/Errors.thy ===== *)
theory Errors
  imports Protocol
begin

text \<open>
  \<open>remote_agent_connector/errors.py\<close>: the closed vocabulary of relay error codes, the table
  of their fixed texts, the mapping from internal codes into it and the diagnostic frame. The
  contract identifier and every text are constants of the program; nothing received from a
  device enters a frame.
\<close>

section \<open>Codes\<close>

datatype relay_error_code =
    RELAY_TLS_FAILED
  | RELAY_UPGRADE_FAILED
  | RELAY_CHALLENGE_TIMEOUT
  | RELAY_CHALLENGE_INVALID
  | ENROLLMENT_TOKEN_INVALID
  | ENROLLMENT_TOKEN_EXPIRED
  | ENROLLMENT_TOKEN_CONSUMED
  | CONNECTOR_ID_MISMATCH
  | ENROLLMENT_SIGNATURE_INVALID
  | ENROLLMENT_CHALLENGE_INVALID
  | DEVICE_ALREADY_ENROLLED
  | DEVICE_REVOKED
  | RELAY_AUTHENTICATION_FAILED
  | RELAY_READY_FAILED
  | RELAY_PROTOCOL_ERROR

definition RELAY_ERROR_CONTRACT :: string where
  "RELAY_ERROR_CONTRACT = ''business-mcp-remote-agent-relay-error-v1''"

fun code_value :: "relay_error_code \<Rightarrow> string" where
  "code_value RELAY_TLS_FAILED = ''relay_tls_failed''"
| "code_value RELAY_UPGRADE_FAILED = ''relay_upgrade_failed''"
| "code_value RELAY_CHALLENGE_TIMEOUT = ''relay_challenge_timeout''"
| "code_value RELAY_CHALLENGE_INVALID = ''relay_challenge_invalid''"
| "code_value ENROLLMENT_TOKEN_INVALID = ''enrollment_token_invalid''"
| "code_value ENROLLMENT_TOKEN_EXPIRED = ''enrollment_token_expired''"
| "code_value ENROLLMENT_TOKEN_CONSUMED = ''enrollment_token_consumed''"
| "code_value CONNECTOR_ID_MISMATCH = ''connector_id_mismatch''"
| "code_value ENROLLMENT_SIGNATURE_INVALID = ''enrollment_signature_invalid''"
| "code_value ENROLLMENT_CHALLENGE_INVALID = ''enrollment_challenge_invalid''"
| "code_value DEVICE_ALREADY_ENROLLED = ''device_already_enrolled''"
| "code_value DEVICE_REVOKED = ''device_revoked''"
| "code_value RELAY_AUTHENTICATION_FAILED = ''relay_authentication_failed''"
| "code_value RELAY_READY_FAILED = ''relay_ready_failed''"
| "code_value RELAY_PROTOCOL_ERROR = ''relay_protocol_error''"

record diagnostic_spec =
  spec_stage :: string
  spec_retryable :: bool
  spec_message :: string
  spec_transport_only :: bool

abbreviation spec :: "string \<Rightarrow> bool \<Rightarrow> string \<Rightarrow> diagnostic_spec" where
  "spec s r m \<equiv> \<lparr>spec_stage = s, spec_retryable = r, spec_message = m, spec_transport_only = False\<rparr>"

definition relay_diagnostics :: "(relay_error_code \<times> diagnostic_spec) list" where
  "relay_diagnostics =
    [(RELAY_TLS_FAILED, (spec ''tls'' True ''Relay TLS validation failed.'')\<lparr>spec_transport_only := True\<rparr>),
     (RELAY_UPGRADE_FAILED, spec ''upgrade'' True ''Relay WebSocket upgrade failed.''),
     (RELAY_CHALLENGE_TIMEOUT, spec ''challenge'' True ''Relay challenge timed out.''),
     (RELAY_CHALLENGE_INVALID, spec ''challenge'' False ''Relay challenge is invalid.''),
     (ENROLLMENT_TOKEN_INVALID, spec ''enrollment'' False ''Enrollment token is invalid.''),
     (ENROLLMENT_TOKEN_EXPIRED, spec ''enrollment'' False ''Enrollment token has expired.''),
     (ENROLLMENT_TOKEN_CONSUMED, spec ''enrollment'' False ''Enrollment token has already been consumed.''),
     (CONNECTOR_ID_MISMATCH, spec ''enrollment'' False ''Connector ID does not match the enrollment.''),
     (ENROLLMENT_SIGNATURE_INVALID, spec ''enrollment'' False ''Enrollment signature is invalid.''),
     (ENROLLMENT_CHALLENGE_INVALID, spec ''enrollment'' False ''Enrollment challenge is invalid.''),
     (DEVICE_ALREADY_ENROLLED, spec ''enrollment'' False ''This connector is already enrolled.''),
     (DEVICE_REVOKED, spec ''authentication'' False ''This device has been revoked.''),
     (RELAY_AUTHENTICATION_FAILED, spec ''authentication'' False ''Relay authentication failed.''),
     (RELAY_READY_FAILED, spec ''ready'' True ''Relay session could not become ready.''),
     (RELAY_PROTOCOL_ERROR, spec ''session'' False ''Relay message is invalid.'')]"

definition RELAY_ERROR_CODES :: "string list" where
  "RELAY_ERROR_CODES = map (code_value \<circ> fst) relay_diagnostics"

text \<open>\<open>RelayErrorCode(raw)\<close>: the member with that value.\<close>

definition code_of_value :: "string \<Rightarrow> relay_error_code option" where
  "code_of_value raw = find (\<lambda>c. code_value c = raw) (map fst relay_diagnostics)"

definition internal_error_map :: "(string \<times> relay_error_code) list" where
  "internal_error_map =
     [(''invalid_challenge'', RELAY_CHALLENGE_INVALID),
      (''invalid_signature'', RELAY_AUTHENTICATION_FAILED),
      (''capabilities_not_granted'', RELAY_READY_FAILED)]"

section \<open>Mapping and frame\<close>

text \<open>The argument is a code or an arbitrary text; a stage may be absent.\<close>

definition canonical_relay_code ::
    "relay_error_code + string \<Rightarrow> string option \<Rightarrow> relay_error_code" where
  "canonical_relay_code err stage =
     (let canonical = (case err of
            Inl c \<Rightarrow> c
          | Inr raw \<Rightarrow>
              (case map_of internal_error_map raw of
                 Some c \<Rightarrow> c
               | None \<Rightarrow>
                   (case code_of_value raw of
                      Some c \<Rightarrow> c
                    | None \<Rightarrow> if stage = Some ''ready'' then RELAY_READY_FAILED
                              else RELAY_PROTOCOL_ERROR)))
      in if canonical = RELAY_CHALLENGE_INVALID
         then (if stage = Some ''enrollment'' then ENROLLMENT_CHALLENGE_INVALID else canonical)
         else if canonical = RELAY_AUTHENTICATION_FAILED
         then (if stage = Some ''enrollment'' then ENROLLMENT_SIGNATURE_INVALID else canonical)
         else canonical)"

record diagnostic =
  d_code :: string
  d_stage :: string
  d_retryable :: bool
  d_message :: string

definition relay_diagnostic :: "relay_error_code + string \<Rightarrow> string option \<Rightarrow> diagnostic" where
  "relay_diagnostic err stage =
     (let canonical = canonical_relay_code err stage;
          sp = the (map_of relay_diagnostics canonical);
          payload = \<lparr>d_code = code_value canonical, d_stage = spec_stage sp,
                     d_retryable = spec_retryable sp, d_message = spec_message sp\<rparr>
      in case stage of
           None \<Rightarrow> payload
         | Some st \<Rightarrow>
             if canonical \<in> {RELAY_AUTHENTICATION_FAILED, RELAY_PROTOCOL_ERROR}
                \<and> st \<in> {''authentication'', ''session'', ''enrollment''}
             then payload\<lparr>d_stage := st\<rparr>
             else if canonical = DEVICE_REVOKED \<and> st \<in> {''enrollment'', ''authentication''}
             then payload\<lparr>d_stage := st\<rparr>
             else payload)"

text \<open>The frame sent to the device.\<close>

definition diagnostic_frame :: "diagnostic \<Rightarrow> json" where
  "diagnostic_frame d =
     JObj [(''v'', JInt 1), (''type'', JStr ''error''), (''error_contract'', JStr RELAY_ERROR_CONTRACT),
           (''code'', JStr (d_code d)), (''stage'', JStr (d_stage d)),
           (''retryable'', JBool (d_retryable d)), (''message'', JStr (d_message d))]"

definition relay_error_contract :: json where
  "relay_error_contract =
     JObj [(''contract'', JStr RELAY_ERROR_CONTRACT), (''protocol_version'', JInt 1),
           (''codes'', JList (map (\<lambda>(c, sp).
              JObj ([(''code'', JStr (code_value c)), (''stage'', JStr (spec_stage sp)),
                     (''retryable'', JBool (spec_retryable sp)), (''message'', JStr (spec_message sp))]
                    @ (if spec_transport_only sp then [(''transport_only'', JBool True)] else [])))
              relay_diagnostics))]"

text \<open>The stages the contract document allows.\<close>

definition contract_stages :: "string list" where
  "contract_stages =
     [''tls'', ''upgrade'', ''challenge'', ''enrollment'', ''authentication'', ''ready'', ''session'']"

section \<open>Lemmas\<close>

text \<open>The table has an entry for every code, so the lookup in \<open>relay_diagnostic\<close> never fails.\<close>

lemma relay_diagnostics_total: "\<exists>sp. map_of relay_diagnostics c = Some sp"
  by (cases c) (simp_all add: relay_diagnostics_def)

lemma code_value_in_vocabulary: "code_value c \<in> set RELAY_ERROR_CODES"
  by (cases c) (simp_all add: RELAY_ERROR_CODES_def relay_diagnostics_def)

lemma code_value_inj: "code_value c = code_value d \<longleftrightarrow> c = d"
  by (cases c; cases d; simp)

lemma code_of_value_SomeD: "code_of_value raw = Some c \<Longrightarrow> code_value c = raw"
  by (auto simp: code_of_value_def find_Some_iff)

lemma code_of_value_value: "code_of_value (code_value c) = Some c"
  by (cases c; simp add: code_of_value_def relay_diagnostics_def)

lemma d_code_relay_diagnostic:
  "d_code (relay_diagnostic err stage) = code_value (canonical_relay_code err stage)"
  by (simp add: relay_diagnostic_def Let_def split: option.split)

lemma diagnostics_stages: "map_of relay_diagnostics c = Some sp \<Longrightarrow> spec_stage sp \<in> set contract_stages"
  by (cases c) (auto simp: relay_diagnostics_def contract_stages_def)

text \<open>The table entry of a code, and the only field a stage may change in it.\<close>

definition table_payload :: "relay_error_code \<Rightarrow> diagnostic_spec \<Rightarrow> diagnostic" where
  "table_payload c sp = \<lparr>d_code = code_value c, d_stage = spec_stage sp,
     d_retryable = spec_retryable sp, d_message = spec_message sp\<rparr>"

lemma relay_diagnostic_shape:
  assumes "map_of relay_diagnostics (canonical_relay_code err stage) = Some sp"
  shows "relay_diagnostic err stage = table_payload (canonical_relay_code err stage) sp
     \<or> (\<exists>st \<in> {''authentication'', ''session'', ''enrollment''}.
          relay_diagnostic err stage = table_payload (canonical_relay_code err stage) sp\<lparr>d_stage := st\<rparr>)"
  unfolding relay_diagnostic_def Let_def assms option.sel table_payload_def [symmetric]
  by (cases stage) (simp_all only: option.case split: if_split, blast+)

section \<open>Properties\<close>

text \<open>
  The vocabulary is closed: whatever internal code or stage the relay handler reports, the
  frame carries a published code, a stage of the contract, and the message and the retryable
  flag of that code's table entry.
\<close>

theorem relay_diagnostic_closed:
  "\<exists>c sp. map_of relay_diagnostics c = Some sp
     \<and> d_code (relay_diagnostic err stage) = code_value c
     \<and> code_value c \<in> set RELAY_ERROR_CODES
     \<and> d_message (relay_diagnostic err stage) = spec_message sp
     \<and> d_retryable (relay_diagnostic err stage) = spec_retryable sp
     \<and> d_stage (relay_diagnostic err stage) \<in> set contract_stages"
proof -
  let ?c = "canonical_relay_code err stage"
  obtain sp where sp: "map_of relay_diagnostics ?c = Some sp"
    using relay_diagnostics_total by blast
  from relay_diagnostic_shape [OF sp] have shape:
    "relay_diagnostic err stage = table_payload ?c sp
       \<or> (\<exists>st \<in> {''authentication'', ''session'', ''enrollment''}.
            relay_diagnostic err stage = table_payload ?c sp\<lparr>d_stage := st\<rparr>)" .
  have stages: "{''authentication'', ''session'', ''enrollment''} \<subseteq> set contract_stages"
    by (simp add: contract_stages_def)
  from shape have "d_stage (relay_diagnostic err stage) \<in> set contract_stages"
  proof
    assume "relay_diagnostic err stage = table_payload ?c sp"
    then show ?thesis using diagnostics_stages [OF sp] by (simp add: table_payload_def)
  next
    assume "\<exists>st \<in> {''authentication'', ''session'', ''enrollment''}.
              relay_diagnostic err stage = table_payload ?c sp\<lparr>d_stage := st\<rparr>"
    then obtain st where "st \<in> {''authentication'', ''session'', ''enrollment''}"
      "d_stage (relay_diagnostic err stage) = st" by (force simp: table_payload_def)
    with stages show ?thesis by blast
  qed
  moreover from shape have "d_message (relay_diagnostic err stage) = spec_message sp"
    "d_retryable (relay_diagnostic err stage) = spec_retryable sp"
    by (elim disjE bexE; simp add: table_payload_def)+
  ultimately show ?thesis
    using sp d_code_relay_diagnostic code_value_in_vocabulary by blast
qed

text \<open>
  A code outside the vocabulary leaves no trace in the frame: two unknown internal codes give
  the same frame in the same stage, so exception keywords cannot leak to a device.
\<close>

theorem unknown_codes_indistinguishable:
  assumes "code_of_value raw = None" and "map_of internal_error_map raw = None"
    and "code_of_value raw' = None" and "map_of internal_error_map raw' = None"
  shows "diagnostic_frame (relay_diagnostic (Inr raw) stage) = diagnostic_frame (relay_diagnostic (Inr raw') stage)"
  using assms by (simp add: relay_diagnostic_def canonical_relay_code_def)

theorem unknown_codes_indistinguishable_witness:
  "diagnostic_frame (relay_diagnostic (Inr ''stale_connection'') (Some ''session''))
     = diagnostic_frame (relay_diagnostic (Inr ''database is locked'') (Some ''session''))"
proof (rule unknown_codes_indistinguishable)
  show "code_of_value ''stale_connection'' = None" "map_of internal_error_map ''stale_connection'' = None"
    "code_of_value ''database is locked'' = None" "map_of internal_error_map ''database is locked'' = None"
    by (simp_all add: code_of_value_def relay_diagnostics_def internal_error_map_def)
qed

text \<open>
  Published codes are stable through the mapping: a code given by its published text is
  reported as itself, except that in the enrolment stage an invalid challenge and a failed
  authentication are reported as their enrolment counterparts.
\<close>

theorem published_code_reported:
  "d_code (relay_diagnostic (Inr (code_value c)) stage) =
     (if stage = Some ''enrollment'' \<and> c = RELAY_CHALLENGE_INVALID then ''enrollment_challenge_invalid''
      else if stage = Some ''enrollment'' \<and> c = RELAY_AUTHENTICATION_FAILED then ''enrollment_signature_invalid''
      else code_value c)"
proof -
  have "map_of internal_error_map (code_value c) = None"
    by (cases c) (simp_all add: internal_error_map_def)
  then show ?thesis
    by (simp add: d_code_relay_diagnostic canonical_relay_code_def code_of_value_value Let_def)
qed

end
