(* ===== verification/Service.thy ===== *)
theory Service
  imports Liveness OneShot Errors
begin

text \<open>
  \<open>remote_agent_connector/service.py\<close> without the command path: enrolment, relay
  authentication, heartbeats, the device inventory and the operator's changes. An operation is a
  function from the store to a result (an exception or a value) and the store it leaves behind:
  what an operation wrote before it raised stays written, as in the code. The readings of the
  clock, the drawn uuids and tokens are arguments. \<open>edv\<close> is Ed25519 verification, \<open>sha\<close> SHA-256.
\<close>

section \<open>Operations over the store\<close>

type_synonym 'a act = "store \<Rightarrow> 'a res \<times> store"

definition returnA :: "'a \<Rightarrow> 'a act" where
  "returnA x st = (Inr x, st)"

definition raiseA :: "exn \<Rightarrow> 'a act" where
  "raiseA e st = (Inl e, st)"

definition liftA :: "'a res \<Rightarrow> 'a act" where
  "liftA r st = (r, st)"

definition bindA :: "'a act \<Rightarrow> ('a \<Rightarrow> 'b act) \<Rightarrow> 'b act" where
  "bindA m f st = (case m st of (Inl e, st') \<Rightarrow> (Inl e, st') | (Inr x, st') \<Rightarrow> f x st')"

text \<open>A store method that cannot raise, a read, and a write without a result.\<close>

definition callA :: "(store \<Rightarrow> 'a \<times> store) \<Rightarrow> 'a act" where
  "callA f st = (Inr (fst (f st)), snd (f st))"

definition readA :: "(store \<Rightarrow> 'a) \<Rightarrow> 'a act" where
  "readA f st = (Inr (f st), st)"

definition writeA :: "(store \<Rightarrow> store) \<Rightarrow> unit act" where
  "writeA f st = (Inr (), f st)"

lemmas act_defs = returnA_def raiseA_def liftA_def bindA_def callA_def readA_def writeA_def

section \<open>Enrolment\<close>

definition issue_token ::
    "(bytes \<Rightarrow> string) \<Rightarrow> string \<Rightarrow> string \<Rightarrow> string \<Rightarrow> string \<Rightarrow> string \<Rightarrow> int \<Rightarrow> datetime \<Rightarrow> datetime
     \<Rightarrow> (string \<times> int) act" where
  "issue_token sha raw_token event_id connector_id capability_profile display_label expires_in_seconds t1 t2 st =
     (case bindA (issue_enrollment_token sha raw_token connector_id capability_profile display_label
                    expires_in_seconds t1) (\<lambda>token.
           bindA (append_audit event_id ''operator.enrollment_token_issued'' ''ok'' None (Some connector_id) None
                    [(''capability_profile'', JStr capability_profile),
                     (''expires_in_seconds'', JInt expires_in_seconds)] t2) (\<lambda>_.
           returnA (token, expires_in_seconds))) st of
        (Inl _, st') \<Rightarrow> (Inl (AgentError ''invalid_enrollment_request''), st')
      | (Inr x, st') \<Rightarrow> (Inr x, st'))"

definition token_error :: "string \<Rightarrow> string option" where
  "token_error token_status = map_of
     [(''invalid'', ''enrollment_token_invalid''), (''expired'', ''enrollment_token_expired''),
      (''consumed'', ''enrollment_token_consumed''), (''connector_mismatch'', ''connector_id_mismatch'')]
     token_status"

record enrollment_reply =
  er_connector_id :: string
  er_capability_profile :: string
  er_capabilities :: "string list"

definition already_enrolled_error :: "device_row option \<Rightarrow> exn" where
  "already_enrolled_error existing =
     (case existing of
        Some d \<Rightarrow> if dv_enrollment_state d = Revoked then AgentError ''device_revoked''
                  else AgentError ''device_already_enrolled''
      | None \<Rightarrow> AgentError ''device_already_enrolled'')"

text \<open>The part after the signature: the device row and its audit entry.\<close>

definition register_device ::
    "(bytes \<Rightarrow> string) \<Rightarrow> string \<Rightarrow> datetime \<Rightarrow> string \<Rightarrow> string \<Rightarrow> string \<Rightarrow> token_row \<Rightarrow> enrollment_reply act" where
  "register_device sha event_id now connector_id public_key platform token_record =
     bindA (readA (get_device connector_id)) (\<lambda>existing.
     if existing \<noteq> None then raiseA (already_enrolled_error existing)
     else bindA (enroll_device connector_id public_key (tk_display_label token_record)
                   (tk_capability_profile token_record) now platform) (\<lambda>enrolled.
     if \<not> enrolled then bindA (readA (get_device connector_id)) (\<lambda>existing. raiseA (already_enrolled_error existing))
     else bindA (liftA (public_key_fingerprint sha public_key)) (\<lambda>fingerprint.
     bindA (append_audit event_id ''device.enrolled'' ''ok'' None (Some connector_id) None
              [(''capability_profile'', JStr (tk_capability_profile token_record)),
               (''public_key_fingerprint'', JStr fingerprint)] now) (\<lambda>_.
     bindA (liftA (capabilities_for_profile (tk_capability_profile token_record))) (\<lambda>capabilities.
     returnA \<lparr>er_connector_id = connector_id, er_capability_profile = tk_capability_profile token_record,
              er_capabilities = capabilities\<rparr>)))))"

definition complete_enrollment ::
    "(bytes \<Rightarrow> string) \<Rightarrow> (bytes \<Rightarrow> bytes \<Rightarrow> bytes \<Rightarrow> bool) \<Rightarrow> string \<Rightarrow> datetime
     \<Rightarrow> string \<Rightarrow> string \<Rightarrow> string \<Rightarrow> string \<Rightarrow> string \<Rightarrow> string \<Rightarrow> string \<Rightarrow> enrollment_reply act" where
  "complete_enrollment sha edv event_id now
      challenge_id challenge connector_id enrollment_token public_key signature platform =
     bindA (liftA (parse_connector_id (JStr connector_id))) (\<lambda>connector_id.
     bindA (liftA (validate_platform (JStr platform))) (\<lambda>platform.
     bindA (callA (consume_enrollment_token_detailed sha enrollment_token connector_id now))
       (\<lambda>(token_status, token_record).
     case token_error token_status of
       Some err \<Rightarrow> raiseA (AgentError err)
     | None \<Rightarrow>
       (case token_record of
          None \<Rightarrow> raiseA (AgentError ''enrollment_token_invalid'')
        | Some token_record \<Rightarrow>
            bindA (callA (consume_challenge sha challenge_id challenge now)) (\<lambda>consumed.
            if \<not> consumed then raiseA (AgentError ''invalid_challenge'')
            else bindA (liftA (enrollment_payload challenge_id challenge connector_id enrollment_token public_key))
              (\<lambda>payload.
            if isl (verify_ed25519 edv public_key payload signature)
            then raiseA (AgentError ''enrollment_signature_invalid'')
            else register_device sha event_id now connector_id public_key platform token_record))))))"

section \<open>Relay sessions\<close>

definition issue_relay_challenge ::
    "(bytes \<Rightarrow> string) \<Rightarrow> string \<Rightarrow> string \<Rightarrow> datetime \<Rightarrow> json act" where
  "issue_relay_challenge sha challenge_id challenge now =
     bindA (create_challenge sha challenge_id challenge 120 now) (\<lambda>(cid, ch).
     returnA (JObj [(''v'', JInt 1), (''type'', JStr ''challenge''),
                    (''challenge_id'', JStr cid), (''challenge'', JStr ch)]))"

record relay_identity =
  ri_connector_id :: string
  ri_instance_id :: string
  ri_context_epoch :: int
  ri_connection_generation :: string
  ri_capabilities :: "string list"

definition authenticate_relay ::
    "(bytes \<Rightarrow> string) \<Rightarrow> (bytes \<Rightarrow> bytes \<Rightarrow> bytes \<Rightarrow> bool) \<Rightarrow> string \<Rightarrow> datetime
     \<Rightarrow> string \<Rightarrow> string \<Rightarrow> string \<Rightarrow> string \<Rightarrow> int \<Rightarrow> string \<Rightarrow> string \<Rightarrow> string list \<Rightarrow> relay_identity act" where
  "authenticate_relay sha edv event_id now
      challenge_id challenge connector_id instance_id context_epoch signature connection_generation capabilities =
     bindA (liftA (parse_connector_id (JStr connector_id))) (\<lambda>connector_id.
     bindA (liftA (parse_instance_id (JStr instance_id))) (\<lambda>instance_id.
     bindA (callA (consume_challenge sha challenge_id challenge now)) (\<lambda>consumed.
     if \<not> consumed then raiseA (AgentError ''invalid_challenge'')
     else bindA (readA (get_device connector_id)) (\<lambda>device.
     case device of
       None \<Rightarrow> raiseA (AgentError ''relay_authentication_failed'')
     | Some device \<Rightarrow>
         if dv_enrollment_state device \<noteq> Enrolled then raiseA (AgentError ''device_revoked'')
         else bindA (liftA (relay_auth_payload challenge_id challenge connector_id instance_id context_epoch))
           (\<lambda>payload.
         if isl (verify_ed25519 edv (dv_public_key device) payload signature)
         then raiseA (AgentError ''relay_authentication_failed'')
         else bindA (upsert_presence connector_id instance_id connection_generation context_epoch capabilities now)
           (\<lambda>accepted.
         if \<not> accepted then raiseA (AgentError ''capabilities_not_granted'')
         else bindA (append_audit event_id ''device.online'' ''ok'' None (Some connector_id) None
                       [(''instance_id'', JStr instance_id)] now) (\<lambda>_.
         returnA \<lparr>ri_connector_id = connector_id, ri_instance_id = instance_id,
                  ri_context_epoch = context_epoch, ri_connection_generation = connection_generation,
                  ri_capabilities = capabilities\<rparr>)))))))"

definition service_heartbeat :: "string \<Rightarrow> string \<Rightarrow> int \<Rightarrow> datetime \<Rightarrow> unit act" where
  "service_heartbeat instance_id connection_generation context_epoch now =
     bindA (liftA (parse_instance_id (JStr instance_id))) (\<lambda>instance_id.
     bindA (heartbeat instance_id connection_generation context_epoch now) (\<lambda>accepted.
     if \<not> accepted then raiseA (AgentError ''stale_connection'') else returnA ()))"

definition disconnect_relay :: "string \<Rightarrow> string \<Rightarrow> datetime \<Rightarrow> unit act" where
  "disconnect_relay instance_id connection_generation now =
     bindA (liftA (parse_instance_id (JStr instance_id))) (\<lambda>instance_id.
     bindA (callA (disconnect_instance instance_id connection_generation now)) (\<lambda>_. returnA ()))"

section \<open>Inventory\<close>

definition fresh_after :: "int \<Rightarrow> datetime \<Rightarrow> datetime" where
  "fresh_after stale_seconds now = now - seconds stale_seconds"

record device_report =
  dr_connector_id :: string
  dr_display_label :: string
  dr_public_key_fingerprint :: string
  dr_capability_profile :: string
  dr_capabilities :: "string list"
  dr_enrollment_state :: enrollment_state
  dr_enrolled_at :: timestamp
  dr_revoked_at :: "timestamp option"
  dr_connection_state :: instance_state
  dr_last_heartbeat_at :: "timestamp option"
  dr_context_epoch :: "int option"

definition device_status :: "(bytes \<Rightarrow> string) \<Rightarrow> int \<Rightarrow> datetime \<Rightarrow> string \<Rightarrow> device_report act" where
  "device_status sha stale_seconds now connector_id =
     bindA (readA (get_device connector_id)) (\<lambda>device.
     case device of
       None \<Rightarrow> raiseA (AgentError ''device_not_found'')
     | Some device \<Rightarrow>
         bindA (callA (latest_online_instance connector_id (fresh_after stale_seconds now))) (\<lambda>inst.
         bindA (liftA (capabilities_for_profile (dv_capability_profile device))) (\<lambda>capabilities.
         bindA (liftA (public_key_fingerprint sha (dv_public_key device))) (\<lambda>fingerprint.
         returnA \<lparr>dr_connector_id = connector_id, dr_display_label = dv_display_label device,
            dr_public_key_fingerprint = fingerprint,
            dr_capability_profile = dv_capability_profile device, dr_capabilities = capabilities,
            dr_enrollment_state = dv_enrollment_state device, dr_enrolled_at = dv_enrolled_at device,
            dr_revoked_at = dv_revoked_at device,
            dr_connection_state = (if inst \<noteq> None then Online else Offline),
            dr_last_heartbeat_at = map_option in_last_heartbeat_at inst,
            dr_context_epoch = map_option in_context_epoch inst\<rparr>))))"

text \<open>One clock reading per listed device.\<close>

primrec statuses_of ::
    "(bytes \<Rightarrow> string) \<Rightarrow> int \<Rightarrow> (nat \<Rightarrow> datetime) \<Rightarrow> device_row list \<Rightarrow> device_report list act" where
  "statuses_of sha stale_seconds clock [] = returnA []"
| "statuses_of sha stale_seconds clock (d # ds) =
     bindA (device_status sha stale_seconds (clock 0) (dv_connector_id d)) (\<lambda>r.
     bindA (statuses_of sha stale_seconds (\<lambda>n. clock (Suc n)) ds) (\<lambda>rs. returnA (r # rs)))"

definition operator_devices ::
    "(bytes \<Rightarrow> string) \<Rightarrow> int \<Rightarrow> (nat \<Rightarrow> datetime) \<Rightarrow> (device_report list \<times> nat) act" where
  "operator_devices sha stale_seconds clock =
     bindA (readA list_devices) (\<lambda>rows.
     bindA (statuses_of sha stale_seconds clock rows) (\<lambda>devices. returnA (devices, length devices)))"

record agent_report =
  ar_device_id :: string
  ar_platform :: string
  ar_capabilities :: "string list"
  ar_connected_at :: timestamp

primrec agent_reports :: "agent_row list \<Rightarrow> agent_report list res" where
  "agent_reports [] = Inr []"
| "agent_reports (row # rows) =
     bindR (capabilities_for_profile (ag_capability_profile row)) (\<lambda>capabilities.
     bindR (agent_reports rows) (\<lambda>agents.
     Inr (\<lparr>ar_device_id = ag_device_id row,
           ar_platform = (if ag_platform row = [] then ''unknown'' else ag_platform row),
           ar_capabilities = capabilities, ar_connected_at = ag_connected_at row\<rparr> # agents)))"

definition list_online_agents :: "int \<Rightarrow> datetime \<Rightarrow> (agent_report list \<times> nat) act" where
  "list_online_agents stale_seconds now =
     bindA (callA (online_agents (fresh_after stale_seconds now))) (\<lambda>rows.
     bindA (liftA (agent_reports rows)) (\<lambda>agents. returnA (agents, length agents)))"

section \<open>Operator changes\<close>

definition service_revoke_device :: "string \<Rightarrow> datetime \<Rightarrow> datetime \<Rightarrow> string \<Rightarrow> unit act" where
  "service_revoke_device event_id t1 t2 connector_id =
     bindA (callA (revoke_device connector_id t1)) (\<lambda>found.
     if \<not> found then raiseA (AgentError ''device_not_found'')
     else bindA (append_audit event_id ''device.revoked'' ''ok'' None (Some connector_id) None [] t2) (\<lambda>_. returnA ()))"

definition service_delete_revoked_device :: "string \<Rightarrow> datetime \<Rightarrow> string \<Rightarrow> unit act" where
  "service_delete_revoked_device event_id now connector_id =
     bindA (callA (delete_revoked_device connector_id)) (\<lambda>result.
     if result \<noteq> ''deleted'' then raiseA (AgentError result)
     else bindA (append_audit event_id ''device.deleted'' ''ok'' None (Some connector_id) None [] now) (\<lambda>_. returnA ()))"

definition rename_device ::
    "string \<Rightarrow> datetime \<Rightarrow> datetime \<Rightarrow> string \<Rightarrow> string \<Rightarrow> (string \<times> string) act" where
  "rename_device event_id t1 t2 connector_id display_label =
     bindA (liftA (validate_display_label (JStr display_label))) (\<lambda>display_label.
     bindA (readA (get_device connector_id)) (\<lambda>device.
     case device of
       None \<Rightarrow> raiseA (AgentError ''device_not_found'')
     | Some device \<Rightarrow>
         if dv_enrollment_state device \<noteq> Enrolled then raiseA (AgentError ''device_revoked'')
         else bindA (writeA (update_display_label connector_id display_label t1)) (\<lambda>_.
         bindA (append_audit event_id ''device.renamed'' ''ok'' None (Some connector_id) None [] t2) (\<lambda>_.
         returnA (connector_id, display_label)))))"

section \<open>Routing\<close>

text \<open>An absent and an empty instance id both select the newest instance.\<close>

definition relay_session ::
    "int \<Rightarrow> datetime \<Rightarrow> string \<Rightarrow> string option \<Rightarrow> instance_row option act" where
  "relay_session stale_seconds now connector_id instance_id =
     (if instance_id = None \<or> instance_id = Some []
      then callA (latest_online_instance connector_id (fresh_after stale_seconds now))
      else bindA (liftA (parse_instance_id (JStr (the instance_id)))) (\<lambda>instance_id.
           callA (exact_online_instance connector_id instance_id (fresh_after stale_seconds now))))"

section \<open>Sequencing lemmas\<close>

lemma bindA_simps [simp]:
  "bindA (returnA x) f = f x"
  "bindA (raiseA e) f = raiseA e"
  "bindA (liftA (Inr x)) f = f x"
  "bindA (liftA (Inl e)) f = raiseA e"
  "bindA (readA g) f st = f (g st) st"
  "bindA (writeA w) f' st = f' () (w st)"
  "bindA (callA c) f st = f (fst (c st)) (snd (c st))"
  by (simp_all add: act_defs fun_eq_iff)

lemma raiseA_apply [simp]: "raiseA e st = (Inl e, st)"
  by (simp add: raiseA_def)

lemma returnA_apply [simp]: "returnA x st = (Inr x, st)"
  by (simp add: returnA_def)

lemma callA_apply [simp]: "callA f st = (Inr (fst (f st)), snd (f st))"
  by (simp add: callA_def)

lemma bindA_eq_Inr:
  "fst (bindA m f st) = Inr y \<longleftrightarrow> (\<exists>x. fst (m st) = Inr x \<and> fst (f x (snd (m st))) = Inr y)"
  by (simp add: bindA_def split: prod.split sum.split)

lemma bindA_liftA: "bindA (liftA r) f st = (case r of Inl e \<Rightarrow> (Inl e, st) | Inr x \<Rightarrow> f x st)"
  by (simp add: act_defs split: sum.split)

lemma snd_bindA: "snd (bindA m f st) =
    (case fst (m st) of Inl e \<Rightarrow> snd (m st) | Inr x \<Rightarrow> snd (f x (snd (m st))))"
  by (simp add: bindA_def split: prod.split sum.split)

section \<open>Every operation is a run of the store\<close>

text \<open>
  \<open>runs_from\<close> relates a store to those that store operations satisfying \<open>A\<close> lead to. Every
  service operation stays inside this relation, so what StoreInv, Liveness, OneShot and Ledger
  prove of all runs of the store holds of all runs of the service.
\<close>

definition runs_from :: "(bytes \<Rightarrow> string) \<Rightarrow> (store_op \<Rightarrow> bool) \<Rightarrow> store \<Rightarrow> store \<Rightarrow> bool" where
  "runs_from sha A st st' \<longleftrightarrow> (\<exists>ops. (\<forall>op \<in> set ops. A op) \<and> st' = run_steps (store_step sha) ops st)"

definition keeps :: "(store \<Rightarrow> bool) \<Rightarrow> 'a act \<Rightarrow> bool" where
  "keeps P m \<longleftrightarrow> (\<forall>st. P st \<longrightarrow> P (snd (m st)))"

lemma runs_from_refl [simp]: "runs_from sha A st st"
  by (auto simp: runs_from_def intro: exI [where x = "[]"])

lemma runs_from_step: "A op \<Longrightarrow> runs_from sha A st0 st \<Longrightarrow> runs_from sha A st0 (store_step sha op st)"
  unfolding runs_from_def
  by (elim exE conjE, rule_tac x = "ops @ [op]" in exI) (simp add: run_steps_append)

lemma runs_from_inv: "runs_from sha A st st' \<Longrightarrow> store_inv st \<Longrightarrow> store_inv st'"
  by (auto simp: runs_from_def intro: store_machine.run_inv)

lemma runs_from_revoked:
  "runs_from sha A st st' \<Longrightarrow> (\<And>op. A op \<Longrightarrow> op \<noteq> OpDelete c) \<Longrightarrow> is_revoked c st \<Longrightarrow> is_revoked c st'"
  by (auto simp: runs_from_def intro!: revoked_machine.run_inv)

lemma keepsD: "keeps P m \<Longrightarrow> P st \<Longrightarrow> P (snd (m st))"
  by (simp add: keeps_def)

named_theorems keeps_intro

lemma keeps_basic [keeps_intro]:
  "keeps P (returnA x)" "keeps P (raiseA e)" "keeps P (liftA r)" "keeps P (readA f)"
  by (simp_all add: keeps_def act_defs)

lemma keeps_bind [keeps_intro]: "keeps P m \<Longrightarrow> (\<And>x. keeps P (f x)) \<Longrightarrow> keeps P (bindA m f)"
  by (simp add: keeps_def snd_bindA split: sum.split)

lemma keeps_if [keeps_intro]: "keeps P m \<Longrightarrow> keeps P m' \<Longrightarrow> keeps P (if b then m else m')"
  by simp

lemma keeps_option [keeps_intro]:
  "keeps P m \<Longrightarrow> (\<And>x. keeps P (f x)) \<Longrightarrow> keeps P (case v of None \<Rightarrow> m | Some x \<Rightarrow> f x)"
  by (simp split: option.split)

lemma keeps_prod [keeps_intro]: "(\<And>x y. keeps P (f x y)) \<Longrightarrow> keeps P (case v of (x, y) \<Rightarrow> f x y)"
  by (simp split: prod.split)

lemma keeps_handler [keeps_intro]:
  "keeps P m \<Longrightarrow> keeps P (\<lambda>st. case m st of (Inl _, st') \<Rightarrow> (Inl e, st') | (Inr x, st') \<Rightarrow> (Inr x, st'))"
  by (simp add: keeps_def split_beta split: sum.split)

text \<open>One operation of the store, in the form the service calls it.\<close>

lemma keeps_step:
  "A op \<Longrightarrow> (\<And>st. snd (m st) = store_step sha op st) \<Longrightarrow> keeps (runs_from sha A st0) m"
  by (simp add: keeps_def runs_from_step)

lemma keeps_read: "(\<And>st. snd (m st) = snd (mark_stale_instances t st)) \<Longrightarrow> A (OpSweep t) \<Longrightarrow>
    keeps (runs_from sha A st0) m"
  by (rule keeps_step [where op = "OpSweep t"]) simp_all

text \<open>The operations an act may use: all but the deletion of devices.\<close>

fun not_delete :: "store_op \<Rightarrow> bool" where
  "not_delete (OpDelete c) = False"
| "not_delete op = True"

lemma keeps_store [keeps_intro]:
  assumes "\<And>op. not_delete op \<Longrightarrow> A op"
  shows "keeps (runs_from sha A st0) (issue_enrollment_token sha raw c p l n t)"
    "keeps (runs_from sha A st0) (create_challenge sha i ch n t)"
    "keeps (runs_from sha A st0) (enroll_device c k l p t pf)"
    "keeps (runs_from sha A st0) (upsert_presence c i g e caps t)"
    "keeps (runs_from sha A st0) (heartbeat i g e t)"
    "keeps (runs_from sha A st0) (append_audit ev a rc pr co rq d t)"
    "keeps (runs_from sha A st0) (writeA (update_display_label c l t))"
    "keeps (runs_from sha A st0) (callA (consume_enrollment_token_detailed sha raw c t))"
    "keeps (runs_from sha A st0) (callA (consume_challenge sha i ch t))"
    "keeps (runs_from sha A st0) (callA (revoke_device c t))"
    "keeps (runs_from sha A st0) (callA (disconnect_instance i g t))"
    "keeps (runs_from sha A st0) (callA (latest_online_instance c t))"
    "keeps (runs_from sha A st0) (callA (exact_online_instance c i t))"
    "keeps (runs_from sha A st0) (callA (online_agents t))"
proof -
  show "keeps (runs_from sha A st0) (issue_enrollment_token sha raw c p l n t)"
    by (rule keeps_step [where op = "OpIssueToken raw c p l n t"]) (simp_all add: assms)
  show "keeps (runs_from sha A st0) (create_challenge sha i ch n t)"
    by (rule keeps_step [where op = "OpCreateChallenge i ch n t"]) (simp_all add: assms)
  show "keeps (runs_from sha A st0) (enroll_device c k l p t pf)"
    by (rule keeps_step [where op = "OpEnroll c k l p t pf"]) (simp_all add: assms)
  show "keeps (runs_from sha A st0) (upsert_presence c i g e caps t)"
    by (rule keeps_step [where op = "OpPresence c i g e caps t"]) (simp_all add: assms)
  show "keeps (runs_from sha A st0) (heartbeat i g e t)"
    by (rule keeps_step [where op = "OpHeartbeat i g e t"]) (simp_all add: assms)
  show "keeps (runs_from sha A st0) (append_audit ev a rc pr co rq d t)"
    by (rule keeps_step [where op = "OpAudit ev a rc pr co rq d t"]) (simp_all add: assms)
  show "keeps (runs_from sha A st0) (writeA (update_display_label c l t))"
    by (rule keeps_step [where op = "OpRename c l t"]) (simp_all add: assms writeA_def)
  show "keeps (runs_from sha A st0) (callA (consume_enrollment_token_detailed sha raw c t))"
    by (rule keeps_step [where op = "OpConsumeToken raw c t"]) (simp_all add: assms)
  show "keeps (runs_from sha A st0) (callA (consume_challenge sha i ch t))"
    by (rule keeps_step [where op = "OpConsumeChallenge i ch t"]) (simp_all add: assms)
  show "keeps (runs_from sha A st0) (callA (revoke_device c t))"
    by (rule keeps_step [where op = "OpRevoke c t"]) (simp_all add: assms)
  show "keeps (runs_from sha A st0) (callA (disconnect_instance i g t))"
    by (rule keeps_step [where op = "OpDisconnect i g t"]) (simp_all add: assms)
  show "keeps (runs_from sha A st0) (callA (latest_online_instance c t))"
    "keeps (runs_from sha A st0) (callA (exact_online_instance c i t))"
    "keeps (runs_from sha A st0) (callA (online_agents t))"
    by (rule keeps_read [where t = t]; simp add: read_is_sweep assms)+
qed

lemma keeps_delete [keeps_intro]:
  "A (OpDelete c) \<Longrightarrow> keeps (runs_from sha A st0) (callA (delete_revoked_device c))"
  by (rule keeps_step [where op = "OpDelete c"]) simp_all

lemma keeps_statuses [keeps_intro]:
  "(\<And>op. not_delete op \<Longrightarrow> A op) \<Longrightarrow> keeps (runs_from sha A st0) (statuses_of sha' stale clock ds)"
  by (induction ds arbitrary: clock) (simp_all add: keeps_intro device_status_def)

section \<open>The service as a state machine\<close>

datatype service_op =
    SvcIssueToken string string string string string int datetime datetime
  | SvcEnroll string datetime string string string string string string string
  | SvcChallenge string string datetime
  | SvcAuthenticate string datetime string string string string int string string "string list"
  | SvcHeartbeat string string int datetime
  | SvcDisconnect string string datetime
  | SvcStatus datetime string
  | SvcDevices "nat \<Rightarrow> datetime"
  | SvcAgents datetime
  | SvcRevoke string datetime datetime string
  | SvcDelete string datetime string
  | SvcRename string datetime datetime string string
  | SvcRoute datetime string "string option"

fun service_step ::
    "(bytes \<Rightarrow> string) \<Rightarrow> (bytes \<Rightarrow> bytes \<Rightarrow> bytes \<Rightarrow> bool) \<Rightarrow> int \<Rightarrow> service_op \<Rightarrow> store \<Rightarrow> store" where
  "service_step sha edv stale (SvcIssueToken raw ev c p l n t1 t2) st = snd (issue_token sha raw ev c p l n t1 t2 st)"
| "service_step sha edv stale (SvcEnroll ev t i ch c tok pk sg pf) st =
     snd (complete_enrollment sha edv ev t i ch c tok pk sg pf st)"
| "service_step sha edv stale (SvcChallenge i ch t) st = snd (issue_relay_challenge sha i ch t st)"
| "service_step sha edv stale (SvcAuthenticate ev t i ch c inst e sg g caps) st =
     snd (authenticate_relay sha edv ev t i ch c inst e sg g caps st)"
| "service_step sha edv stale (SvcHeartbeat i g e t) st = snd (service_heartbeat i g e t st)"
| "service_step sha edv stale (SvcDisconnect i g t) st = snd (disconnect_relay i g t st)"
| "service_step sha edv stale (SvcStatus t c) st = snd (device_status sha stale t c st)"
| "service_step sha edv stale (SvcDevices clock) st = snd (operator_devices sha stale clock st)"
| "service_step sha edv stale (SvcAgents t) st = snd (list_online_agents stale t st)"
| "service_step sha edv stale (SvcRevoke ev t1 t2 c) st = snd (service_revoke_device ev t1 t2 c st)"
| "service_step sha edv stale (SvcDelete ev t c) st = snd (service_delete_revoked_device ev t c st)"
| "service_step sha edv stale (SvcRename ev t1 t2 c l) st = snd (rename_device ev t1 t2 c l st)"
| "service_step sha edv stale (SvcRoute t c i) st = snd (relay_session stale t c i st)"

text \<open>What the deletion of a device needs, and nothing else does.\<close>

fun deletes_only :: "service_op \<Rightarrow> store_op \<Rightarrow> bool" where
  "deletes_only (SvcDelete ev t c) op = (not_delete op \<or> op = OpDelete c)"
| "deletes_only sop op = not_delete op"

lemma complete_enrollment_keeps:
  "(\<And>op. not_delete op \<Longrightarrow> A op) \<Longrightarrow>
   keeps (runs_from sha A st0) (complete_enrollment sha edv ev t i ch c tok pk sg pf)"
  unfolding complete_enrollment_def register_device_def by (intro keeps_intro) simp_all

lemma authenticate_relay_keeps:
  "(\<And>op. not_delete op \<Longrightarrow> A op) \<Longrightarrow>
   keeps (runs_from sha A st0) (authenticate_relay sha edv ev t i ch c inst e sg g caps)"
  unfolding authenticate_relay_def by (intro keeps_intro) simp_all

lemma relay_session_keeps:
  "(\<And>op. not_delete op \<Longrightarrow> A op) \<Longrightarrow> keeps (runs_from sha A st0) (relay_session stale t c i)"
  unfolding relay_session_def by (intro keeps_intro) simp_all

lemma service_step_runs: "runs_from sha (deletes_only sop) st (service_step sha edv stale sop st)"
proof -
  let ?P = "runs_from sha (deletes_only sop) st"
  have nd: "\<And>op. not_delete op \<Longrightarrow> deletes_only sop op" by (cases sop) simp_all
  have run: "?P (snd (m st))" if "keeps ?P m" for m :: "'x act"
    using keepsD [OF that] by simp
  show ?thesis
  proof (cases sop)
    case (SvcIssueToken raw ev c p l n t1 t2)
    have "keeps ?P (issue_token sha raw ev c p l n t1 t2)"
      unfolding issue_token_def [abs_def] by (intro keeps_intro nd)
    with SvcIssueToken run show ?thesis by simp
  next
    case (SvcDelete ev t c)
    have "keeps ?P (service_delete_revoked_device ev t c)"
      unfolding service_delete_revoked_device_def by (intro keeps_intro) (simp_all add: SvcDelete)
    with SvcDelete run show ?thesis by simp
  next
    case (SvcEnroll ev t i ch c tok pk sg pf)
    with run [OF complete_enrollment_keeps [OF nd]] show ?thesis by simp
  next
    case (SvcAuthenticate ev t i ch c inst e sg g caps)
    with run [OF authenticate_relay_keeps [OF nd]] show ?thesis by simp
  next
    case (SvcRoute t c i)
    with run [OF relay_session_keeps [OF nd]] show ?thesis by simp
  next
    case (SvcChallenge i ch t)
    have "keeps ?P (issue_relay_challenge sha i ch t)"
      unfolding issue_relay_challenge_def by (intro keeps_intro nd)
    with SvcChallenge run show ?thesis by simp
  next
    case (SvcHeartbeat i g e t)
    have "keeps ?P (service_heartbeat i g e t)"
      unfolding service_heartbeat_def by (intro keeps_intro nd)
    with SvcHeartbeat run show ?thesis by simp
  next
    case (SvcDisconnect i g t)
    have "keeps ?P (disconnect_relay i g t)"
      unfolding disconnect_relay_def by (intro keeps_intro nd)
    with SvcDisconnect run show ?thesis by simp
  next
    case (SvcStatus t c)
    have "keeps ?P (device_status sha stale t c)"
      unfolding device_status_def by (intro keeps_intro nd)
    with SvcStatus run show ?thesis by simp
  next
    case (SvcDevices clock)
    have "keeps ?P (operator_devices sha stale clock)"
      unfolding operator_devices_def by (intro keeps_intro nd)
    with SvcDevices run show ?thesis by simp
  next
    case (SvcAgents t)
    have "keeps ?P (list_online_agents stale t)"
      unfolding list_online_agents_def by (intro keeps_intro nd)
    with SvcAgents run show ?thesis by simp
  next
    case (SvcRevoke ev t1 t2 c)
    have "keeps ?P (service_revoke_device ev t1 t2 c)"
      unfolding service_revoke_device_def by (intro keeps_intro nd)
    with SvcRevoke run show ?thesis by simp
  next
    case (SvcRename ev t1 t2 c l)
    have "keeps ?P (rename_device ev t1 t2 c l)"
      unfolding rename_device_def by (intro keeps_intro nd)
    with SvcRename run show ?thesis by simp
  qed
qed

interpretation service_machine: invariant_machine "service_step sha edv stale" "\<lambda>_. True" store_inv
  for sha edv stale
  by unfold_locales (rule runs_from_inv [OF service_step_runs])

end
