(* ===== verification/Handshake.thy ===== *)
theory Handshake
  imports Service
begin

text \<open>
  What a completed enrolment and a completed relay authentication guarantee, which exceptions
  they can end with, and what they leave behind when they fail.
\<close>

section \<open>Concrete handshakes for the witnesses\<close>

definition demo_uuid :: string where
  "demo_uuid = ''01234567-89ab-cdef-0123-456789abcdef''"

definition demo_key :: string where "demo_key = replicate 43 (CHR ''A'')"
definition demo_sig :: string where "demo_sig = replicate 86 (CHR ''A'')"

definition demo_pairing :: store where
  "demo_pairing = run_steps (store_step demo_sha)
     [OpIssueToken ''tok'' ''dev-2'' ''read_only'' ''Desk'' 600 (seconds 100),
      OpCreateChallenge demo_uuid ''ch'' 120 (seconds 100)] empty_store"

definition demo_enrolment :: "(bytes \<Rightarrow> bytes \<Rightarrow> bytes \<Rightarrow> bool) \<Rightarrow> enrollment_reply res \<times> store" where
  "demo_enrolment edv = complete_enrollment demo_sha edv ''ev-1'' (seconds 110) demo_uuid ''ch'' ''dev-2'' ''tok''
     demo_key demo_sig ''linux'' demo_pairing"

definition demo_waiting :: store where
  "demo_waiting = run_steps (store_step demo_sha)
     [OpEnroll ''dev-2'' demo_key ''Desk'' ''read_only'' (seconds 100) ''linux'',
      OpCreateChallenge demo_uuid ''ch'' 120 (seconds 105)] empty_store"

definition demo_login :: "relay_identity res \<times> store" where
  "demo_login = authenticate_relay demo_sha (\<lambda>_ _ _. True) ''ev-2'' (seconds 110) demo_uuid ''ch'' ''dev-2'' ''i-1'' 3
     demo_sig ''gen-1'' [] demo_waiting"

lemma demo_pairing_inv: "store_inv demo_pairing"
  unfolding demo_pairing_def by (rule store_machine.run_inv) simp_all

lemma demo_enrolment_forged: "isl (fst (demo_enrolment (\<lambda>_ _ _. False)))"
  by code_simp

lemma demo_login_accepted: "\<not> isl (fst demo_login)"
  by code_simp

lemma not_islE: "\<not> isl (fst p) \<Longrightarrow> \<exists>r st'. p = (Inr r, st')"
  by (cases p; cases "fst p") auto

lemma islE: "isl (fst p) \<Longrightarrow> \<exists>e st'. p = (Inl e, st')"
  by (cases p; cases "fst p") auto

section \<open>Inversion\<close>

lemma token_error_None: "token_error s = None \<longleftrightarrow>
    s \<notin> {''invalid'', ''expired'', ''consumed'', ''connector_mismatch''}"
  by (auto simp: token_error_def)

text \<open>The token that \<open>consume_enrollment_token_detailed\<close> accepts.\<close>

definition usable_token :: "(bytes \<Rightarrow> string) \<Rightarrow> string \<Rightarrow> string \<Rightarrow> datetime \<Rightarrow> token_row \<Rightarrow> store \<Rightarrow> bool" where
  "usable_token sha raw c now row st =
     (tbl_get tk_token_hash (hash_opaque sha raw) (tokens st) = Some row
      \<and> tk_connector_id row = c \<and> tk_consumed_at row = None \<and> as_timestamp now < tk_expires_at row)"

definition usable_challenge :: "(bytes \<Rightarrow> string) \<Rightarrow> string \<Rightarrow> string \<Rightarrow> datetime \<Rightarrow> store \<Rightarrow> bool" where
  "usable_challenge sha i ch now st =
     (case tbl_get ch_challenge_id i (challenges st) of
        None \<Rightarrow> False
      | Some row \<Rightarrow> ch_consumed_at row = None \<and> as_timestamp now < ch_expires_at row
                     \<and> ch_challenge_hash row = hash_opaque sha ch)"

lemma consume_token_accepted:
  assumes "tbl_ok tk_token_hash (tokens st)"
    and "token_error (fst (fst (consume_enrollment_token_detailed sha raw c now st))) = None"
  shows "\<exists>row. usable_token sha raw c now row st
     \<and> fst (consume_enrollment_token_detailed sha raw c now st) = (''accepted'', Some row)"
  using assms by (auto simp: consume_token_cases token_error_def usable_token_def split: option.splits if_splits)

lemma consume_token_refused:
  "tbl_ok tk_token_hash (tokens st) \<Longrightarrow>
   token_error (fst (fst (consume_enrollment_token_detailed sha raw c now st))) \<noteq> None \<Longrightarrow>
   snd (consume_enrollment_token_detailed sha raw c now st) = st"
  by (auto simp: consume_token_cases token_error_def split: option.splits if_splits)

lemma consume_challenge_iff: "fst (consume_challenge sha i ch now st) \<longleftrightarrow> usable_challenge sha i ch now st"
  by (auto simp: consume_challenge_def Let_def usable_challenge_def split: option.split)

lemma consume_challenge_refused:
  "\<not> usable_challenge sha i ch now st \<Longrightarrow> consume_challenge sha i ch now st = (False, st)"
  by (auto simp: consume_challenge_def Let_def usable_challenge_def split: option.split)

lemma consume_challenge_spends:
  assumes "usable_challenge sha i ch now st"
  shows "challenge_spent i (snd (consume_challenge sha i ch now st))"
  using challenge_shot.hit_spends [where sha = sha and i = i and c = "OpConsumeChallenge i ch now" and s = st] assms
  by (simp add: consume_challenge_iff)

lemma append_audit_keeps:
  "devices (snd (append_audit ev a rc pr c rq d t st)) = devices st"
  "instances (snd (append_audit ev a rc pr c rq d t st)) = instances st"
  "tokens (snd (append_audit ev a rc pr c rq d t st)) = tokens st"
  "challenges (snd (append_audit ev a rc pr c rq d t st)) = challenges st"
  by (simp_all add: devices_unchanged instances_unchanged tokens_unchanged challenges_unchanged)

lemma get_device_cong: "devices st = devices st' \<Longrightarrow> get_device c st = get_device c st'"
  by (simp add: get_device_def)

section \<open>Registration\<close>

definition enrolled_row :: "string \<Rightarrow> string \<Rightarrow> token_row \<Rightarrow> string list \<Rightarrow> string \<Rightarrow> timestamp \<Rightarrow> device_row" where
  "enrolled_row c key tok caps platform t =
     \<lparr>dv_connector_id = c, dv_public_key = key, dv_display_label = tk_display_label tok,
      dv_capability_profile = tk_capability_profile tok, dv_capabilities_json = caps, dv_platform = platform,
      dv_enrollment_state = Enrolled, dv_enrolled_at = t, dv_revoked_at = None, dv_updated_at = t\<rparr>"

lemma bindA_apply: "bindA m f st =
    (case fst (m st) of Inl e \<Rightarrow> (Inl e, snd (m st)) | Inr x \<Rightarrow> f x (snd (m st)))"
  by (simp add: bindA_def split: prod.split sum.split)

text \<open>The registration, with its four ways to fail.\<close>

lemma register_device_eq:
  "register_device sha ev now c key platform tok st =
     (case get_device c st of
        Some d \<Rightarrow> (Inl (already_enrolled_error (Some d)), st)
      | None \<Rightarrow>
          (case capabilities_for_profile (tk_capability_profile tok) of
             Inl e \<Rightarrow> (Inl e, st)
           | Inr caps \<Rightarrow>
               let st1 = st\<lparr>devices := tbl_insert (enrolled_row c key tok caps platform (as_timestamp now)) (devices st)\<rparr>
               in case public_key_fingerprint sha key of
                    Inl e \<Rightarrow> (Inl e, st1)
                  | Inr fp \<Rightarrow>
                      let au = append_audit ev ''device.enrolled'' ''ok'' None (Some c) None
                                 [(''capability_profile'', JStr (tk_capability_profile tok)),
                                  (''public_key_fingerprint'', JStr fp)] now st1
                      in case fst au of
                           Inl e \<Rightarrow> (Inl e, snd au)
                         | Inr _ \<Rightarrow> (Inr \<lparr>er_connector_id = c, er_capability_profile = tk_capability_profile tok,
                                          er_capabilities = caps\<rparr>, snd au)))"
proof (cases "get_device c st")
  case (Some d)
  then show ?thesis by (simp add: register_device_def)
next
  case None
  show ?thesis
  proof (cases "capabilities_for_profile (tk_capability_profile tok)")
    case (Inl e)
    with None show ?thesis by (simp add: register_device_def bindA_apply enroll_device_def readA_def)
  next
    case (Inr caps)
    have "enroll_device c key (tk_display_label tok) (tk_capability_profile tok) now platform st = (Inr True,
        st\<lparr>devices := tbl_insert (enrolled_row c key tok caps platform (as_timestamp now)) (devices st)\<rparr>)"
      using None Inr by (simp add: enroll_device_def Let_def enrolled_row_def)
    with None Inr show ?thesis
      by (cases "public_key_fingerprint sha key")
        (simp_all add: register_device_def bindA_apply readA_def liftA_def Let_def split: sum.split)
  qed
qed

lemma register_device_success:
  assumes "fst (register_device sha ev now c key platform tok st) = Inr r"
  shows "\<exists>caps. capabilities_for_profile (tk_capability_profile tok) = Inr caps
     \<and> r = \<lparr>er_connector_id = c, er_capability_profile = tk_capability_profile tok, er_capabilities = caps\<rparr>
     \<and> get_device c st = None
     \<and> devices (snd (register_device sha ev now c key platform tok st))
         = tbl_insert (enrolled_row c key tok caps platform (as_timestamp now)) (devices st)"
  using assms
  by (auto simp: register_device_eq Let_def append_audit_keeps split: option.splits sum.splits)

lemma register_device_tables:
  "tokens (snd (register_device sha ev now c key platform tok st)) = tokens st"
  "challenges (snd (register_device sha ev now c key platform tok st)) = challenges st"
  by (simp_all add: register_device_eq Let_def append_audit_keeps split: option.split sum.split)

section \<open>Enrolment\<close>

text \<open>The store after both one-time secrets of an enrolment have been spent.\<close>

definition spent_store ::
    "(bytes \<Rightarrow> string) \<Rightarrow> string \<Rightarrow> string \<Rightarrow> string \<Rightarrow> string \<Rightarrow> datetime \<Rightarrow> store \<Rightarrow> store" where
  "spent_store sha token c i ch now st =
     snd (consume_challenge sha i ch now (snd (consume_enrollment_token_detailed sha token c now st)))"

lemma spent_store_devices: "devices (spent_store sha token c i ch now st) = devices st"
  by (simp add: spent_store_def devices_unchanged)

lemma usable_challenge_cong: "challenges st = challenges st' \<Longrightarrow>
    usable_challenge sha i ch now st = usable_challenge sha i ch now st'"
  by (simp add: usable_challenge_def)

lemma complete_enrollment_success:
  assumes ok: "tbl_ok tk_token_hash (tokens st)"
    and inr: "fst (complete_enrollment sha edv ev now i ch connector token key sig platform st) = Inr r"
  shows "\<exists>c pf tok payload. parse_connector_id (JStr connector) = Inr c
     \<and> validate_platform (JStr platform) = Inr pf
     \<and> usable_token sha token c now tok st \<and> usable_challenge sha i ch now st
     \<and> enrollment_payload i ch c token key = Inr payload
     \<and> verify_ed25519 edv key payload sig = Inr ()
     \<and> fst (register_device sha ev now c key pf tok (spent_store sha token c i ch now st)) = Inr r
     \<and> snd (complete_enrollment sha edv ev now i ch connector token key sig platform st)
         = snd (register_device sha ev now c key pf tok (spent_store sha token c i ch now st))"
proof -
  obtain c where c: "parse_connector_id (JStr connector) = Inr c"
    using inr by (cases "parse_connector_id (JStr connector)") (simp_all add: complete_enrollment_def)
  obtain pf where pf: "validate_platform (JStr platform) = Inr pf"
    using inr c by (cases "validate_platform (JStr platform)") (simp_all add: complete_enrollment_def)
  let ?tk = "consume_enrollment_token_detailed sha token c now st"
  have none: "token_error (fst (fst ?tk)) = None"
    using inr c pf by (cases "token_error (fst (fst ?tk))") (simp_all add: complete_enrollment_def split_beta)
  then obtain tok where tok: "usable_token sha token c now tok st" and acc: "fst ?tk = (''accepted'', Some tok)"
    using consume_token_accepted [OF ok] by blast
  have acc': "token_error ''accepted'' = None" using none acc by simp
  have ch: "usable_challenge sha i ch now (snd ?tk)"
    using inr c pf acc acc'
    by (cases "fst (consume_challenge sha i ch now (snd ?tk))")
      (simp_all add: complete_enrollment_def split_beta consume_challenge_iff)
  then have fst_ch: "fst (consume_challenge sha i ch now (snd ?tk))" by (simp add: consume_challenge_iff)
  obtain payload where payload: "enrollment_payload i ch c token key = Inr payload"
    using inr c pf acc acc' fst_ch
    by (cases "enrollment_payload i ch c token key") (simp_all add: complete_enrollment_def split_beta)
  have sig: "\<not> isl (verify_ed25519 edv key payload sig)"
    using inr c pf acc acc' fst_ch payload
    by (cases "isl (verify_ed25519 edv key payload sig)") (simp_all add: complete_enrollment_def split_beta)
  then have "verify_ed25519 edv key payload sig = Inr ()"
    by (cases "verify_ed25519 edv key payload sig") simp_all
  moreover have "complete_enrollment sha edv ev now i ch connector token key sig platform st
      = register_device sha ev now c key pf tok (spent_store sha token c i ch now st)"
    using c pf acc acc' fst_ch payload sig by (simp add: complete_enrollment_def split_beta spent_store_def)
  moreover have "usable_challenge sha i ch now st"
    using ch usable_challenge_cong [of "snd ?tk" st] by (simp add: challenges_unchanged)
  ultimately show ?thesis using inr c pf tok payload by auto
qed

text \<open>
  C7. A completed enrolment is authorised and bound: the token and the challenge were valid and
  are now spent, the key that is stored signed exactly this challenge, connector and token, the
  connector was not enrolled before, and the new device has the label and the profile of the
  token and exactly the capabilities of that profile.
\<close>

theorem complete_enrollment_sound:
  assumes inv: "store_inv st"
    and fin: "complete_enrollment sha edv ev now i ch connector token key sig platform st = (Inr r, st')"
  shows "\<exists>c pf tok caps payload.
      parse_connector_id (JStr connector) = Inr c \<and> validate_platform (JStr platform) = Inr pf
    \<and> usable_token sha token c now tok st \<and> token_spent sha token st'
    \<and> usable_challenge sha i ch now st \<and> challenge_spent i st'
    \<and> enrollment_payload i ch c token key = Inr payload \<and> verify_ed25519 edv key payload sig = Inr ()
    \<and> get_device c st = None
    \<and> capabilities_for_profile (tk_capability_profile tok) = Inr caps
    \<and> get_device c st' = Some (enrolled_row c key tok caps pf (as_timestamp now))
    \<and> r = \<lparr>er_connector_id = c, er_capability_profile = tk_capability_profile tok, er_capabilities = caps\<rparr>"
proof -
  have ok: "tbl_ok tk_token_hash (tokens st)" using inv by (simp add: store_inv_def keys_ok_def)
  have inr: "fst (complete_enrollment sha edv ev now i ch connector token key sig platform st) = Inr r"
    by (simp add: fin)
  obtain c pf tok payload where c: "parse_connector_id (JStr connector) = Inr c"
    "validate_platform (JStr platform) = Inr pf"
    and tok: "usable_token sha token c now tok st" and ch: "usable_challenge sha i ch now st"
    and sig: "enrollment_payload i ch c token key = Inr payload" "verify_ed25519 edv key payload sig = Inr ()"
    and reg: "fst (register_device sha ev now c key pf tok (spent_store sha token c i ch now st)) = Inr r"
    and st': "st' = snd (register_device sha ev now c key pf tok (spent_store sha token c i ch now st))"
    using complete_enrollment_success [OF ok inr] fin by auto
  obtain caps where caps: "capabilities_for_profile (tk_capability_profile tok) = Inr caps"
    and r: "r = \<lparr>er_connector_id = c, er_capability_profile = tk_capability_profile tok, er_capabilities = caps\<rparr>"
    and new: "get_device c (spent_store sha token c i ch now st) = None"
    and dev: "devices st' = tbl_insert (enrolled_row c key tok caps pf (as_timestamp now)) (devices st)"
    using register_device_success [OF reg] st' by (auto simp: spent_store_devices)
  have new': "get_device c st = None" using new by (simp add: get_device_def spent_store_devices)
  let ?st1 = "snd (consume_enrollment_token_detailed sha token c now st)"
  have "token_spent sha token ?st1"
    using token_shot.hit_spends [where sha = sha and raw = token and c = "OpConsumeToken token c now" and s = st]
      tok ok by (auto simp: usable_token_def consume_token_cases)
  moreover have "usable_challenge sha i ch now ?st1"
    using ch usable_challenge_cong [of ?st1 st] by (simp add: challenges_unchanged)
  then have "challenge_spent i (spent_store sha token c i ch now st)"
    unfolding spent_store_def by (rule consume_challenge_spends)
  ultimately have "token_spent sha token st'" "challenge_spent i st'"
    by (simp_all add: st' token_spent_def challenge_spent_def register_device_tables)
      (simp add: spent_store_def tokens_unchanged)
  moreover have "get_device c st' = Some (enrolled_row c key tok caps pf (as_timestamp now))"
    using new' dev by (simp add: get_device_def enrolled_row_def)
  ultimately show ?thesis using c tok ch sig new' caps r by blast
qed

definition demo_token :: token_row where
  "demo_token = \<lparr>tk_token_hash = ''tok'', tk_connector_id = ''dev-2'', tk_capability_profile = ''read_only'',
     tk_display_label = ''Desk'', tk_expires_at = 700, tk_consumed_at = None, tk_created_at = 100\<rparr>"

lemma demo_enrolment_accepted: "\<not> isl (fst (demo_enrolment (\<lambda>_ _ _. True)))"
proof -
  let ?edv = "\<lambda>_ _ _. True"
  let ?tk = "consume_enrollment_token_detailed demo_sha ''tok'' ''dev-2'' (seconds 110) demo_pairing"
  let ?sp = "spent_store demo_sha ''tok'' ''dev-2'' demo_uuid ''ch'' (seconds 110) demo_pairing"
  have c: "parse_connector_id (JStr ''dev-2'') = Inr ''dev-2''" by code_simp
  have pf: "validate_platform (JStr ''linux'') = Inr ''linux''" by code_simp
  have tok: "fst ?tk = (''accepted'', Some demo_token)" by code_simp
  have ch: "fst (consume_challenge demo_sha demo_uuid ''ch'' (seconds 110) (snd ?tk))" by code_simp
  have "\<not> isl (enrollment_payload demo_uuid ''ch'' ''dev-2'' ''tok'' demo_key)" by code_simp
  then obtain payload where payload: "enrollment_payload demo_uuid ''ch'' ''dev-2'' ''tok'' demo_key = Inr payload"
    by (cases "enrollment_payload demo_uuid ''ch'' ''dev-2'' ''tok'' demo_key") auto
  have key: "\<not> isl (parse_public_key (JStr demo_key))" "\<not> isl (parse_signature (JStr demo_sig))" by code_simp+
  then obtain pk sg where pk: "parse_public_key (JStr demo_key) = Inr pk" "parse_signature (JStr demo_sig) = Inr sg"
    by (cases "parse_public_key (JStr demo_key)"; cases "parse_signature (JStr demo_sig)") auto
  then have "verify_ed25519 ?edv demo_key payload demo_sig = Inr ()" by (simp add: verify_ed25519_def)
  then have run: "demo_enrolment ?edv
      = register_device demo_sha ''ev-1'' (seconds 110) ''dev-2'' demo_key ''linux'' demo_token ?sp"
    using c pf tok ch payload
    by (simp add: demo_enrolment_def complete_enrollment_def split_beta token_error_def spent_store_def)
  have "\<not> isl (capabilities_for_profile ''read_only'')" by code_simp
  then obtain caps where "capabilities_for_profile (tk_capability_profile demo_token) = Inr caps"
    by (cases "capabilities_for_profile ''read_only''") (auto simp: demo_token_def)
  moreover have "get_device ''dev-2'' ?sp = None" "tbl_get au_event_id ''ev-1'' (audit ?sp) = None" by code_simp+
  ultimately show ?thesis
    using pk by (simp add: run register_device_eq Let_def public_key_fingerprint_def append_audit_def)
qed

theorem complete_enrollment_sound_witness:
  "token_spent demo_sha ''tok'' (snd (demo_enrolment (\<lambda>_ _ _. True)))
   \<and> challenge_spent demo_uuid (snd (demo_enrolment (\<lambda>_ _ _. True)))"
proof -
  obtain r st' where fin: "demo_enrolment (\<lambda>_ _ _. True) = (Inr r, st')"
    using not_islE [OF demo_enrolment_accepted] by blast
  from complete_enrollment_sound [OF demo_pairing_inv fin [unfolded demo_enrolment_def]]
  show ?thesis by (auto simp: fin)
qed

text \<open>The exceptions that a failed enrolment can end with.\<close>

definition enrollment_errors :: "exn list" where
  "enrollment_errors = map AgentError
     [''enrollment_token_invalid'', ''enrollment_token_expired'', ''enrollment_token_consumed'',
      ''connector_id_mismatch'', ''invalid_challenge'', ''enrollment_signature_invalid'',
      ''device_revoked'', ''device_already_enrolled'']"

lemma token_error_values: "token_error s = Some m \<Longrightarrow> AgentError m \<in> set enrollment_errors"
  by (auto simp: token_error_def enrollment_errors_def split: if_splits)

lemma already_enrolled_error_values: "already_enrolled_error d \<in> set enrollment_errors"
  by (simp add: already_enrolled_error_def enrollment_errors_def split: option.split)

lemma fixed_enrollment_errors:
  "AgentError ''enrollment_token_invalid'' \<in> set enrollment_errors"
  "AgentError ''invalid_challenge'' \<in> set enrollment_errors"
  "AgentError ''enrollment_signature_invalid'' \<in> set enrollment_errors"
  by (simp_all add: enrollment_errors_def)

lemma parse_errors:
  "parse_connector_id v = Inl e \<Longrightarrow> \<exists>m. e = ProtocolError m"
  "parse_instance_id v = Inl e \<Longrightarrow> \<exists>m. e = ProtocolError m"
  "validate_platform v = Inl e \<Longrightarrow> \<exists>m. e = ProtocolError m"
  "validate_display_label v = Inl e \<Longrightarrow> \<exists>m. e = ProtocolError m"
  "parse_uuid v f = Inl e \<Longrightarrow> \<exists>m. e = ProtocolError m"
  by (auto simp: parse_connector_id_def parse_instance_id_def validate_platform_def validate_display_label_def
      parse_uuid_def Let_def split: if_splits option.splits)

lemma enrollment_payload_error: "enrollment_payload i ch c token key = Inl e \<Longrightarrow> \<exists>m. e = ProtocolError m"
  by (auto simp: enrollment_payload_def bindR_eq_Inl dest: parse_errors)

lemma verify_ed25519_key: "verify_ed25519 edv key payload sig = Inr u \<Longrightarrow> \<exists>pk. parse_public_key (JStr key) = Inr pk"
  by (auto simp: verify_ed25519_def split: sum.splits)

lemma capabilities_error: "capabilities_for_profile p = Inl e \<longleftrightarrow> e = KeyError \<and> map_of CAPABILITIES_BY_PROFILE p = None"
  by (auto simp: capabilities_for_profile_def split: option.split)

lemma register_device_failure:
  assumes "fst (register_device sha ev now c key platform tok st) = Inl e"
    and "parse_public_key (JStr key) = Inr pk" and "tbl_get au_event_id ev (audit st) = None"
  shows "(e \<in> set enrollment_errors \<or> e = KeyError \<and> map_of CAPABILITIES_BY_PROFILE (tk_capability_profile tok) = None)
     \<and> snd (register_device sha ev now c key platform tok st) = st"
proof (cases "get_device c st")
  case (Some d)
  with assms(1) already_enrolled_error_values [of "Some d"] show ?thesis by (auto simp: register_device_eq)
next
  case None
  show ?thesis
  proof (cases "capabilities_for_profile (tk_capability_profile tok)")
    case (Inl e')
    then have "e' = KeyError \<and> map_of CAPABILITIES_BY_PROFILE (tk_capability_profile tok) = None"
      by (simp only: capabilities_error)
    with assms(1) None Inl show ?thesis by (simp add: register_device_eq)
  next
    case (Inr caps)
    with assms None show ?thesis
      by (simp add: register_device_eq Let_def public_key_fingerprint_def append_audit_def)
  qed
qed

lemma audit_unchanged:
  "audit (snd (consume_enrollment_token_detailed sha raw c t st)) = audit st"
  "audit (snd (consume_challenge sha i ch t st)) = audit st"
  "audit (snd (upsert_presence c i g e caps t st)) = audit st"
  by (simp_all add: consume_enrollment_token_detailed_def consume_challenge_def upsert_presence_def Let_def
      split: option.split sum.split)

lemma spent_store_tables:
  "instances (spent_store sha token c i ch now st) = instances st"
  "audit (spent_store sha token c i ch now st) = audit st"
  by (simp_all add: spent_store_def instances_unchanged audit_unchanged)

text \<open>What is left of an enrolment once its token was accepted.\<close>

abbreviation after_token where
  "after_token sha edv ev now i ch token key sig c pf tok \<equiv>
     bindA (callA (consume_challenge sha i ch now)) (\<lambda>consumed.
       if \<not> consumed then raiseA (AgentError ''invalid_challenge'')
       else bindA (liftA (enrollment_payload i ch c token key)) (\<lambda>payload.
       if isl (verify_ed25519 edv key payload sig) then raiseA (AgentError ''enrollment_signature_invalid'')
       else register_device sha ev now c key pf tok))"

lemma after_token_failure:
  assumes fin: "after_token sha edv ev now i ch token key sig c pf tok st = (Inl e, st')"
    and fresh: "tbl_get au_event_id ev (audit st) = None"
  shows "devices st' = devices st \<and> instances st' = instances st \<and> audit st' = audit st
    \<and> (e \<in> set enrollment_errors \<or> (\<exists>m. e = ProtocolError m)
       \<or> e = KeyError \<and> map_of CAPABILITIES_BY_PROFILE (tk_capability_profile tok) = None)"
proof -
  let ?st = "snd (consume_challenge sha i ch now st)"
  note tables = devices_unchanged instances_unchanged audit_unchanged fixed_enrollment_errors
  consider (refused) "\<not> fst (consume_challenge sha i ch now st)"
    | (payload) e' where "fst (consume_challenge sha i ch now st)" "enrollment_payload i ch c token key = Inl e'"
    | (signature) p e' where "fst (consume_challenge sha i ch now st)" "enrollment_payload i ch c token key = Inr p"
        "verify_ed25519 edv key p sig = Inl e'"
    | (signed) p u where "fst (consume_challenge sha i ch now st)" "enrollment_payload i ch c token key = Inr p"
        "verify_ed25519 edv key p sig = Inr u"
    by (metis sumE)
  then show ?thesis
  proof cases
    case signed
    then obtain pk where pk: "parse_public_key (JStr key) = Inr pk" using verify_ed25519_key by blast
    have reg: "register_device sha ev now c key pf tok ?st = (Inl e, st')" using fin signed by simp
    then have "fst (register_device sha ev now c key pf tok ?st) = Inl e" by simp
    from register_device_failure [OF this pk] fresh reg show ?thesis by (auto simp: tables)
  qed (use fin in \<open>auto simp: tables dest: enrollment_payload_error\<close>)
qed

text \<open>
  C17. A failed enrolment registers nothing: devices, instances and the audit trail are as
  before, and the exception is one of the published refusals, a rejected field, or a KeyError,
  the last only for a token whose capability profile does not exist.
\<close>

theorem complete_enrollment_failure:
  assumes inv: "store_inv st" and fresh: "tbl_get au_event_id ev (audit st) = None"
    and fin: "complete_enrollment sha edv ev now i ch connector token key sig platform st = (Inl e, st')"
  shows "devices st' = devices st \<and> instances st' = instances st \<and> audit st' = audit st
    \<and> (e \<in> set enrollment_errors \<or> (\<exists>m. e = ProtocolError m)
       \<or> e = KeyError \<and> (\<exists>c tok. usable_token sha token c now tok st
                             \<and> map_of CAPABILITIES_BY_PROFILE (tk_capability_profile tok) = None))"
proof (cases "parse_connector_id (JStr connector)")
  case (Inl e')
  with fin show ?thesis by (auto simp: complete_enrollment_def dest: parse_errors)
next
  case c: (Inr c)
  show ?thesis
  proof (cases "validate_platform (JStr platform)")
    case (Inl e')
    with fin c show ?thesis by (auto simp: complete_enrollment_def dest: parse_errors)
  next
    case pf: (Inr pf)
    have ok: "tbl_ok tk_token_hash (tokens st)" using inv by (simp add: store_inv_def keys_ok_def)
    let ?tk = "consume_enrollment_token_detailed sha token c now st"
    show ?thesis
    proof (cases "token_error (fst (fst ?tk))")
      case (Some m)
      then have "snd ?tk = st" using consume_token_refused [OF ok] by simp
      with fin c pf Some token_error_values [OF Some] show ?thesis
        by (auto simp: complete_enrollment_def split_beta)
    next
      case None
      then obtain tok where tok: "usable_token sha token c now tok st" and acc: "fst ?tk = (''accepted'', Some tok)"
        using consume_token_accepted [OF ok] by blast
      have "token_error ''accepted'' = None" using None acc by simp
      then have "after_token sha edv ev now i ch token key sig c pf tok (snd ?tk) = (Inl e, st')"
        using fin c pf acc by (simp add: complete_enrollment_def split_beta)
      from after_token_failure [OF this] fresh tok show ?thesis
        by (auto simp: devices_unchanged instances_unchanged audit_unchanged)
    qed
  qed
qed

theorem complete_enrollment_failure_witness:
  "devices (snd (demo_enrolment (\<lambda>_ _ _. False))) = devices demo_pairing"
proof -
  obtain e st' where fin: "demo_enrolment (\<lambda>_ _ _. False) = (Inl e, st')"
    using islE [OF demo_enrolment_forged] by blast
  have "tbl_get au_event_id ''ev-1'' (audit demo_pairing) = None" by code_simp
  from complete_enrollment_failure [OF demo_pairing_inv this fin [unfolded demo_enrolment_def]]
  show ?thesis by (simp add: fin)
qed

text \<open>
  A token can be issued for a capability profile that does not exist, since \<open>issue_token\<close> does
  not validate it. The enrolment with that token then spends the token and the challenge and
  ends with a \<open>KeyError\<close> that none of the relay's handlers catches.
\<close>

theorem unknown_profile_burns_token:
  assumes inv: "store_inv st" and c: "parse_connector_id (JStr connector) = Inr c"
    and pf: "validate_platform (JStr platform) = Inr pf"
    and tok: "usable_token sha token c now tok st" and ch: "usable_challenge sha i ch now st"
    and payload: "enrollment_payload i ch c token key = Inr payload"
    and sig: "verify_ed25519 edv key payload sig = Inr ()"
    and new: "get_device c st = None" and unknown: "map_of CAPABILITIES_BY_PROFILE (tk_capability_profile tok) = None"
  shows "fst (complete_enrollment sha edv ev now i ch connector token key sig platform st) = Inl KeyError
     \<and> token_spent sha token (snd (complete_enrollment sha edv ev now i ch connector token key sig platform st))"
proof -
  have ok: "tbl_ok tk_token_hash (tokens st)" using inv by (simp add: store_inv_def keys_ok_def)
  let ?tk = "consume_enrollment_token_detailed sha token c now st"
  have acc: "fst ?tk = (''accepted'', Some tok)"
    using tok ok by (auto simp: usable_token_def consume_token_cases)
  have "usable_challenge sha i ch now (snd ?tk)"
    using ch usable_challenge_cong [of "snd ?tk" st] by (simp add: challenges_unchanged)
  then have "fst (consume_challenge sha i ch now (snd ?tk))" by (simp add: consume_challenge_iff)
  then have run: "complete_enrollment sha edv ev now i ch connector token key sig platform st
      = register_device sha ev now c key pf tok (spent_store sha token c i ch now st)"
    using c pf acc payload sig by (simp add: complete_enrollment_def split_beta spent_store_def token_error_def)
  have "capabilities_for_profile (tk_capability_profile tok) = Inl KeyError"
    using unknown by (simp add: capabilities_error)
  moreover have "get_device c (spent_store sha token c i ch now st) = None"
    using new by (simp add: get_device_def spent_store_devices)
  ultimately have "register_device sha ev now c key pf tok (spent_store sha token c i ch now st)
      = (Inl KeyError, spent_store sha token c i ch now st)"
    by (simp add: register_device_eq)
  moreover have "token_spent sha token (snd ?tk)"
    using token_shot.hit_spends [where sha = sha and raw = token and c = "OpConsumeToken token c now" and s = st]
      acc by simp
  ultimately show ?thesis
    by (simp add: run token_spent_def spent_store_def tokens_unchanged)
qed

section \<open>Relay authentication\<close>

lemma authenticate_relay_success:
  assumes inr: "fst (authenticate_relay sha edv ev now i ch connector inst e sig g caps st) = Inr r"
  shows "\<exists>c n d payload. parse_connector_id (JStr connector) = Inr c \<and> parse_instance_id (JStr inst) = Inr n
     \<and> usable_challenge sha i ch now st
     \<and> get_device c st = Some d \<and> dv_enrollment_state d = Enrolled
     \<and> relay_auth_payload i ch c n e = Inr payload
     \<and> verify_ed25519 edv (dv_public_key d) payload sig = Inr ()
     \<and> (let st1 = snd (consume_challenge sha i ch now st); up = upsert_presence c n g e caps now st1
        in fst up = Inr True
           \<and> r = \<lparr>ri_connector_id = c, ri_instance_id = n, ri_context_epoch = e,
                  ri_connection_generation = g, ri_capabilities = caps\<rparr>
           \<and> snd (authenticate_relay sha edv ev now i ch connector inst e sig g caps st)
               = snd (append_audit ev ''device.online'' ''ok'' None (Some c) None [(''instance_id'', JStr n)] now (snd up)))"
proof -
  obtain c where c: "parse_connector_id (JStr connector) = Inr c"
    using inr by (cases "parse_connector_id (JStr connector)") (simp_all add: authenticate_relay_def)
  obtain n where n: "parse_instance_id (JStr inst) = Inr n"
    using inr c by (cases "parse_instance_id (JStr inst)") (simp_all add: authenticate_relay_def)
  have ch: "fst (consume_challenge sha i ch now st)"
    using inr c n by (cases "fst (consume_challenge sha i ch now st)") (simp_all add: authenticate_relay_def)
  let ?st1 = "snd (consume_challenge sha i ch now st)"
  have same: "get_device c ?st1 = get_device c st" by (simp add: get_device_def devices_unchanged)
  obtain d where d: "get_device c st = Some d"
    using inr c n ch same by (cases "get_device c st") (simp_all add: authenticate_relay_def)
  have enr: "dv_enrollment_state d = Enrolled"
    using inr c n ch same d
    by (cases "dv_enrollment_state d") (simp_all add: authenticate_relay_def)
  obtain payload where payload: "relay_auth_payload i ch c n e = Inr payload"
    using inr c n ch same d enr
    by (cases "relay_auth_payload i ch c n e") (simp_all add: authenticate_relay_def)
  have sig: "\<not> isl (verify_ed25519 edv (dv_public_key d) payload sig)"
    using inr c n ch same d enr payload
    by (cases "isl (verify_ed25519 edv (dv_public_key d) payload sig)") (simp_all add: authenticate_relay_def)
  let ?up = "upsert_presence c n g e caps now ?st1"
  have run: "authenticate_relay sha edv ev now i ch connector inst e sig g caps st
      = bindA (upsert_presence c n g e caps now) (\<lambda>accepted.
         if \<not> accepted then raiseA (AgentError ''capabilities_not_granted'')
         else bindA (append_audit ev ''device.online'' ''ok'' None (Some c) None [(''instance_id'', JStr n)] now) (\<lambda>_.
         returnA \<lparr>ri_connector_id = c, ri_instance_id = n, ri_context_epoch = e,
                  ri_connection_generation = g, ri_capabilities = caps\<rparr>)) ?st1"
    using c n ch same d enr payload sig by (simp add: authenticate_relay_def)
  have up: "fst ?up = Inr True"
    using inr unfolding run by (cases "fst ?up") (auto simp: bindA_apply split: if_splits)
  then have "r = \<lparr>ri_connector_id = c, ri_instance_id = n, ri_context_epoch = e,
                  ri_connection_generation = g, ri_capabilities = caps\<rparr>
      \<and> snd (authenticate_relay sha edv ev now i ch connector inst e sig g caps st)
          = snd (append_audit ev ''device.online'' ''ok'' None (Some c) None [(''instance_id'', JStr n)] now (snd ?up))"
    using inr unfolding run by (auto simp: bindA_apply split: sum.splits)
  moreover have "verify_ed25519 edv (dv_public_key d) payload sig = Inr ()"
    using sig by (cases "verify_ed25519 edv (dv_public_key d) payload sig") simp_all
  ultimately show ?thesis
    using c n ch d enr payload up by (auto simp: consume_challenge_iff Let_def)
qed

lemma upsert_presence_row:
  assumes "fst (upsert_presence c n g e caps now st) = Inr True"
  shows "tbl_get in_instance_id n (instances (snd (upsert_presence c n g e caps now st)))
     = Some (presence_row c n g e (as_timestamp now))"
proof (cases "tbl_get in_instance_id n (instances st)")
  case None
  with assms show ?thesis by (simp add: upsert_presence_writes presence_row_def)
next
  case (Some old)
  then have "in_instance_id old = n" by (rule tbl_get_key)
  with assms Some show ?thesis
    by (simp add: upsert_presence_writes presence_upd.get_update presence_row_def set_presence_def)
qed

text \<open>The device and the instance row as an authentication leaves them.\<close>

lemma authenticate_relay_leaves:
  assumes "fst (authenticate_relay sha edv ev now i ch connector inst e sig g caps st) = Inr r"
  shows "\<exists>d. get_device (ri_connector_id r) (snd (authenticate_relay sha edv ev now i ch connector inst e sig g caps st)) = Some d
     \<and> dv_enrollment_state d = Enrolled
     \<and> tbl_get in_instance_id (ri_instance_id r)
          (instances (snd (authenticate_relay sha edv ev now i ch connector inst e sig g caps st)))
        = Some (presence_row (ri_connector_id r) (ri_instance_id r) g e (as_timestamp now))"
  using authenticate_relay_success [OF assms] upsert_presence_row
  by (auto simp: Let_def get_device_def devices_unchanged instances_unchanged)

text \<open>
  C9. A relay session is authenticated: the device was enrolled and not revoked, the key stored
  for it signed this challenge together with connector, instance and epoch, the challenge was
  valid and is now spent, the capabilities are within the device's profile, and the instance row
  is online under the new generation from this moment on.
\<close>

theorem authenticate_relay_sound:
  assumes fin: "authenticate_relay sha edv ev now i ch connector inst e sig g caps st = (Inr r, st')"
  shows "\<exists>c n d payload stored row.
      parse_connector_id (JStr connector) = Inr c \<and> parse_instance_id (JStr inst) = Inr n
    \<and> usable_challenge sha i ch now st \<and> challenge_spent i st'
    \<and> get_device c st = Some d \<and> dv_enrollment_state d = Enrolled
    \<and> relay_auth_payload i ch c n e = Inr payload \<and> verify_ed25519 edv (dv_public_key d) payload sig = Inr ()
    \<and> capabilities_for_profile (dv_capability_profile d) = Inr stored \<and> set caps \<subseteq> set stored \<and> 0 \<le> e
    \<and> tbl_get in_instance_id n (instances st') = Some row
    \<and> row = presence_row c n g e (as_timestamp now)
    \<and> r = \<lparr>ri_connector_id = c, ri_instance_id = n, ri_context_epoch = e,
           ri_connection_generation = g, ri_capabilities = caps\<rparr>"
proof -
  have inr: "fst (authenticate_relay sha edv ev now i ch connector inst e sig g caps st) = Inr r"
    by (simp add: fin)
  let ?st1 = "snd (consume_challenge sha i ch now st)"
  from authenticate_relay_success [OF inr] obtain c n d payload where
    c: "parse_connector_id (JStr connector) = Inr c" "parse_instance_id (JStr inst) = Inr n"
    and ch: "usable_challenge sha i ch now st"
    and d: "get_device c st = Some d" "dv_enrollment_state d = Enrolled"
    and sig: "relay_auth_payload i ch c n e = Inr payload" "verify_ed25519 edv (dv_public_key d) payload sig = Inr ()"
    and up: "fst (upsert_presence c n g e caps now ?st1) = Inr True"
    and r: "r = \<lparr>ri_connector_id = c, ri_instance_id = n, ri_context_epoch = e,
                  ri_connection_generation = g, ri_capabilities = caps\<rparr>"
    and st': "st' = snd (append_audit ev ''device.online'' ''ok'' None (Some c) None [(''instance_id'', JStr n)] now
                      (snd (upsert_presence c n g e caps now ?st1)))"
    using fin by (auto simp: Let_def)
  have same: "get_device c ?st1 = get_device c st" by (simp add: get_device_def devices_unchanged)
  obtain stored where caps: "capabilities_for_profile (dv_capability_profile d) = Inr stored"
    "set caps \<subseteq> set stored" "0 \<le> e"
    using up d same by (auto simp: upsert_presence_accepted)
  have "challenge_spent i st'"
    using consume_challenge_spends [OF ch] by (simp add: st' challenge_spent_def challenges_unchanged)
  moreover have "tbl_get in_instance_id n (instances st') = Some (presence_row c n g e (as_timestamp now))"
    using upsert_presence_row [OF up] by (simp add: st' instances_unchanged)
  ultimately show ?thesis using c ch d sig caps r by blast
qed

theorem authenticate_relay_sound_witness: "challenge_spent demo_uuid (snd demo_login)"
proof -
  obtain r st' where fin: "demo_login = (Inr r, st')"
    using not_islE [OF demo_login_accepted] by blast
  from authenticate_relay_sound [OF fin [unfolded demo_login_def]] show ?thesis by (auto simp: fin)
qed

lemma runs_from_challenge_spent: "runs_from sha A st st' \<Longrightarrow> challenge_spent i st \<Longrightarrow> challenge_spent i st'"
  by (auto simp: runs_from_def intro!: challenge_shot.spent.run_inv)

interpretation spent_machine: invariant_machine "service_step sha edv stale" "\<lambda>_. True" "challenge_spent i"
  for sha edv stale i
  by unfold_locales (rule runs_from_challenge_spent [OF service_step_runs])

lemma spent_not_usable: "challenge_spent i st \<Longrightarrow> \<not> usable_challenge sha i ch now st"
  by (auto simp: challenge_spent_def usable_challenge_def split: option.splits)

text \<open>
  A handshake cannot be replayed: after an authentication, and any further operations of the
  service, a message that answers the same challenge again, with whatever else in it, is refused
  and changes nothing.
\<close>

theorem authenticate_relay_no_replay:
  assumes fin: "authenticate_relay sha edv ev now i ch connector inst e sig g caps st = (Inr r, st1)"
    and st2: "st2 = run_steps (service_step sha edv stale) sops st1"
  shows "\<exists>x. authenticate_relay sha edv ev' now' i ch' connector' inst' e' sig' g' caps' st2 = (Inl x, st2)"
proof -
  have "challenge_spent i st1" using authenticate_relay_sound [OF fin] by blast
  then have "challenge_spent i st2" unfolding st2 by (rule spent_machine.run_inv [rotated]) simp
  then have "consume_challenge sha i ch' now' st2 = (False, st2)"
    by (rule consume_challenge_refused [OF spent_not_usable])
  then show ?thesis
    by (cases "parse_connector_id (JStr connector')"; cases "parse_instance_id (JStr inst')")
      (simp_all add: authenticate_relay_def)
qed

theorem authenticate_relay_no_replay_witness:
  "\<exists>x. authenticate_relay demo_sha (\<lambda>_ _ _. True) ''ev-3'' (seconds 115) demo_uuid ''ch'' ''dev-2'' ''i-1'' 3
      demo_sig ''gen-2'' [] (snd demo_login) = (Inl x, snd demo_login)"
proof -
  obtain r st' where fin: "demo_login = (Inr r, st')"
    using not_islE [OF demo_login_accepted] by blast
  have "snd demo_login = run_steps (service_step demo_sha (\<lambda>_ _ _. True) 75) [] st'" by (simp add: fin)
  from authenticate_relay_no_replay [OF fin [unfolded demo_login_def] this] show ?thesis .
qed

end
