(* ===== verification/Relay.thy ===== *)
theory Relay
  imports Handshake "HOL-Library.AList"
begin

text \<open>
  \<open>remote_agent_connector/relay.py\<close>: session objects, their pending futures, the registry that
  maps a connector to its current session, and what the endpoint does with the messages of a
  device. Session objects and futures are shared and mutable, so they live in explicit stores
  and are named by references; \<open>is\<close> is equality of references. The registry's lock is never
  held across a suspension point, so each of its methods is one step.
\<close>

section \<open>State\<close>

datatype future_state = FPending | FResult fields | FError exn | FCancelled

record session =
  se_connector_id :: string
  se_instance_id :: string
  se_context_epoch :: int
  se_connection_generation :: string
  se_capabilities :: "string list"
  se_capability_profile :: string
  se_pending :: "(string \<times> nat) list"

text \<open>The key of the collision guard: connector, tool, digest of the arguments.\<close>

type_synonym guard_key = "string \<times> string \<times> string"

record hub =
  hb_store :: store
  hb_heap :: "nat \<Rightarrow> session option"
  hb_next_session :: nat
  hb_attached :: bool
  hb_sessions :: "string \<Rightarrow> nat option"
  hb_futures :: "nat \<Rightarrow> future_state option"
  hb_next_future :: nat
  hb_in_flight :: "guard_key \<Rightarrow> string option"

definition future_done :: "future_state \<Rightarrow> bool" where
  "future_done f = (f \<noteq> FPending)"

definition has_capability :: "session \<Rightarrow> string \<Rightarrow> bool" where
  "has_capability s capability = (capability \<in> set (se_capabilities s))"

definition new_session :: "session \<Rightarrow> hub \<Rightarrow> nat \<times> hub" where
  "new_session s h = (hb_next_session h,
     h\<lparr>hb_heap := (hb_heap h)(hb_next_session h \<mapsto> s), hb_next_session := Suc (hb_next_session h)\<rparr>)"

definition new_future :: "hub \<Rightarrow> nat \<times> hub" where
  "new_future h = (hb_next_future h,
     h\<lparr>hb_futures := (hb_futures h)(hb_next_future h \<mapsto> FPending), hb_next_future := Suc (hb_next_future h)\<rparr>)"

section \<open>Session and registry\<close>

definition fail_pending :: "nat \<Rightarrow> hub \<Rightarrow> hub" where
  "fail_pending ref h =
     (case hb_heap h ref of
        None \<Rightarrow> h
      | Some s \<Rightarrow> h\<lparr>
          hb_futures := (\<lambda>f. if f \<in> snd ` set (se_pending s) \<and> hb_futures h f = Some FPending
                             then Some (FError (AgentError ''device_offline'')) else hb_futures h f),
          hb_heap := (hb_heap h)(ref \<mapsto> s\<lparr>se_pending := []\<rparr>)\<rparr>)"

definition register :: "nat \<Rightarrow> hub \<Rightarrow> hub" where
  "register ref h =
     (case hb_heap h ref of
        None \<Rightarrow> h
      | Some s \<Rightarrow>
          let h' = (case hb_sessions h (se_connector_id s) of None \<Rightarrow> h | Some existing \<Rightarrow> fail_pending existing h)
          in h'\<lparr>hb_sessions := (hb_sessions h')(se_connector_id s \<mapsto> ref)\<rparr>)"

definition same_generation :: "nat \<Rightarrow> nat \<Rightarrow> hub \<Rightarrow> bool" where
  "same_generation a b h =
     (map_option se_connection_generation (hb_heap h a) = map_option se_connection_generation (hb_heap h b))"

definition remove :: "nat \<Rightarrow> hub \<Rightarrow> bool \<times> hub" where
  "remove ref h =
     (case hb_heap h ref of
        None \<Rightarrow> (False, h)
      | Some s \<Rightarrow>
          (case hb_sessions h (se_connector_id s) of
             Some current \<Rightarrow>
               if current = ref \<and> same_generation current ref h
               then (True, fail_pending ref (h\<lparr>hb_sessions := (hb_sessions h)(se_connector_id s := None)\<rparr>))
               else (False, fail_pending ref h)
           | None \<Rightarrow> (False, fail_pending ref h)))"

definition get_exact :: "string \<Rightarrow> string \<Rightarrow> hub \<Rightarrow> nat option" where
  "get_exact connector_id instance_id h =
     (case hb_sessions h connector_id of
        None \<Rightarrow> None
      | Some ref \<Rightarrow>
          (case hb_heap h ref of
             None \<Rightarrow> None
           | Some s \<Rightarrow> if se_instance_id s \<noteq> instance_id then None else Some ref))"

section \<open>Messages of a session\<close>

definition require_keys :: "fields \<Rightarrow> string list \<Rightarrow> string list \<Rightarrow> unit res" where
  "require_keys value required optional =
     (if \<not> set required \<subseteq> keys value \<or> keys value - set required - set optional \<noteq> {}
      then Inl (ProtocolError ''relay message contains unsupported fields'')
      else Inr ())"

text \<open>\<open>{**d, k: v}\<close> for any key, and \<open>{**d, **e}\<close>.\<close>

definition put :: "string \<Rightarrow> json \<Rightarrow> fields \<Rightarrow> fields" where
  "put k v d = (if k \<in> keys d then fld_set k v d else d @ [(k, v)])"

definition merge_fields :: "fields \<Rightarrow> fields \<Rightarrow> fields" where
  "merge_fields d e = foldl (\<lambda>acc (k, v). put k v acc) d e"

definition response_result :: "json \<Rightarrow> json \<Rightarrow> fields" where
  "response_result status payload =
     (if status = JStr ''ok''
      then (case payload of
              JObj p \<Rightarrow> merge_fields [(''code'', JStr ''ok'')] p
            | _ \<Rightarrow> [(''code'', JStr ''ok''), (''result'', payload)])
      else [(''code'', JStr ''device_error''), (''error'', payload)])"

text \<open>\<open>status not in {"ok", "error"}\<close> hashes the status: a list or an object raises \<open>TypeError\<close>.\<close>

definition check_status :: "json \<Rightarrow> unit res" where
  "check_status status =
     (case status of
        JList _ \<Rightarrow> Inl TypeError
      | JObj _ \<Rightarrow> Inl TypeError
      | _ \<Rightarrow> if status = JStr ''ok'' \<or> status = JStr ''error'' then Inr ()
             else Inl (ProtocolError ''relay response status is invalid''))"

definition receive_response :: "nat \<Rightarrow> fields \<Rightarrow> hub \<Rightarrow> unit res \<times> hub" where
  "receive_response ref message h =
     (case hb_heap h ref of
        None \<Rightarrow> (Inl KeyError, h)
      | Some s \<Rightarrow>
          (case require_keys message [''v'', ''type'', ''request_id'', ''tool'', ''connector_id'', ''status'', ''result''] [] of
             Inl e \<Rightarrow> (Inl e, h)
           | Inr _ \<Rightarrow>
               if \<not> eq_int (fld message ''v'') PROTOCOL_VERSION
                  \<or> fld message ''connector_id'' \<noteq> JStr (se_connector_id s)
               then (Inl (ProtocolError ''relay response is unsupported''), h)
               else (case map_of (se_pending s) (or_empty (fld message ''request_id'')) of
                       None \<Rightarrow> (Inl (ProtocolError ''relay response has no matching request''), h)
                     | Some f \<Rightarrow>
                         if hb_futures h f \<noteq> Some FPending
                         then (Inl (ProtocolError ''relay response has no matching request''), h)
                         else (case check_status (fld message ''status'') of
                                 Inl e \<Rightarrow> (Inl e, h)
                               | Inr _ \<Rightarrow> (Inr (), h\<lparr>hb_futures := (hb_futures h)
                                     (f \<mapsto> FResult (response_result (fld message ''status'') (fld message ''result'')))\<rparr>)))))"

text \<open>
  The epoch of a heartbeat as the comparisons and the integer column see it: a fractional number
  counts as its integer part, and anything but a number raises \<open>TypeError\<close>.
\<close>

definition epoch_of :: "json \<Rightarrow> int option" where
  "epoch_of v = map_option floor (num_value v)"

text \<open>
  One message of the serving loop. A heartbeat with an epoch that is not a number is compared
  with the stored one only when the row is online under this generation.
\<close>

definition serve_message :: "nat \<Rightarrow> datetime \<Rightarrow> fields \<Rightarrow> hub \<Rightarrow> unit res \<times> hub" where
  "serve_message ref now message h =
     (case hb_heap h ref of
        None \<Rightarrow> (Inl KeyError, h)
      | Some s \<Rightarrow>
          if fld message ''type'' = JStr ''heartbeat''
          then (case require_keys message [''v'', ''type'', ''context_epoch''] [] of
                  Inl e \<Rightarrow> (Inl e, h)
                | Inr _ \<Rightarrow>
                    if \<not> eq_int (fld message ''v'') PROTOCOL_VERSION
                    then (Inl (ProtocolError ''relay protocol version is unsupported''), h)
                    else (case epoch_of (fld message ''context_epoch'') of
                            None \<Rightarrow>
                              (case find (\<lambda>r. in_instance_id r = se_instance_id s \<and> in_state r = Online)
                                      (instances (hb_store h)) of
                                 Some row \<Rightarrow> if in_connection_generation row = se_connection_generation s
                                             then (Inl TypeError, h) else (Inl (AgentError ''stale_connection''), h)
                               | None \<Rightarrow> (Inl (AgentError ''stale_connection''), h))
                          | Some epoch \<Rightarrow>
                              (case service_heartbeat (se_instance_id s) (se_connection_generation s) epoch now (hb_store h) of
                                 (Inl e, st) \<Rightarrow> (Inl e, h\<lparr>hb_store := st\<rparr>)
                               | (Inr _, st) \<Rightarrow> (Inr (), h\<lparr>hb_store := st,
                                   hb_heap := (hb_heap h)(ref \<mapsto>
                                     s\<lparr>se_context_epoch := max (se_context_epoch s) epoch\<rparr>)\<rparr>))))
          else if fld message ''type'' = JStr ''response'' then receive_response ref message h
          else (Inl (ProtocolError ''relay message type is unsupported''), h))"

text \<open>
  \<open>_receive_message\<close>: the size limit counts UTF-8 bytes; \<open>loads\<close> is the JSON parser, without a
  value where it raises.
\<close>

definition receive_message :: "(string \<Rightarrow> json option) \<Rightarrow> string \<Rightarrow> fields res" where
  "receive_message loads txt =
     (if RELAY_MAX_MESSAGE_BYTES < int (length (utf8_encode txt))
      then Inl (ProtocolError ''relay message is too large'')
      else case loads txt of
             None \<Rightarrow> Inl (ProtocolError ''relay message is not valid JSON'')
           | Some (JObj d) \<Rightarrow> Inr d
           | Some _ \<Rightarrow> Inl (ProtocolError ''relay message must be an object''))"

section \<open>Opening and closing a session\<close>

text \<open>\<open>scheme\<close> is the scope's scheme, \<open>forwarded\<close> the header \<open>x-forwarded-proto\<close> or empty.\<close>

definition is_secure_connection :: "string option \<Rightarrow> string \<Rightarrow> bool \<Rightarrow> bool" where
  "is_secure_connection scheme forwarded trust_proxy_tls =
     (scheme = Some ''wss'' \<or> (trust_proxy_tls \<and> py_lower (py_strip forwarded) = ''https''))"

text \<open>The session object of an authenticated device, with the capabilities of its profile.\<close>

definition session_of :: "relay_identity \<Rightarrow> store \<Rightarrow> session res" where
  "session_of identity st =
     (case get_device (ri_connector_id identity) st of
        None \<Rightarrow> Inl TypeError
      | Some device \<Rightarrow>
          bindR (capabilities_for_profile (dv_capability_profile device)) (\<lambda>capabilities.
          Inr \<lparr>se_connector_id = ri_connector_id identity, se_instance_id = ri_instance_id identity,
               se_context_epoch = ri_context_epoch identity,
               se_connection_generation = ri_connection_generation identity,
               se_capabilities = capabilities, se_capability_profile = dv_capability_profile device,
               se_pending = []\<rparr>))"

text \<open>
  \<open>_authenticate_session\<close>: the message must repeat the challenge of this connection. Fields that
  are not strings reach the parsers as their \<open>str\<close>, so they are passed on as that text;
  \<open>context_epoch\<close> is the message's epoch, an integer as the service's annotation has it.
\<close>

definition authenticate_session ::
    "(bytes \<Rightarrow> string) \<Rightarrow> (bytes \<Rightarrow> bytes \<Rightarrow> bytes \<Rightarrow> bool) \<Rightarrow> string \<Rightarrow> datetime \<Rightarrow> string \<Rightarrow> string
     \<Rightarrow> string \<Rightarrow> fields \<Rightarrow> int \<Rightarrow> session act" where
  "authenticate_session sha edv event_id now challenge_id challenge connection_generation message context_epoch =
     bindA (liftA (require_keys message
        [''v'', ''type'', ''challenge_id'', ''challenge'', ''connector_id'', ''instance_id'', ''context_epoch'', ''signature''] []))
       (\<lambda>_.
     if \<not> eq_int (fld message ''v'') PROTOCOL_VERSION
        \<or> fld message ''type'' \<noteq> JStr ''authenticate''
        \<or> fld message ''challenge_id'' \<noteq> JStr challenge_id
        \<or> fld message ''challenge'' \<noteq> JStr challenge
     then raiseA (ProtocolError ''relay authentication message is invalid'')
     else bindA (authenticate_relay sha edv event_id now challenge_id challenge
              (or_empty (fld message ''connector_id'')) (or_empty (fld message ''instance_id'')) context_epoch
              (or_empty (fld message ''signature'')) connection_generation []) (\<lambda>identity.
          bindA (readA (session_of identity)) liftA))"

text \<open>The \<open>finally\<close> block of the endpoint.\<close>

definition close_session :: "nat \<Rightarrow> bool \<Rightarrow> datetime \<Rightarrow> hub \<Rightarrow> hub" where
  "close_session ref registered now h =
     (case hb_heap h ref of
        None \<Rightarrow> h
      | Some s \<Rightarrow>
          let (removed, h') = remove ref h
          in if removed \<or> \<not> registered
             then h'\<lparr>hb_store := snd (disconnect_relay (se_instance_id s) (se_connection_generation s) now (hb_store h'))\<rparr>
             else h')"

end
