(* ===== verification/Ledger.thy ===== *)
theory Ledger
  imports StoreInv
begin

text \<open>
  The idempotency ledger of \<open>agent_requests\<close>. Its specification is a finite map from
  (connector, client, idempotency key) to the request that claimed the key, its digest and its
  result once it has one. The table refines that map, and the facts the command path relies on
  are proved once for any implementation that does.
\<close>

section \<open>The abstract ledger\<close>

type_synonym ledger_entry = "string \<times> string \<times> json option"
type_synonym ledger = "request_key \<Rightarrow> ledger_entry option"

text \<open>What a claim by request \<open>rid\<close> with digest \<open>dg\<close> is told, given the entry before it.\<close>

fun spec_outcome :: "ledger_entry option \<Rightarrow> string \<Rightarrow> string \<Rightarrow> claim_outcome" where
  "spec_outcome None rid dg = New"
| "spec_outcome (Some (r0, d0, res)) rid dg =
     (if r0 = rid then New
      else if d0 \<noteq> dg then Conflict
      else case res of None \<Rightarrow> PendingClaim | Some j \<Rightarrow> Replay j)"

fun ledger_step :: "store_op \<Rightarrow> ledger \<Rightarrow> ledger" where
  "ledger_step (OpClaim c cl k rid tool dg t) l =
     (if l (c, cl, k) = None then l((c, cl, k) \<mapsto> (rid, dg, None)) else l)"
| "ledger_step (OpComplete c cl k ok j t) l =
     (case l (c, cl, k) of
        Some (r, d, None) \<Rightarrow> l((c, cl, k) \<mapsto> (r, d, Some (json_sorted j)))
      | _ \<Rightarrow> l)"
| "ledger_step op l = l"

fun claims_key :: "request_key \<Rightarrow> store_op \<Rightarrow> bool" where
  "claims_key key (OpClaim c cl k rid tool dg t) = ((c, cl, k) = key)"
| "claims_key key op = False"

fun completes_key :: "request_key \<Rightarrow> store_op \<Rightarrow> bool" where
  "completes_key key (OpComplete c cl k ok j t) = ((c, cl, k) = key)"
| "completes_key key op = False"

text \<open>The request ids that claim a key in a run, in order.\<close>

fun claim_ids :: "request_key \<Rightarrow> store_op list \<Rightarrow> string list" where
  "claim_ids key [] = []"
| "claim_ids key (OpClaim c cl k rid tool dg t # ops) =
     (if (c, cl, k) = key then rid # claim_ids key ops else claim_ids key ops)"
| "claim_ids key (op # ops) = claim_ids key ops"

text \<open>A claim of the key that is told to execute the command.\<close>

fun told_new :: "('s \<Rightarrow> ledger) \<Rightarrow> request_key \<Rightarrow> store_op \<Rightarrow> 's \<Rightarrow> bool" where
  "told_new view key (OpClaim c cl k rid tool dg t) s =
     ((c, cl, k) = key \<and> spec_outcome (view s key) rid dg = New)"
| "told_new view key op s = False"

lemma spec_outcome_New: "spec_outcome e rid dg = New \<longleftrightarrow> (case e of None \<Rightarrow> True | Some (r0, _) \<Rightarrow> r0 = rid)"
  by (cases "(e, rid, dg)" rule: spec_outcome.cases) (auto split: option.split)

lemma ledger_step_other:
  "\<not> claims_key key op \<Longrightarrow> \<not> completes_key key op \<Longrightarrow> ledger_step op l key = l key"
  by (cases op) (auto split: option.split)

lemma ledger_step_claimed:
  "l key = Some (r, d, res) \<Longrightarrow> \<exists>res'. ledger_step op l key = Some (r, d, res')"
  by (cases op) (auto split: option.split)

lemma ledger_step_pending:
  "l key = Some (r, d, None) \<Longrightarrow> \<not> completes_key key op \<Longrightarrow> ledger_step op l key = Some (r, d, None)"
  by (cases op) (auto split: option.split)

lemma ledger_step_done: "l key = Some (r, d, Some j) \<Longrightarrow> ledger_step op l key = Some (r, d, Some j)"
  by (cases op) (auto split: option.split)

section \<open>The contract and its consequences\<close>

locale ledger_impl =
  fixes view :: "'s \<Rightarrow> ledger"
    and step :: "store_op \<Rightarrow> 's \<Rightarrow> 's"
    and outcome :: "request_key \<Rightarrow> string \<Rightarrow> string \<Rightarrow> 's \<Rightarrow> claim_outcome"
  assumes view_step: "view (step op s) = ledger_step op (view s)"
    and view_outcome: "outcome key rid dg s = spec_outcome (view s key) rid dg"
begin

lemma run_other:
  "(\<And>op. op \<in> set ops \<Longrightarrow> \<not> claims_key key op \<and> \<not> completes_key key op) \<Longrightarrow>
   view (run_steps step ops s) key = view s key"
  by (induction ops arbitrary: s) (simp_all add: view_step ledger_step_other)

lemma run_pending:
  "view s key = Some (r, d, None) \<Longrightarrow> (\<And>op. op \<in> set ops \<Longrightarrow> \<not> completes_key key op) \<Longrightarrow>
   view (run_steps step ops s) key = Some (r, d, None)"
  by (induction ops arbitrary: s) (simp_all add: view_step ledger_step_pending)

lemma run_done:
  "view s key = Some (r, d, Some j) \<Longrightarrow> view (run_steps step ops s) key = Some (r, d, Some j)"
  by (induction ops arbitrary: s) (simp_all add: view_step ledger_step_done)

text \<open>Once a request holds the key, only its own id is told to execute.\<close>

lemma told_new_held:
  "view s key = Some (r, d, res) \<Longrightarrow>
   count_steps step (told_new view key) ops s = length (filter (\<lambda>x. x = r) (claim_ids key ops))"
proof (induction ops arbitrary: s res)
  case (Cons op ops)
  obtain res' where "view (step op s) key = Some (r, d, res')"
    using ledger_step_claimed [where l = "view s", OF Cons.prems] by (auto simp: view_step)
  from Cons.IH [OF this] Cons.prems show ?case
    by (cases op) (auto simp: spec_outcome_New simp del: spec_outcome.simps)
qed simp

lemma single_execution:
  "distinct (claim_ids key ops) \<Longrightarrow> count_steps step (told_new view key) ops s \<le> 1"
proof (induction ops arbitrary: s)
  case (Cons op ops)
  show ?case
  proof (cases "view s key")
    case (Some e)
    obtain r d res where "view s key = Some (r, d, res)" using Some by (cases e) auto
    then have "count_steps step (told_new view key) (op # ops) s
        = length (filter (\<lambda>x. x = r) (claim_ids key (op # ops)))"
      by (rule told_new_held)
    also have "\<dots> \<le> 1"
      by (rule length_filter_eq_distinct [OF Cons.prems])
    finally show ?thesis .
  next
    case None
    show ?thesis
    proof (cases "claims_key key op")
      case False
      with Cons show ?thesis by (cases op) auto
    next
      case True
      then obtain c cl k rid tool dg t where op: "op = OpClaim c cl k rid tool dg t" and key: "(c, cl, k) = key"
        by (cases op) auto
      with None have "view (step op s) key = Some (rid, dg, None)" by (auto simp: view_step)
      from told_new_held [OF this] Cons.prems op key
      have "count_steps step (told_new view key) ops (step op s) = 0"
        by (auto simp: filter_empty_conv)
      with op show ?thesis by simp
    qed
  qed
qed simp

end

section \<open>The table refines the ledger\<close>

definition ledger_of :: "store \<Rightarrow> ledger" where
  "ledger_of st key =
     map_option (\<lambda>r. (rq_request_id r, rq_request_digest r,
         if rq_status r = Pending then None
         else Some (case rq_result r of Some j \<Rightarrow> j | None \<Rightarrow> JObj [])))
       (tbl_get rq_key key (requests st))"

definition claim_outcome_of :: "request_key \<Rightarrow> string \<Rightarrow> string \<Rightarrow> store \<Rightarrow> claim_outcome" where
  "claim_outcome_of key rid dg st =
     (case key of (c, cl, k) \<Rightarrow> fst (claim_request c cl k rid [] dg 0 st))"

text \<open>The tool name and the time of a claim do not influence its outcome.\<close>

lemma claim_outcome:
  "fst (claim_request c cl k rid tool dg t st) = spec_outcome (ledger_of st (c, cl, k)) rid dg"
  by (cases "tbl_get rq_key (c, cl, k) (requests st)")
    (auto simp: claim_request_def Let_def ledger_of_def rq_key_def split: option.split)

lemma requests_unchanged:
  "requests (snd (issue_enrollment_token sha raw c p l n t st)) = requests st"
  "requests (snd (consume_enrollment_token_detailed sha raw c t st)) = requests st"
  "requests (snd (create_challenge sha i ch n t st)) = requests st"
  "requests (snd (consume_challenge sha i ch t st)) = requests st"
  "requests (snd (enroll_device c k l p t pf st)) = requests st"
  "requests (update_display_label c l t st) = requests st"
  "requests (snd (revoke_device c t st)) = requests st"
  "requests (snd (delete_revoked_device c st)) = requests st"
  "requests (snd (upsert_presence c i g e caps t st)) = requests st"
  "requests (snd (heartbeat i g e t st)) = requests st"
  "requests (snd (disconnect_instance i g t st)) = requests st"
  "requests (snd (mark_stale_instances t st)) = requests st"
  "requests (snd (append_audit ev a rc pr co rq d t st)) = requests st"
  by (simp_all add: issue_enrollment_token_def consume_enrollment_token_detailed_def create_challenge_def
      consume_challenge_def enroll_device_def update_display_label_def revoke_device_def
      delete_revoked_device_def upsert_presence_def heartbeat_def disconnect_instance_def
      mark_stale_instances_def append_audit_def Let_def split: option.split sum.split)

lemma ledger_claim:
  "ledger_of (snd (claim_request c cl k rid tool dg t st)) =
     (if ledger_of st (c, cl, k) = None then (ledger_of st)((c, cl, k) \<mapsto> (rid, dg, None)) else ledger_of st)"
  by (rule ext) (auto simp: claim_request_def Let_def ledger_of_def rq_key_def split: option.split)

lemma ledger_complete:
  assumes "s \<noteq> Pending"
  shows "ledger_of (complete_request c cl k s j t st) =
     (case ledger_of st (c, cl, k) of
        Some (r, d, None) \<Rightarrow> (ledger_of st)((c, cl, k) \<mapsto> (r, d, Some (json_sorted j)))
      | _ \<Rightarrow> ledger_of st)"
proof (rule ext)
  fix key
  show "ledger_of (complete_request c cl k s j t st) key =
     (case ledger_of st (c, cl, k) of
        Some (r, d, None) \<Rightarrow> (ledger_of st)((c, cl, k) \<mapsto> (r, d, Some (json_sorted j)))
      | _ \<Rightarrow> ledger_of st) key"
  proof (cases "tbl_get rq_key key (requests st)")
    case None
    then show ?thesis
      by (auto simp: complete_request_def ledger_of_def complete_upd.get_update split: option.split)
  next
    case (Some r)
    then have "rq_key r = key" by (rule tbl_get_key)
    with Some assms show ?thesis
      by (auto simp: complete_request_def ledger_of_def complete_upd.get_update set_completed_def split: option.split)
  qed
qed

interpretation request_ledger: ledger_impl ledger_of "store_step sha" claim_outcome_of for sha
proof unfold_locales
  fix op st
  show "ledger_of (store_step sha op st) = ledger_step op (ledger_of st)"
    by (cases op) (simp_all add: ledger_claim ledger_complete ledger_of_def requests_unchanged fun_eq_iff
        split: option.split)
  fix key rid dg
  show "claim_outcome_of key rid dg st = spec_outcome (ledger_of st key) rid dg"
    by (cases key) (simp add: claim_outcome_of_def claim_outcome)
qed

section \<open>Properties\<close>

text \<open>
  C13. The table refines the ledger: under every sequence of store operations the entries follow
  the abstract steps, and every claim is answered as the abstract ledger answers it.
\<close>

theorem ledger_refinement:
  "ledger_of (run_steps (store_step sha) ops st) = run_steps ledger_step ops (ledger_of st)
   \<and> fst (claim_request c cl k rid tool dg t (run_steps (store_step sha) ops st))
       = spec_outcome (run_steps ledger_step ops (ledger_of st) (c, cl, k)) rid dg"
proof -
  have "ledger_of (run_steps (store_step sha) ops st) = run_steps ledger_step ops (ledger_of st)"
    by (induction ops arbitrary: st) (simp_all add: request_ledger.view_step)
  then show ?thesis by (simp add: claim_outcome)
qed

text \<open>
  At most one execution: in every run of the store in which the claims of a key carry
  distinct request ids, at most one of them is told to execute, whichever clients, connectors
  and completions are interleaved with them.
\<close>

theorem request_single_execution:
  assumes "distinct (claim_ids key ops)"
  shows "count_steps (store_step sha) (told_new ledger_of key) ops st \<le> 1"
  using assms by (rule request_ledger.single_execution)

theorem request_single_execution_witness:
  "count_steps (store_step demo_sha) (told_new ledger_of (''dev-1'', ''app'', ''k-1''))
     [OpClaim ''dev-1'' ''app'' ''k-1'' ''r-1'' ''files.write'' ''d'' 0,
      OpClaim ''dev-1'' ''app'' ''k-1'' ''r-2'' ''files.write'' ''d'' 0] demo_enrolled \<le> 1"
  by (rule request_single_execution) simp

text \<open>
  C18. A finished command is replayed, never run again: once a fresh claim has been completed, a
  later claim of the same key by another request with the same digest gets exactly the stored
  result, and with another digest a conflict, after any number of further operations.
\<close>

theorem completed_request_replayed:
  assumes "tbl_get rq_key (c, cl, k) (requests st) = None"
    and "\<forall>op \<in> set before. \<not> completes_key (c, cl, k) op"
    and s1: "s1 = run_steps (store_step sha) before (snd (claim_request c cl k rid tool dg t st))"
    and s2: "s2 = run_steps (store_step sha) after (complete_request c cl k (if ok then Completed else Failed) j t' s1)"
    and "rid' \<noteq> rid"
  shows "fst (claim_request c cl k rid' tool' dg' t'' s2) = (if dg' = dg then Replay (json_sorted j) else Conflict)"
proof -
  have "ledger_of (snd (claim_request c cl k rid tool dg t st)) (c, cl, k) = Some (rid, dg, None)"
    using assms(1) by (simp add: ledger_claim) (simp add: ledger_of_def)
  then have "ledger_of s1 (c, cl, k) = Some (rid, dg, None)"
    unfolding s1 using assms(2) by (intro request_ledger.run_pending) auto
  then have "ledger_of (complete_request c cl k (if ok then Completed else Failed) j t' s1) (c, cl, k)
      = Some (rid, dg, Some (json_sorted j))"
    by (simp add: ledger_complete)
  then have "ledger_of s2 (c, cl, k) = Some (rid, dg, Some (json_sorted j))"
    unfolding s2 by (rule request_ledger.run_done)
  with assms(5) show ?thesis by (simp add: claim_outcome)
qed

theorem completed_request_replayed_witness:
  "fst (claim_request ''dev-1'' ''app'' ''k-1'' ''r-2'' ''files.read'' ''d'' 9
      (complete_request ''dev-1'' ''app'' ''k-1'' Completed (JObj [(''code'', JStr ''ok'')]) 5
        (snd (claim_request ''dev-1'' ''app'' ''k-1'' ''r-1'' ''files.read'' ''d'' 1 demo_enrolled))))
   = Replay (JObj [(''code'', JStr ''ok'')])"
proof -
  have fresh: "tbl_get rq_key (''dev-1'', ''app'', ''k-1'') (requests demo_enrolled) = None" by code_simp
  have none: "\<forall>op \<in> set []. \<not> completes_key (''dev-1'', ''app'', ''k-1'') op" by simp
  have ids: "''r-2'' \<noteq> ''r-1''" by simp
  show ?thesis
    using completed_request_replayed [OF fresh none refl refl ids, where sha = demo_sha and after = "[]"
        and tool = "''files.read''" and tool' = "''files.read''" and dg = "''d''" and dg' = "''d''"
        and ok = True and j = "JObj [(''code'', JStr ''ok'')]" and t = 1 and t' = 5 and t'' = 9]
    by simp
qed

text \<open>
  Callers are isolated: the answer to a claim does not depend on anything done under another
  connector, client or idempotency key.
\<close>

theorem request_client_isolation:
  assumes "\<forall>op \<in> set ops. \<not> claims_key (c, cl, k) op \<and> \<not> completes_key (c, cl, k) op"
  shows "fst (claim_request c cl k rid tool dg t (run_steps (store_step sha) ops st))
     = fst (claim_request c cl k rid tool dg t st)"
  using assms by (simp add: claim_outcome request_ledger.run_other)

theorem request_client_isolation_witness:
  "fst (claim_request ''dev-1'' ''app'' ''k-1'' ''r-2'' ''files.read'' ''d'' 9
      (run_steps (store_step demo_sha)
        [OpClaim ''dev-1'' ''other'' ''k-1'' ''r-1'' ''files.read'' ''d'' 1,
         OpComplete ''dev-1'' ''other'' ''k-1'' True (JObj [(''secret'', JStr ''x'')]) 2] demo_enrolled))
   = fst (claim_request ''dev-1'' ''app'' ''k-1'' ''r-2'' ''files.read'' ''d'' 9 demo_enrolled)"
  by (rule request_client_isolation) simp

text \<open>
  What the claim does with a request id it has seen: the stored digest and the stored status are
  not looked at, so a repeated id is told to execute again, also after completion and also for a
  different intent.
\<close>

theorem repeated_request_id_executes_again:
  "ledger_of st (c, cl, k) = Some (rid, dg, res) \<Longrightarrow> fst (claim_request c cl k rid tool dg' t st) = New"
  by (simp add: claim_outcome)

end
