(* ===== verification/Dispatch.thy ===== *)
theory Dispatch
  imports Relay Ledger
begin

text \<open>
  The command path of \<open>remote_agent_connector/service.py\<close>: \<open>device_command\<close>, the collision guard
  and \<open>cancel_request\<close>. A command is a coroutine that gives up control twice, while its frame is
  written and while it waits for the device, so it is modelled as the three pieces of code
  between those points. Everything else that happens to the shared state in between is a step of
  its own in the theory \<open>System\<close>.
\<close>

section \<open>Operations over the shared state\<close>

type_synonym 'a hact = "hub \<Rightarrow> 'a res \<times> hub"

definition bindH :: "'a hact \<Rightarrow> ('a \<Rightarrow> 'b hact) \<Rightarrow> 'b hact" where
  "bindH m f h = (case m h of (Inl e, h') \<Rightarrow> (Inl e, h') | (Inr x, h') \<Rightarrow> f x h')"

definition liftH :: "'a res \<Rightarrow> 'a hact" where
  "liftH r h = (r, h)"

definition returnH :: "'a \<Rightarrow> 'a hact" where
  "returnH x h = (Inr x, h)"

definition raiseH :: "exn \<Rightarrow> 'a hact" where
  "raiseH e h = (Inl e, h)"

definition readH :: "(hub \<Rightarrow> 'a) \<Rightarrow> 'a hact" where
  "readH f h = (Inr (f h), h)"

definition callH :: "(hub \<Rightarrow> 'a \<times> hub) \<Rightarrow> 'a hact" where
  "callH f h = (Inr (fst (f h)), snd (f h))"

definition storeH :: "'a act \<Rightarrow> 'a hact" where
  "storeH m h = (fst (m (hb_store h)), h\<lparr>hb_store := snd (m (hb_store h))\<rparr>)"

section \<open>The collision guard\<close>

definition collision_key :: "(bytes \<Rightarrow> string) \<Rightarrow> string \<Rightarrow> string \<Rightarrow> fields \<Rightarrow> guard_key option" where
  "collision_key sha connector_id tool arguments =
     (if tool \<notin> set MUTATING_RELAY_TOOLS then None
      else Some (connector_id, tool, canonical_json_digest sha [(''arguments'', JObj arguments)]))"

definition acquire_collision_guard :: "guard_key option \<Rightarrow> string \<Rightarrow> unit hact" where
  "acquire_collision_guard key request_id h =
     (case key of
        None \<Rightarrow> (Inr (), h)
      | Some k \<Rightarrow> if hb_in_flight h k \<noteq> None then (Inl (AgentError ''command_in_flight''), h)
                  else (Inr (), h\<lparr>hb_in_flight := (hb_in_flight h)(k \<mapsto> request_id)\<rparr>))"

definition release_collision_guard :: "guard_key option \<Rightarrow> hub \<Rightarrow> hub" where
  "release_collision_guard key h =
     (case key of None \<Rightarrow> h | Some k \<Rightarrow> h\<lparr>hb_in_flight := (hb_in_flight h)(k := None)\<rparr>)"

section \<open>Starting a command\<close>

text \<open>The local variables of the coroutine that outlive its first piece.\<close>

record command =
  cm_client_id :: string
  cm_tool :: string
  cm_connector_id :: string
  cm_idempotency_key :: string
  cm_request_id :: string
  cm_request_digest :: string
  cm_session :: nat
  cm_future :: nat
  cm_collision_key :: "guard_key option"

datatype start = Replayed json | Started command json

text \<open>\<open>tool.replace(".", "_")\<close>.\<close>

definition tool_capability :: "string \<Rightarrow> string" where
  "tool_capability tool = map (\<lambda>c. if c = CHR ''.'' then CHR ''_'' else c) tool"

definition unix_seconds :: "datetime \<Rightarrow> int" where
  "unix_seconds t = (if 0 \<le> t then t div 1000000 else - ((- t) div 1000000))"

definition assertion_expired :: "fields \<Rightarrow> datetime \<Rightarrow> bool" where
  "assertion_expired a now = (case fld a ''expires_at'' of JInt n \<Rightarrow> n \<le> unix_seconds now | _ \<Rightarrow> False)"

definition requested_timeout :: "fields \<Rightarrow> json" where
  "requested_timeout arguments =
     (if ''timeout_s'' \<in> keys arguments then fld arguments ''timeout_s'' else fld arguments ''timeout_seconds'')"

definition timeout_too_long :: "fields \<Rightarrow> int \<Rightarrow> bool" where
  "timeout_too_long arguments request_timeout =
     (case requested_timeout arguments of JInt n \<Rightarrow> n > request_timeout | _ \<Rightarrow> False)"

definition request_id_of :: "delegated_identity \<Rightarrow> string \<Rightarrow> string" where
  "request_id_of identity drawn =
     (case di_app_assertion identity of
        None \<Rightarrow> drawn
      | Some a \<Rightarrow> if truthy (fld a ''request_id'') then py_str (fld a ''request_id'') else drawn)"

definition request_frame :: "delegated_identity \<Rightarrow> string \<Rightarrow> string \<Rightarrow> string \<Rightarrow> fields \<Rightarrow> string \<Rightarrow> json" where
  "request_frame identity request_id tool connector_id arguments idempotency_key =
     JObj ([(''v'', JInt 1), (''type'', JStr ''request''), (''request_id'', JStr request_id),
            (''tool'', JStr tool), (''connector_id'', JStr connector_id), (''arguments'', JObj arguments),
            (''idempotency_key'', JStr idempotency_key)]
           @ (if di_app_id identity \<noteq> []
              then [(''app_id'', JStr (di_app_id identity)),
                    (''app_assertion'',
                      case di_app_assertion identity of
                        Some a \<Rightarrow> JObj a
                      | None \<Rightarrow> JObj [(''source'', JStr ''hub-delegation-v4''), (''verified'', JBool True),
                                      (''client_id'', JStr (di_client_id identity))])]
              else []))"

definition put_pending :: "nat \<Rightarrow> string \<Rightarrow> nat \<Rightarrow> hub \<Rightarrow> hub" where
  "put_pending ref request_id f h =
     (case hb_heap h ref of
        None \<Rightarrow> h
      | Some s \<Rightarrow> h\<lparr>hb_heap := (hb_heap h)(ref \<mapsto> s\<lparr>se_pending := AList.update request_id f (se_pending s)\<rparr>)\<rparr>)"

definition pop_pending :: "nat \<Rightarrow> string \<Rightarrow> hub \<Rightarrow> hub" where
  "pop_pending ref request_id h =
     (case hb_heap h ref of
        None \<Rightarrow> h
      | Some s \<Rightarrow> h\<lparr>hb_heap := (hb_heap h)(ref \<mapsto> s\<lparr>se_pending := AList.delete request_id (se_pending s)\<rparr>)\<rparr>)"

text \<open>
  The connector's settings and the three clock readings of this piece: for the freshness of the
  instance, for the expiry of the assertion, and for the claim.
\<close>

record command_env =
  ce_sha :: "bytes \<Rightarrow> string"
  ce_stale_seconds :: int
  ce_request_timeout :: int
  ce_drawn_uuid :: string
  ce_now_route :: datetime
  ce_now_assert :: datetime
  ce_now_claim :: datetime

text \<open>Routing: the live instance of the device and the session that serves it.\<close>

definition route_command ::
    "command_env \<Rightarrow> string \<Rightarrow> string option \<Rightarrow> (instance_row \<times> nat \<times> session) hact" where
  "route_command env connector_id instance_id =
     bindH (storeH (relay_session (ce_stale_seconds env) (ce_now_route env) connector_id instance_id)) (\<lambda>session_row.
     case session_row of
       None \<Rightarrow> raiseH (AgentError ''device_offline'')
     | Some row \<Rightarrow> bindH (readH hb_attached) (\<lambda>attached.
         if \<not> attached then raiseH (AgentError ''relay_unavailable'')
         else bindH (readH (\<lambda>h. case get_exact connector_id (in_instance_id row) h of
                              None \<Rightarrow> None
                            | Some ref \<Rightarrow> map_option (\<lambda>s. (ref, s)) (hb_heap h ref))) (\<lambda>found.
         case found of
           None \<Rightarrow> raiseH (AgentError ''device_offline'')
         | Some (ref, s) \<Rightarrow> returnH (row, ref, s))))"

text \<open>Admission: the checks between the routing and the idempotency claim.\<close>

definition admit_command :: "command_env \<Rightarrow> delegated_identity \<Rightarrow> string \<Rightarrow> fields \<Rightarrow> session \<Rightarrow> unit hact" where
  "admit_command env identity tool arguments s =
     (if \<not> has_capability s (tool_capability tool) then raiseH (AgentError ''capability_not_granted'')
      else if (case di_app_assertion identity of None \<Rightarrow> False | Some a \<Rightarrow> assertion_expired a (ce_now_assert env))
      then raiseH (AgentError ''app_assertion_expired_at_dispatch'')
      else if timeout_too_long arguments (ce_request_timeout env)
      then raiseH (AgentError ''timeout_exceeds_relay_window'')
      else returnH ())"

definition digest_of_request :: "command_env \<Rightarrow> string \<Rightarrow> string \<Rightarrow> fields \<Rightarrow> instance_row \<Rightarrow> string" where
  "digest_of_request env connector_id tool arguments row =
     canonical_json_digest (ce_sha env)
       [(''connector_id'', JStr connector_id), (''tool'', JStr tool), (''arguments'', JObj arguments),
        (''instance_id'', JStr (in_instance_id row)), (''context_epoch'', JInt (in_context_epoch row))]"

text \<open>From the claim to the frame: the claim, the future, the guard, the pending entry.\<close>

definition claim_command ::
    "command_env \<Rightarrow> delegated_identity \<Rightarrow> string \<Rightarrow> string \<Rightarrow> fields \<Rightarrow> string \<Rightarrow> instance_row \<Rightarrow> nat \<Rightarrow> start hact" where
  "claim_command env identity tool connector_id arguments idempotency_key row ref =
     (let request_id = request_id_of identity (ce_drawn_uuid env);
          digest = digest_of_request env connector_id tool arguments row;
          key = collision_key (ce_sha env) connector_id tool arguments
      in bindH (storeH (callA (claim_request connector_id (di_client_id identity) idempotency_key request_id tool
                   digest (ce_now_claim env)))) (\<lambda>outcome.
         case outcome of
           Conflict \<Rightarrow> raiseH (AgentError ''idempotency_conflict'')
         | Replay j \<Rightarrow> returnH (Replayed j)
         | PendingClaim \<Rightarrow> raiseH (AgentError ''request_pending'')
         | New \<Rightarrow>
             bindH (callH new_future) (\<lambda>f.
             bindH (acquire_collision_guard key request_id) (\<lambda>_.
             bindH (callH (\<lambda>h. ((), put_pending ref request_id f h))) (\<lambda>_.
             returnH (Started
               \<lparr>cm_client_id = di_client_id identity, cm_tool = tool, cm_connector_id = connector_id,
                cm_idempotency_key = idempotency_key, cm_request_id = request_id, cm_request_digest = digest,
                cm_session = ref, cm_future = f, cm_collision_key = key\<rparr>
               (request_frame identity request_id tool connector_id arguments idempotency_key)))))))"

definition device_command ::
    "command_env \<Rightarrow> delegated_identity \<Rightarrow> string \<Rightarrow> string \<Rightarrow> fields \<Rightarrow> string \<Rightarrow> string option \<Rightarrow> start hact" where
  "device_command env identity tool connector_id arguments idempotency_key instance_id =
     bindH (liftH (parse_connector_id (JStr connector_id))) (\<lambda>connector_id.
     if (case di_app_assertion identity of
           None \<Rightarrow> False | Some a \<Rightarrow> fld a ''connector_id'' \<noteq> JStr connector_id)
     then raiseH (AgentError ''app_assertion_connector_mismatch'')
     else bindH (route_command env connector_id instance_id) (\<lambda>(row, ref, s).
          bindH (admit_command env identity tool arguments s) (\<lambda>_.
          claim_command env identity tool connector_id arguments idempotency_key row ref)))"

section \<open>Ending a command\<close>

text \<open>The \<open>finally\<close> block: every path out of the two waits runs it.\<close>

definition release_command :: "command \<Rightarrow> hub \<Rightarrow> hub" where
  "release_command cm h =
     release_collision_guard (cm_collision_key cm) (pop_pending (cm_session cm) (cm_request_id cm) h)"

definition complete_command :: "command \<Rightarrow> request_status \<Rightarrow> fields \<Rightarrow> datetime \<Rightarrow> hub \<Rightarrow> hub" where
  "complete_command cm status result now h =
     h\<lparr>hb_store := complete_request (cm_connector_id cm) (cm_client_id cm) (cm_idempotency_key cm)
                     status (JObj result) now (hb_store h)\<rparr>"

definition fail_command :: "string \<Rightarrow> command \<Rightarrow> datetime \<Rightarrow> fields hact" where
  "fail_command failure cm now h =
     (Inl (AgentError failure), release_command cm (complete_command cm Failed [(''code'', JStr failure)] now h))"

text \<open>
  How the write of the frame ends. After a write that took longer than the allowance an audit
  entry is added, inside the same \<open>try\<close>: if that raises, the command fails as if offline.
  The answer is the exception the command ends with, or \<open>None\<close> when it goes on to wait.
\<close>

datatype write_outcome = Written bool | WriteTimedOut | WriteFailed | WriteCancelled

definition audit_slow_delivery :: "string \<Rightarrow> datetime \<Rightarrow> command \<Rightarrow> string act" where
  "audit_slow_delivery event_id now cm =
     append_audit event_id (''relay.'' @ cm_tool cm) ''assertion_delivery_slow'' (Some (cm_client_id cm))
       (Some (cm_connector_id cm)) (Some (cm_request_id cm)) [] now"

definition ended :: "'a res \<times> hub \<Rightarrow> exn option \<times> hub" where
  "ended p = (case p of (Inl e, h) \<Rightarrow> (Some e, h) | (Inr _, h) \<Rightarrow> (None, h))"

definition after_write ::
    "write_outcome \<Rightarrow> string \<Rightarrow> datetime \<Rightarrow> datetime \<Rightarrow> command \<Rightarrow> hub \<Rightarrow> exn option \<times> hub" where
  "after_write outcome event_id t_audit t_fail cm h =
     (case outcome of
        Written slow \<Rightarrow>
          if \<not> slow then (None, h)
          else (let (r, h') = storeH (audit_slow_delivery event_id t_audit cm) h
                in if isl r then ended (fail_command ''device_offline'' cm t_fail h') else (None, h'))
      | WriteTimedOut \<Rightarrow> ended (fail_command ''device_timeout'' cm t_fail h)
      | WriteFailed \<Rightarrow> ended (fail_command ''device_offline'' cm t_fail h)
      | WriteCancelled \<Rightarrow> (Some CancelledError, release_command cm h))"

text \<open>The code after the \<open>try\<close>: the result is measured as JSON text, stored, audited, returned.\<close>

definition finish_command :: "string \<Rightarrow> datetime \<Rightarrow> datetime \<Rightarrow> command \<Rightarrow> fields \<Rightarrow> fields hact" where
  "finish_command event_id t_complete t_audit cm result h =
     (let h1 = release_command cm h
      in if RESULT_MAX_BYTES < int (length (utf8_encode (dumps False (JObj result))))
         then (Inl (AgentError ''result_too_large''),
               complete_command cm Failed [(''code'', JStr ''result_too_large'')] t_complete h1)
         else bindH (storeH (append_audit event_id (''mcp.'' @ cm_tool cm)
                       (if truthy (fld result ''code'') then py_str (fld result ''code'') else ''ok'')
                       (Some (cm_client_id cm)) (Some (cm_connector_id cm)) (Some (cm_request_id cm)) [] t_audit))
                (\<lambda>_. returnH result)
                (complete_command cm Completed result t_complete h1))"

text \<open>
  The wait ends because the future is done, because the relay window has passed while it was
  not, or because the task is cancelled. \<open>None\<close>: the wait cannot end this way in this state.
\<close>

datatype wait_end = FutureDone | WindowPassed | TaskCancelled

definition cancel_future :: "nat \<Rightarrow> hub \<Rightarrow> hub" where
  "cancel_future f h =
     (if hb_futures h f = Some FPending then h\<lparr>hb_futures := (hb_futures h)(f \<mapsto> FCancelled)\<rparr> else h)"

definition after_wait ::
    "wait_end \<Rightarrow> string \<Rightarrow> datetime \<Rightarrow> datetime \<Rightarrow> command \<Rightarrow> hub \<Rightarrow> (fields res \<times> hub) option" where
  "after_wait way event_id t1 t2 cm h =
     (case way of
        FutureDone \<Rightarrow>
          (case hb_futures h (cm_future cm) of
             Some (FResult r) \<Rightarrow> Some (finish_command event_id t1 t2 cm r h)
           | Some (FError e) \<Rightarrow> Some (fail_command ''device_offline'' cm t1 h)
           | Some FCancelled \<Rightarrow> Some (Inl CancelledError, release_command cm h)
           | Some FPending \<Rightarrow> None
           | None \<Rightarrow> None)
      | WindowPassed \<Rightarrow>
          if hb_futures h (cm_future cm) = Some FPending
          then Some (fail_command ''device_timeout'' cm t1 (cancel_future (cm_future cm) h)) else None
      | TaskCancelled \<Rightarrow> Some (Inl CancelledError, release_command cm (cancel_future (cm_future cm) h)))"

section \<open>Cancelling\<close>

text \<open>\<open>cancel_request\<close> up to the write of its frame, and after it.\<close>

definition cancel_request ::
    "int \<Rightarrow> datetime \<Rightarrow> string \<Rightarrow> string \<Rightarrow> (string \<times> string \<times> nat \<times> json) hact" where
  "cancel_request stale_seconds now connector_id request_id =
     bindH (liftH (parse_connector_id (JStr connector_id))) (\<lambda>connector_id.
     bindH (liftH (parse_uuid (JStr request_id) ''request_id'')) (\<lambda>request_id.
     bindH (storeH (relay_session stale_seconds now connector_id None)) (\<lambda>session_row.
     case session_row of
       None \<Rightarrow> raiseH (AgentError ''device_offline'')
     | Some row \<Rightarrow> bindH (readH hb_attached) (\<lambda>attached.
         if \<not> attached then raiseH (AgentError ''relay_unavailable'')
         else bindH (readH (\<lambda>h. case get_exact connector_id (in_instance_id row) h of
                              None \<Rightarrow> None | Some ref \<Rightarrow> hb_heap h ref)) (\<lambda>found.
         case found of
           None \<Rightarrow> raiseH (AgentError ''device_offline'')
         | Some s \<Rightarrow>
             (case map_of (se_pending s) request_id of
                None \<Rightarrow> raiseH (AgentError ''request_not_in_flight'')
              | Some f \<Rightarrow> bindH (liftH (build_cancel_frame connector_id request_id)) (\<lambda>frame.
                  returnH (connector_id, request_id, f, frame))))))))"

definition after_cancel_write :: "string \<Rightarrow> datetime \<Rightarrow> string \<Rightarrow> string \<Rightarrow> nat \<Rightarrow> unit hact" where
  "after_cancel_write event_id now connector_id request_id f h =
     (let h' = (if hb_futures h f = Some FPending
                then h\<lparr>hb_futures := (hb_futures h)(f \<mapsto> FResult [(''code'', JStr ''cancelled'')])\<rparr> else h)
      in bindH (storeH (append_audit event_id ''relay.cancel'' ''cancelled'' (Some ''operator'') (Some connector_id)
                  (Some request_id) [] now)) (\<lambda>_. returnH ()) h')"

section \<open>Sequencing lemmas\<close>

lemmas hact_defs = bindH_def liftH_def returnH_def raiseH_def readH_def callH_def storeH_def

lemma bindH_simps [simp]:
  "bindH (returnH x) f = f x"
  "bindH (raiseH e) f = raiseH e"
  "bindH (liftH (Inr x)) f = f x"
  "bindH (liftH (Inl e)) f = raiseH e"
  "bindH (readH g) f h = f (g h) h"
  "bindH (callH c) f h = f (fst (c h)) (snd (c h))"
  by (simp_all add: hact_defs fun_eq_iff)

lemma hact_apply [simp]: "raiseH e h = (Inl e, h)" "returnH x h = (Inr x, h)" "liftH r h = (r, h)"
  by (simp_all add: raiseH_def returnH_def liftH_def)

lemma bindH_apply: "bindH m f h =
    (case fst (m h) of Inl e \<Rightarrow> (Inl e, snd (m h)) | Inr x \<Rightarrow> f x (snd (m h)))"
  by (simp add: bindH_def split: prod.split sum.split)

lemma bindH_storeH: "bindH (storeH m) f h =
    (case fst (m (hb_store h)) of
       Inl e \<Rightarrow> (Inl e, h\<lparr>hb_store := snd (m (hb_store h))\<rparr>)
     | Inr x \<Rightarrow> f x (h\<lparr>hb_store := snd (m (hb_store h))\<rparr>))"
  by (simp add: bindH_apply storeH_def split: sum.split)

section \<open>Inversion of the start\<close>

lemma route_command_Inr:
  assumes "route_command env c inst h = (Inr (row, ref, s), h')"
  shows "fst (relay_session (ce_stale_seconds env) (ce_now_route env) c inst (hb_store h)) = Inr (Some row)
    \<and> h' = h\<lparr>hb_store := snd (relay_session (ce_stale_seconds env) (ce_now_route env) c inst (hb_store h))\<rparr>
    \<and> hb_attached h \<and> get_exact c (in_instance_id row) h = Some ref \<and> hb_heap h ref = Some s"
  using assms
  by (auto simp: route_command_def bindH_storeH get_exact_def split: sum.splits option.splits if_splits)

lemma route_command_frame:
  "hb_in_flight (snd (route_command env c inst h)) = hb_in_flight h
   \<and> hb_heap (snd (route_command env c inst h)) = hb_heap h
   \<and> hb_futures (snd (route_command env c inst h)) = hb_futures h
   \<and> hb_next_future (snd (route_command env c inst h)) = hb_next_future h
   \<and> hb_sessions (snd (route_command env c inst h)) = hb_sessions h
   \<and> hb_next_session (snd (route_command env c inst h)) = hb_next_session h"
  by (auto simp: route_command_def bindH_storeH split: sum.splits option.splits prod.splits)

lemma admit_command_frame: "snd (admit_command env identity tool arguments s h) = h"
  by (simp add: admit_command_def)

lemma admit_command_Inr: "fst (admit_command env identity tool arguments s h) = Inr u \<longleftrightarrow>
     has_capability s (tool_capability tool)
     \<and> (case di_app_assertion identity of None \<Rightarrow> True | Some a \<Rightarrow> \<not> assertion_expired a (ce_now_assert env))
     \<and> \<not> timeout_too_long arguments (ce_request_timeout env)"
  by (simp add: admit_command_def split: option.split)

text \<open>The command a claim starts, and the state it starts it in.\<close>

definition started_command ::
    "command_env \<Rightarrow> delegated_identity \<Rightarrow> string \<Rightarrow> string \<Rightarrow> fields \<Rightarrow> string \<Rightarrow> instance_row \<Rightarrow> nat \<Rightarrow> nat \<Rightarrow> command" where
  "started_command env identity tool c arguments k row ref f =
     \<lparr>cm_client_id = di_client_id identity, cm_tool = tool, cm_connector_id = c, cm_idempotency_key = k,
      cm_request_id = request_id_of identity (ce_drawn_uuid env),
      cm_request_digest = digest_of_request env c tool arguments row,
      cm_session = ref, cm_future = f, cm_collision_key = collision_key (ce_sha env) c tool arguments\<rparr>"

definition hold_guard :: "guard_key option \<Rightarrow> string \<Rightarrow> hub \<Rightarrow> hub" where
  "hold_guard key rid h = (case key of None \<Rightarrow> h | Some k \<Rightarrow> h\<lparr>hb_in_flight := (hb_in_flight h)(k \<mapsto> rid)\<rparr>)"

lemma acquire_collision_guard_cases:
  "acquire_collision_guard key rid h =
     (if \<exists>k. key = Some k \<and> hb_in_flight h k \<noteq> None then (Inl (AgentError ''command_in_flight''), h)
      else (Inr (), hold_guard key rid h))"
  by (auto simp: acquire_collision_guard_def hold_guard_def split: option.split)

lemma claim_command_eq:
  "claim_command env identity tool c arguments k row ref h =
     (let rid = request_id_of identity (ce_drawn_uuid env);
          claim = claim_request c (di_client_id identity) k rid tool
                    (digest_of_request env c tool arguments row) (ce_now_claim env) (hb_store h);
          key = collision_key (ce_sha env) c tool arguments;
          h1 = h\<lparr>hb_store := snd claim\<rparr>;
          h2 = snd (new_future h1)
      in case fst claim of
           Conflict \<Rightarrow> (Inl (AgentError ''idempotency_conflict''), h1)
         | Replay j \<Rightarrow> (Inr (Replayed j), h1)
         | PendingClaim \<Rightarrow> (Inl (AgentError ''request_pending''), h1)
         | New \<Rightarrow>
             if \<exists>kk. key = Some kk \<and> hb_in_flight h kk \<noteq> None
             then (Inl (AgentError ''command_in_flight''), h2)
             else (Inr (Started (started_command env identity tool c arguments k row ref (hb_next_future h))
                         (request_frame identity rid tool c arguments k)),
                   put_pending ref rid (hb_next_future h) (hold_guard key rid h2)))"
  by (auto simp: claim_command_def Let_def bindH_apply storeH_def acquire_collision_guard_cases started_command_def
      new_future_def callH_def split: claim_outcome.split)

lemma put_pending_frame:
  "hb_in_flight (put_pending ref rid f h) = hb_in_flight h"
  "hb_store (put_pending ref rid f h) = hb_store h"
  "hb_futures (put_pending ref rid f h) = hb_futures h"
  "hb_next_future (put_pending ref rid f h) = hb_next_future h"
  "hb_next_session (put_pending ref rid f h) = hb_next_session h"
  "hb_sessions (put_pending ref rid f h) = hb_sessions h"
  by (simp_all add: put_pending_def split: option.split)

lemma pop_pending_frame:
  "hb_in_flight (pop_pending ref rid h) = hb_in_flight h"
  "hb_store (pop_pending ref rid h) = hb_store h"
  "hb_futures (pop_pending ref rid h) = hb_futures h"
  "hb_next_future (pop_pending ref rid h) = hb_next_future h"
  "hb_next_session (pop_pending ref rid h) = hb_next_session h"
  "hb_sessions (pop_pending ref rid h) = hb_sessions h"
  by (simp_all add: pop_pending_def split: option.split)

lemma hold_guard_frame:
  "hb_store (hold_guard key rid h) = hb_store h" "hb_heap (hold_guard key rid h) = hb_heap h"
  "hb_futures (hold_guard key rid h) = hb_futures h" "hb_sessions (hold_guard key rid h) = hb_sessions h"
  "hb_next_future (hold_guard key rid h) = hb_next_future h"
  "hb_next_session (hold_guard key rid h) = hb_next_session h"
  by (simp_all add: hold_guard_def split: option.split)

lemma release_guard_frame:
  "hb_store (release_collision_guard key h) = hb_store h" "hb_heap (release_collision_guard key h) = hb_heap h"
  "hb_futures (release_collision_guard key h) = hb_futures h"
  "hb_sessions (release_collision_guard key h) = hb_sessions h"
  "hb_next_future (release_collision_guard key h) = hb_next_future h"
  "hb_next_session (release_collision_guard key h) = hb_next_session h"
  by (simp_all add: release_collision_guard_def split: option.split)

lemma new_future_frame:
  "hb_store (snd (new_future h)) = hb_store h" "hb_heap (snd (new_future h)) = hb_heap h"
  "hb_in_flight (snd (new_future h)) = hb_in_flight h" "hb_sessions (snd (new_future h)) = hb_sessions h"
  "hb_next_session (snd (new_future h)) = hb_next_session h"
  by (simp_all add: new_future_def)

text \<open>Everything a started command has gone through, and the state it leaves.\<close>

lemma device_command_started:
  assumes "device_command env identity tool connector arguments k inst h = (Inr (Started cm frame), h')"
  shows "\<exists>c row ref s. parse_connector_id (JStr connector) = Inr c
     \<and> (case di_app_assertion identity of None \<Rightarrow> True | Some a \<Rightarrow> fld a ''connector_id'' = JStr c)
     \<and> fst (relay_session (ce_stale_seconds env) (ce_now_route env) c inst (hb_store h)) = Inr (Some row)
     \<and> get_exact c (in_instance_id row) h = Some ref \<and> hb_heap h ref = Some s
     \<and> fst (admit_command env identity tool arguments s h) = Inr ()
     \<and> (\<forall>kk. collision_key (ce_sha env) c tool arguments = Some kk \<longrightarrow> hb_in_flight h kk = None)
     \<and> cm = started_command env identity tool c arguments k row ref (hb_next_future h)
     \<and> frame = request_frame identity (cm_request_id cm) tool c arguments k
     \<and> (let routed = snd (relay_session (ce_stale_seconds env) (ce_now_route env) c inst (hb_store h));
            claim = claim_request c (di_client_id identity) k (cm_request_id cm) tool (cm_request_digest cm)
                      (ce_now_claim env) routed
        in fst claim = New
           \<and> h' = put_pending ref (cm_request_id cm) (cm_future cm)
                    (hold_guard (cm_collision_key cm) (cm_request_id cm)
                      (snd (new_future (h\<lparr>hb_store := snd claim\<rparr>)))))"
proof -
  obtain c where c: "parse_connector_id (JStr connector) = Inr c"
    using assms by (cases "parse_connector_id (JStr connector)") (simp_all add: device_command_def)
  have match: "case di_app_assertion identity of None \<Rightarrow> True | Some a \<Rightarrow> fld a ''connector_id'' = JStr c"
    using assms c by (auto simp: device_command_def split: option.splits if_splits)
  then have run: "bindH (route_command env c inst) (\<lambda>(row, ref, s).
      bindH (admit_command env identity tool arguments s) (\<lambda>_.
      claim_command env identity tool c arguments k row ref)) h = (Inr (Started cm frame), h')"
    using assms c by (auto simp: device_command_def split: option.splits)
  obtain row ref s h1 where route: "route_command env c inst h = (Inr (row, ref, s), h1)"
    using run by (cases "route_command env c inst h"; cases "fst (route_command env c inst h)")
      (auto simp: bindH_def)
  have admit: "fst (admit_command env identity tool arguments s h1) = Inr ()"
    using run route by (cases "fst (admit_command env identity tool arguments s h1)")
      (auto simp: bindH_apply [of "admit_command env identity tool arguments s"] bindH_def [of "route_command env c inst"])
  have claim: "claim_command env identity tool c arguments k row ref h1 = (Inr (Started cm frame), h')"
    using run route admit
    by (simp add: bindH_apply [of "admit_command env identity tool arguments s"]
        bindH_def [of "route_command env c inst"] admit_command_frame)
  note r = route_command_Inr [OF route]
  show ?thesis
    using c match r admit claim
    by (auto simp: claim_command_eq Let_def started_command_def admit_command_Inr new_future_def
        split: claim_outcome.splits if_splits)
qed

section \<open>A concrete connector for the witnesses\<close>

definition demo_live :: store where
  "demo_live = run_steps (store_step demo_sha)
     [OpEnroll ''dev-1'' ''key'' ''Laptop'' ''read_write'' (seconds 100) ''linux'',
      OpPresence ''dev-1'' ''i-1'' ''gen-1'' 0 [] (seconds 110)] empty_store"

definition demo_session :: session where
  "demo_session = \<lparr>se_connector_id = ''dev-1'', se_instance_id = ''i-1'', se_context_epoch = 0,
     se_connection_generation = ''gen-1'',
     se_capabilities = (case capabilities_for_profile ''read_write'' of Inr caps \<Rightarrow> caps | Inl _ \<Rightarrow> []),
     se_capability_profile = ''read_write'', se_pending = []\<rparr>"

definition bare_hub :: "store \<Rightarrow> hub" where
  "bare_hub st = \<lparr>hb_store = st, hb_heap = (\<lambda>_. None), hb_next_session = 0, hb_attached = True,
     hb_sessions = (\<lambda>_. None), hb_futures = (\<lambda>_. None), hb_next_future = 0, hb_in_flight = (\<lambda>_. None)\<rparr>"

definition demo_hub :: hub where
  "demo_hub = (let (ref, h) = new_session demo_session (bare_hub demo_live) in register ref h)"

definition demo_env :: command_env where
  "demo_env = \<lparr>ce_sha = demo_sha, ce_stale_seconds = 75, ce_request_timeout = 60, ce_drawn_uuid = ''r-1'',
     ce_now_route = seconds 120, ce_now_assert = seconds 120, ce_now_claim = seconds 120\<rparr>"

definition demo_identity :: delegated_identity where
  "demo_identity = \<lparr>di_client_id = ''app'', di_scopes = [''agent.files.write''], di_nonce = ''n'', di_timestamp = 120,
     di_app_id = [], di_app_assertion = None\<rparr>"

definition demo_command :: "start res \<times> hub" where
  "demo_command = device_command demo_env demo_identity ''files.write'' ''dev-1''
     [(''path'', JStr ''a.txt'')] ''k-1'' None demo_hub"

fun is_started :: "start res \<Rightarrow> bool" where
  "is_started (Inr (Started cm frame)) = True"
| "is_started r = False"

lemma demo_live_inv: "store_inv demo_live"
  unfolding demo_live_def by (rule store_machine.run_inv) simp_all

lemma demo_command_started: "is_started (fst demo_command)"
  by code_simp

lemma is_startedE: "is_started (fst p) \<Longrightarrow> \<exists>cm frame h'. p = (Inr (Started cm frame), h')"
  by (cases p; cases "fst p" rule: is_started.cases) auto

lemma demo_hub_store: "hb_store demo_hub = demo_live"
  by code_simp

section \<open>Properties\<close>

text \<open>
  C1. A command that reaches a device is authorised: its assertion, if any, was signed for this
  device and has not expired; the device is enrolled and its instance has a fresh heartbeat; the
  session is the one registered for the device and serves that instance; the capability of the
  tool is among those of the session; the requested time fits the relay window; the idempotency
  key was free or held by this very request; and no equal mutating command is under way.
\<close>

theorem device_command_authorised:
  assumes inv: "store_inv (hb_store h)"
    and go: "device_command env identity tool connector arguments k inst h = (Inr (Started cm frame), h')"
  shows "\<exists>c row ref s. parse_connector_id (JStr connector) = Inr c
     \<and> (case di_app_assertion identity of None \<Rightarrow> True
        | Some a \<Rightarrow> fld a ''connector_id'' = JStr c \<and> \<not> assertion_expired a (ce_now_assert env))
     \<and> map_option dv_enrollment_state (get_device c (hb_store h)) = Some Enrolled
     \<and> row \<in> set (instances (hb_store h))
     \<and> is_live c (as_timestamp (fresh_after (ce_stale_seconds env) (ce_now_route env))) row
     \<and> hb_sessions h c = Some ref \<and> hb_heap h ref = Some s \<and> se_instance_id s = in_instance_id row
     \<and> has_capability s (tool_capability tool) \<and> \<not> timeout_too_long arguments (ce_request_timeout env)
     \<and> (case ledger_of (hb_store h) (c, di_client_id identity, k) of None \<Rightarrow> True
        | Some (rid, _) \<Rightarrow> rid = request_id_of identity (ce_drawn_uuid env))
     \<and> (\<forall>kk. collision_key (ce_sha env) c tool arguments = Some kk \<longrightarrow> hb_in_flight h kk = None)"
proof -
  let ?sweep = "\<lambda>t. snd (mark_stale_instances t (hb_store h))"
  from device_command_started [OF go] obtain c row ref s where
    c: "parse_connector_id (JStr connector) = Inr c"
    and bind: "case di_app_assertion identity of None \<Rightarrow> True | Some a \<Rightarrow> fld a ''connector_id'' = JStr c"
    and route: "fst (relay_session (ce_stale_seconds env) (ce_now_route env) c inst (hb_store h)) = Inr (Some row)"
    and found: "get_exact c (in_instance_id row) h = Some ref" "hb_heap h ref = Some s"
    and admit: "fst (admit_command env identity tool arguments s h) = Inr ()"
    and free: "\<forall>kk. collision_key (ce_sha env) c tool arguments = Some kk \<longrightarrow> hb_in_flight h kk = None"
    and cm: "cm = started_command env identity tool c arguments k row ref (hb_next_future h)"
    and claim: "fst (claim_request c (di_client_id identity) k (cm_request_id cm) tool (cm_request_digest cm)
          (ce_now_claim env) (snd (relay_session (ce_stale_seconds env) (ce_now_route env) c inst (hb_store h)))) = New"
    by (auto simp: Let_def)
  have live: "row \<in> set (instances (hb_store h))
      \<and> is_live c (as_timestamp (fresh_after (ce_stale_seconds env) (ce_now_route env))) row"
    using route latest_live exact_live
    by (auto simp: relay_session_def bindA_liftA split: if_splits sum.splits)
  then have enr: "map_option dv_enrollment_state (get_device c (hb_store h)) = Some Enrolled"
    using live_enrolled [OF inv] by blast
  have sess: "hb_sessions h c = Some ref" "se_instance_id s = in_instance_id row"
    using found by (auto simp: get_exact_def split: option.splits if_splits)
  have same: "ledger_of (snd (relay_session (ce_stale_seconds env) (ce_now_route env) c inst (hb_store h)))
      = ledger_of (hb_store h)"
    by (auto simp: ledger_of_def fun_eq_iff relay_session_def bindA_liftA read_is_sweep requests_unchanged
        split: sum.split)
  have "case ledger_of (hb_store h) (c, di_client_id identity, k) of None \<Rightarrow> True
        | Some (rid, _) \<Rightarrow> rid = request_id_of identity (ce_drawn_uuid env)"
  proof -
    have "cm_request_id cm = request_id_of identity (ce_drawn_uuid env)" by (simp add: cm started_command_def)
    with claim show ?thesis unfolding claim_outcome same spec_outcome_New by (auto split: option.splits)
  qed
  moreover have "case di_app_assertion identity of None \<Rightarrow> True
        | Some a \<Rightarrow> fld a ''connector_id'' = JStr c \<and> \<not> assertion_expired a (ce_now_assert env)"
    and "has_capability s (tool_capability tool)" and "\<not> timeout_too_long arguments (ce_request_timeout env)"
    using admit bind by (auto simp: admit_command_Inr split: option.splits)
  ultimately show ?thesis using c enr live sess found free by blast
qed

theorem device_command_authorised_witness:
  "\<exists>c. parse_connector_id (JStr ''dev-1'') = Inr c
     \<and> map_option dv_enrollment_state (get_device c demo_live) = Some Enrolled"
proof -
  obtain cm frame h' where "demo_command = (Inr (Started cm frame), h')"
    using is_startedE [OF demo_command_started] by blast
  then have go: "device_command demo_env demo_identity ''files.write'' ''dev-1''
      [(''path'', JStr ''a.txt'')] ''k-1'' None demo_hub = (Inr (Started cm frame), h')"
    by (simp add: demo_command_def)
  have "store_inv (hb_store demo_hub)" by (simp add: demo_hub_store demo_live_inv)
  from device_command_authorised [OF this go] show ?thesis by (auto simp: demo_hub_store)
qed

text \<open>The ledger key of a command, and what ending a command does not touch.\<close>

abbreviation command_key :: "command \<Rightarrow> string \<times> string \<times> string" where
  "command_key cm \<equiv> (cm_connector_id cm, cm_client_id cm, cm_idempotency_key cm)"

lemma release_command_store: "hb_store (release_command cm g) = hb_store g"
  by (simp add: release_command_def release_guard_frame pop_pending_frame)

lemma cancel_future_store: "hb_store (cancel_future f g) = hb_store g"
  by (simp add: cancel_future_def)

lemma ledger_audit: "ledger_of (snd (append_audit e a rc pr co rq d t st)) = ledger_of st"
  by (simp add: ledger_of_def requests_unchanged fun_eq_iff)

definition demo_waiting_command :: command where
  "demo_waiting_command = \<lparr>cm_client_id = ''app'', cm_tool = ''files.read'', cm_connector_id = ''dev-1'',
     cm_idempotency_key = ''k-1'', cm_request_id = ''r-1'', cm_request_digest = ''d'', cm_session = 0, cm_future = 0,
     cm_collision_key = None\<rparr>"

text \<open>
  The refusal by the collision guard comes after the claim: the key stays claimed by a request
  that never ran and that nothing completes, so every retry under that key is told that a request
  is pending.
\<close>

theorem guard_refusal_strands_claim:
  assumes "fst (claim_command env identity tool c arguments k row ref h) = Inl (AgentError ''command_in_flight'')"
    and "ledger_of (hb_store h) (c, di_client_id identity, k) = None"
    and "rid' \<noteq> request_id_of identity (ce_drawn_uuid env)"
  shows "fst (claim_request c (di_client_id identity) k rid' tool (digest_of_request env c tool arguments row) t
      (hb_store (snd (claim_command env identity tool c arguments k row ref h)))) = PendingClaim"
proof -
  have "ledger_of (hb_store (snd (claim_command env identity tool c arguments k row ref h))) (c, di_client_id identity, k)
      = Some (request_id_of identity (ce_drawn_uuid env), digest_of_request env c tool arguments row, None)"
    using assms(1,2)
    by (auto simp: claim_command_eq Let_def new_future_frame ledger_claim split: claim_outcome.splits if_splits)
  with assms(3) show ?thesis by (simp add: claim_outcome)
qed

end
