(* ===== verification/System.thy ===== *)
theory System
  imports Dispatch
begin

text \<open>
  The connector as a transition system. Its state is the shared state of \<open>Relay\<close> and the
  commands that are under way, each at one of its two suspension points. Every step is one of the
  pieces of code that run without giving up control, in any order: a command starts, its write
  ends, its wait ends, a device opens a session, sends a message, loses its connection, the
  operator cancels, the service does anything else.
\<close>

section \<open>Steps\<close>

datatype running = Writing command | Waiting command

fun command_of :: "running \<Rightarrow> command" where
  "command_of (Writing cm) = cm"
| "command_of (Waiting cm) = cm"

record sys =
  sy_hub :: hub
  sy_running :: "nat \<Rightarrow> running option"

definition sys_start :: "store \<Rightarrow> sys" where
  "sys_start st =
     \<lparr>sy_hub = \<lparr>hb_store = st, hb_heap = (\<lambda>_. None), hb_next_session = 0, hb_attached = True,
                hb_sessions = (\<lambda>_. None), hb_futures = (\<lambda>_. None), hb_next_future = 0,
                hb_in_flight = (\<lambda>_. None)\<rparr>,
      sy_running = (\<lambda>_. None)\<rparr>"

text \<open>A session as \<open>session_of\<close> builds it: the capabilities of its profile, nothing pending.\<close>

definition fresh_session :: "session \<Rightarrow> bool" where
  "fresh_session s =
     (capabilities_for_profile (se_capability_profile s) = Inr (se_capabilities s) \<and> se_pending s = [])"

inductive sys_step ::
    "(bytes \<Rightarrow> string) \<Rightarrow> (bytes \<Rightarrow> bytes \<Rightarrow> bytes \<Rightarrow> bool) \<Rightarrow> int \<Rightarrow> sys \<Rightarrow> sys \<Rightarrow> bool"
  for sha edv stale
where
  start: "sy_running s i = None \<Longrightarrow>
     device_command env identity tool connector arguments k inst (sy_hub s) = (Inr (Started cm frame), h') \<Longrightarrow>
     sys_step sha edv stale s (s\<lparr>sy_hub := h', sy_running := (sy_running s)(i \<mapsto> Writing cm)\<rparr>)"
| answer: "device_command env identity tool connector arguments k inst (sy_hub s) = (r, h') \<Longrightarrow>
     \<forall>cm frame. r \<noteq> Inr (Started cm frame) \<Longrightarrow>
     sys_step sha edv stale s (s\<lparr>sy_hub := h'\<rparr>)"
| written: "sy_running s i = Some (Writing cm) \<Longrightarrow> after_write way ev t1 t2 cm (sy_hub s) = (None, h') \<Longrightarrow>
     sys_step sha edv stale s (s\<lparr>sy_hub := h', sy_running := (sy_running s)(i \<mapsto> Waiting cm)\<rparr>)"
| write_ended: "sy_running s i = Some (Writing cm) \<Longrightarrow> after_write way ev t1 t2 cm (sy_hub s) = (Some e, h') \<Longrightarrow>
     sys_step sha edv stale s (s\<lparr>sy_hub := h', sy_running := (sy_running s)(i := None)\<rparr>)"
| wait_ended: "sy_running s i = Some (Waiting cm) \<Longrightarrow> after_wait way' ev t1 t2 cm (sy_hub s) = Some (r', h') \<Longrightarrow>
     sys_step sha edv stale s (s\<lparr>sy_hub := h', sy_running := (sy_running s)(i := None)\<rparr>)"
| cancel: "sys_step sha edv stale s (s\<lparr>sy_hub := snd (cancel_request stale t1 connector rid (sy_hub s))\<rparr>)"
| cancelled: "sys_step sha edv stale s (s\<lparr>sy_hub := snd (after_cancel_write ev t1 connector rid f (sy_hub s))\<rparr>)"
| opened: "fresh_session se \<Longrightarrow> new_session se (sy_hub s) = (ref, h') \<Longrightarrow>
     sys_step sha edv stale s (s\<lparr>sy_hub := register ref h'\<rparr>)"
| message: "sys_step sha edv stale s (s\<lparr>sy_hub := snd (serve_message ref t1 m (sy_hub s))\<rparr>)"
| closed: "sys_step sha edv stale s (s\<lparr>sy_hub := close_session ref registered t1 (sy_hub s)\<rparr>)"
| service: "sys_step sha edv stale s
     (s\<lparr>sy_hub := (sy_hub s)\<lparr>hb_store := service_step sha edv stale sop (hb_store (sy_hub s))\<rparr>\<rparr>)"

inductive reachable ::
    "(bytes \<Rightarrow> string) \<Rightarrow> (bytes \<Rightarrow> bytes \<Rightarrow> bytes \<Rightarrow> bool) \<Rightarrow> int \<Rightarrow> store \<Rightarrow> sys \<Rightarrow> bool"
  for sha edv stale st0
where
  init: "reachable sha edv stale st0 (sys_start st0)"
| step: "reachable sha edv stale st0 s \<Longrightarrow> sys_step sha edv stale s s' \<Longrightarrow> reachable sha edv stale st0 s'"

section \<open>The collision guard over the whole system\<close>

definition try_guard :: "guard_key \<Rightarrow> string \<Rightarrow> hub \<Rightarrow> hub option" where
  "try_guard k rid h = (case acquire_collision_guard (Some k) rid h of (Inl _, _) \<Rightarrow> None | (Inr _, h') \<Rightarrow> Some h')"

interpretation guard: exclusive_guard hb_in_flight try_guard "\<lambda>k. release_collision_guard (Some k)"
  by unfold_locales
    (auto simp: try_guard_def acquire_collision_guard_cases hold_guard_def release_collision_guard_def split: if_splits)

text \<open>What each running command holds.\<close>

definition holds :: "sys \<Rightarrow> nat \<Rightarrow> (guard_key \<times> string) option" where
  "holds s i =
     (case sy_running s i of
        None \<Rightarrow> None
      | Some r \<Rightarrow> map_option (\<lambda>k. (k, cm_request_id (command_of r))) (cm_collision_key (command_of r)))"

lemma holds_hub [simp]: "holds (s\<lparr>sy_hub := h\<rparr>) = holds s"
  by (simp add: holds_def fun_eq_iff)

lemma holds_iff: "holds s i = Some (k, rid) \<longleftrightarrow>
    (\<exists>r. sy_running s i = Some r \<and> cm_collision_key (command_of r) = Some k \<and> cm_request_id (command_of r) = rid)"
  by (cases k; cases "sy_running s i") (auto simp: holds_def)

definition guard_ok :: "sys \<Rightarrow> bool" where
  "guard_ok s = guard.agrees (sy_hub s) (holds s)"

lemma guard_ok_frame:
  "guard_ok s \<Longrightarrow> hb_in_flight (sy_hub s') = hb_in_flight (sy_hub s) \<Longrightarrow> holds s' = holds s \<Longrightarrow> guard_ok s'"
  using guard.agrees_cong [of "sy_hub s'" "sy_hub s" "holds s"] by (simp add: guard_ok_def)

lemma in_flight_frame:
  "hb_in_flight (fail_pending ref h) = hb_in_flight h"
  "hb_in_flight (register ref h) = hb_in_flight h"
  "hb_in_flight (snd (remove ref h)) = hb_in_flight h"
  "hb_in_flight (snd (receive_response ref m h)) = hb_in_flight h"
  "hb_in_flight (snd (new_session se h)) = hb_in_flight h"
  "hb_in_flight (cancel_future f h) = hb_in_flight h"
  "hb_in_flight (complete_command cm status result t h) = hb_in_flight h"
  by (auto simp: fail_pending_def register_def remove_def receive_response_def new_session_def cancel_future_def
      complete_command_def Let_def split: option.split sum.split)

lemma in_flight_serve: "hb_in_flight (snd (serve_message ref t m h)) = hb_in_flight h"
  by (auto simp: serve_message_def in_flight_frame split: option.split sum.split prod.split)

lemma in_flight_close: "hb_in_flight (close_session ref registered t h) = hb_in_flight h"
  using in_flight_frame(3) [of ref h]
  by (auto simp: close_session_def split_beta split: option.split)

lemma in_flight_cancel:
  "hb_in_flight (snd (cancel_request stale t c rid h)) = hb_in_flight h"
  "hb_in_flight (snd (after_cancel_write ev t c rid f h)) = hb_in_flight h"
  by (auto simp: cancel_request_def after_cancel_write_def Let_def bindH_apply storeH_def liftH_def readH_def
      split: option.split sum.split)

lemma device_command_not_started:
  assumes "device_command env identity tool connector arguments k inst h = (r, h')"
    and "\<forall>cm frame. r \<noteq> Inr (Started cm frame)"
  shows "hb_in_flight h' = hb_in_flight h"
  using assms route_command_frame admit_command_frame
  by (auto simp: device_command_def bindH_apply liftH_def claim_command_eq Let_def new_future_frame split_beta
      split: option.splits sum.splits claim_outcome.splits if_splits)

lemma in_flight_release:
  "hb_in_flight (release_command cm h) =
     (case cm_collision_key cm of None \<Rightarrow> hb_in_flight h | Some k \<Rightarrow> (hb_in_flight h)(k := None))"
  by (simp add: release_command_def release_collision_guard_def pop_pending_frame split: option.split)

lemma in_flight_fail:
  "hb_in_flight (snd (fail_command failure cm t h)) = hb_in_flight (release_command cm h)"
  by (simp add: fail_command_def in_flight_release in_flight_frame split: option.split)

lemma in_flight_finish:
  "hb_in_flight (snd (finish_command ev t1 t2 cm r h)) = hb_in_flight (release_command cm h)"
  by (simp add: finish_command_def Let_def bindH_storeH in_flight_release in_flight_frame complete_command_def
      split: sum.split option.split)

lemma ended_simps [simp]: "snd (ended p) = snd p" "fst (ended (Inl e, h)) = Some e" "fst (ended (Inr x, h)) = None"
  by (auto simp: ended_def split: prod.split sum.split)

lemma fail_command_ends: "fst (ended (fail_command failure cm t h)) = Some (AgentError failure)"
  by (simp add: fail_command_def)

lemma after_write_goes_on:
  "after_write way ev t1 t2 cm h = (None, h') \<Longrightarrow> hb_in_flight h' = hb_in_flight h"
  by (auto simp: after_write_def Let_def storeH_def fail_command_def ended_def
      split: write_outcome.splits if_splits)

lemma after_write_ends:
  "after_write way ev t1 t2 cm h = (Some e, h') \<Longrightarrow> hb_in_flight h' = hb_in_flight (release_command cm h)"
  by (auto simp: after_write_def Let_def storeH_def fail_command_def ended_def in_flight_release in_flight_frame
      split: write_outcome.splits if_splits option.split)

lemma after_wait_ends:
  assumes "after_wait way ev t1 t2 cm h = Some (r, h')"
  shows "hb_in_flight h' = hb_in_flight (release_command cm h)"
proof (cases way)
  case FutureDone
  show ?thesis
  proof (cases "hb_futures h (cm_future cm)")
    case None
    with assms FutureDone show ?thesis by (simp add: after_wait_def)
  next
    case (Some fs)
    show ?thesis
    proof (cases fs)
      case (FResult x)
      with assms FutureDone Some have "finish_command ev t1 t2 cm x h = (r, h')" by (simp add: after_wait_def)
      then show ?thesis using in_flight_finish [of ev t1 t2 cm x h] by simp
    next
      case (FError e)
      with assms FutureDone Some have "fail_command ''device_offline'' cm t1 h = (r, h')"
        by (simp add: after_wait_def)
      then show ?thesis using in_flight_fail [of "''device_offline''" cm t1 h] by simp
    qed (use assms FutureDone Some in \<open>auto simp: after_wait_def\<close>)
  qed
next
  case WindowPassed
  with assms have "h' = snd (fail_command ''device_timeout'' cm t1 (cancel_future (cm_future cm) h))"
    by (auto simp: after_wait_def split: if_splits)
  then show ?thesis
    by (simp add: in_flight_fail in_flight_release in_flight_frame split: option.split)
next
  case TaskCancelled
  with assms show ?thesis
    by (auto simp: after_wait_def in_flight_release in_flight_frame split: option.split)
qed

lemma guard_release_running:
  assumes "guard_ok s" and "sy_running s i = Some r"
    and "hb_in_flight h' = hb_in_flight (release_command (command_of r) (sy_hub s))"
  shows "guard_ok (s\<lparr>sy_hub := h', sy_running := (sy_running s)(i := None)\<rparr>)"
proof -
  have own: "holds (s\<lparr>sy_hub := h', sy_running := (sy_running s)(i := None)\<rparr>) = (holds s)(i := None)"
    by (auto simp: holds_def fun_eq_iff)
  show ?thesis
  proof (cases "cm_collision_key (command_of r)")
    case None
    then have "(holds s)(i := None) = holds s" using assms(2) by (auto simp: holds_def fun_eq_iff)
    with None assms show ?thesis
      using own by (intro guard_ok_frame [OF assms(1)]) (simp_all add: in_flight_release)
  next
    case (Some k)
    then have "holds s i = Some (k, cm_request_id (command_of r))" using assms(2) by (simp add: holds_def)
    with assms(1) have "guard.agrees (release_collision_guard (Some k) (sy_hub s)) ((holds s)(i := None))"
      unfolding guard_ok_def by (rule guard.agrees_release)
    moreover have "hb_in_flight h' = hb_in_flight (release_collision_guard (Some k) (sy_hub s))"
      using assms(3) Some by (simp add: in_flight_release release_collision_guard_def)
    ultimately show ?thesis
      using guard.agrees_cong [of h' "release_collision_guard (Some k) (sy_hub s)" "(holds s)(i := None)"] own by (simp add: guard_ok_def)
  qed
qed

lemma guard_start:
  assumes ok: "guard_ok s" and free: "sy_running s i = None"
    and go: "device_command env identity tool connector arguments k inst (sy_hub s) = (Inr (Started cm frame), h')"
  shows "guard_ok (s\<lparr>sy_hub := h', sy_running := (sy_running s)(i \<mapsto> Writing cm)\<rparr>)"
proof -
  let ?s' = "s\<lparr>sy_hub := h', sy_running := (sy_running s)(i \<mapsto> Writing cm)\<rparr>"
  from device_command_started [OF go] obtain c where
    unheld: "\<forall>kk. collision_key (ce_sha env) c tool arguments = Some kk \<longrightarrow> hb_in_flight (sy_hub s) kk = None"
    and key: "cm_collision_key cm = collision_key (ce_sha env) c tool arguments"
    and h': "hb_in_flight h' = hb_in_flight (hold_guard (cm_collision_key cm) (cm_request_id cm) (sy_hub s))"
    by (auto simp: Let_def started_command_def put_pending_frame hold_guard_def new_future_frame split: option.split)
  show ?thesis
  proof (cases "cm_collision_key cm")
    case None
    have "holds ?s' = holds s" using None free by (auto simp: holds_def fun_eq_iff)
    with None h' show ?thesis by (intro guard_ok_frame [OF ok]) (simp_all add: hold_guard_def)
  next
    case (Some kk)
    have own: "holds ?s' = (holds s)(i \<mapsto> (kk, cm_request_id cm))" using Some by (auto simp: holds_def fun_eq_iff)
    have "holds s i = None" using free by (simp add: holds_def)
    moreover have "try_guard kk (cm_request_id cm) (sy_hub s)
        = Some (hold_guard (Some kk) (cm_request_id cm) (sy_hub s))"
      using unheld key Some by (simp add: try_guard_def acquire_collision_guard_cases)
    ultimately have "guard.agrees (hold_guard (Some kk) (cm_request_id cm) (sy_hub s)) (holds ?s')"
      using ok own guard.agrees_acquire by (simp add: guard_ok_def)
    moreover have "hb_in_flight h' = hb_in_flight (hold_guard (Some kk) (cm_request_id cm) (sy_hub s))"
      using h' Some by simp
    ultimately show ?thesis
      using guard.agrees_cong [of h' "hold_guard (Some kk) (cm_request_id cm) (sy_hub s)" "holds ?s'"]
      by (simp add: guard_ok_def)
  qed
qed

lemma guard_ok_step: "sys_step sha edv stale s s' \<Longrightarrow> guard_ok s \<Longrightarrow> guard_ok s'"
proof (induction rule: sys_step.induct)
  case (start s i env identity tool connector arguments k inst cm frame h')
  then show ?case by (blast intro: guard_start)
next
  case (answer env identity tool connector arguments k inst s r h')
  then show ?case
    by (intro guard_ok_frame [OF answer.prems]) (simp_all add: device_command_not_started)
next
  case (written s i cm way ev t1 t2 h')
  have "holds (s\<lparr>sy_hub := h', sy_running := (sy_running s)(i \<mapsto> Waiting cm)\<rparr>) = holds s"
    using written(1) by (auto simp: holds_def fun_eq_iff)
  with written show ?case by (intro guard_ok_frame [OF written.prems]) (simp_all add: after_write_goes_on)
next
  case (write_ended s i cm way ev t1 t2 e h')
  then show ?case by (intro guard_release_running [where r = "Writing cm"]) (simp_all add: after_write_ends)
next
  case (wait_ended s i cm way' ev t1 t2 r' h')
  then show ?case by (intro guard_release_running [where r = "Waiting cm"]) (simp_all add: after_wait_ends)
next
  case (opened se s ref h')
  then have "hb_in_flight h' = hb_in_flight (sy_hub s)"
    using in_flight_frame(5) [of se "sy_hub s"] by simp
  with opened show ?case
    by (intro guard_ok_frame [OF opened.prems]) (simp_all add: in_flight_frame)
next
  case (cancel s t1 connector rid)
  then show ?case by (intro guard_ok_frame [OF cancel]) (simp_all add: in_flight_cancel)
next
  case (cancelled s ev t1 connector rid f)
  then show ?case by (intro guard_ok_frame [OF cancelled]) (simp_all add: in_flight_cancel)
next
  case (message s ref t1 m)
  then show ?case by (intro guard_ok_frame [OF message]) (simp_all add: in_flight_serve)
next
  case (closed s ref registered t1)
  then show ?case by (intro guard_ok_frame [OF closed]) (simp_all add: in_flight_close)
next
  case (service s sop)
  then show ?case by (intro guard_ok_frame [OF service]) simp_all
qed

lemma guard_ok_reachable: "reachable sha edv stale st0 s \<Longrightarrow> guard_ok s"
proof (induction rule: reachable.induct)
  case init
  show ?case by (simp add: guard_ok_def guard.agrees_def holds_def sys_start_def)
qed (rule guard_ok_step)

section \<open>A reachable state with a command under way\<close>

lemma bare_hub_start: "sy_hub (sys_start st) = bare_hub st"
  by (simp add: sys_start_def bare_hub_def)

definition demo_cm :: command where
  "demo_cm = (case fst demo_command of Inr (Started cm frame) \<Rightarrow> cm | _ \<Rightarrow> demo_waiting_command)"

definition demo_busy :: sys where
  "demo_busy = \<lparr>sy_hub = snd demo_command, sy_running = (\<lambda>_. None)(0 \<mapsto> Writing demo_cm)\<rparr>"

definition demo_open :: sys where
  "demo_open = (sys_start demo_live)\<lparr>sy_hub := demo_hub\<rparr>"

lemma demo_open_reachable: "reachable demo_sha (\<lambda>_ _ _. True) 75 demo_live demo_open"
proof -
  obtain ref h where new: "new_session demo_session (sy_hub (sys_start demo_live)) = (ref, h)"
    by (cases "new_session demo_session (sy_hub (sys_start demo_live))")
  then have hub: "demo_hub = register ref h" by (simp add: demo_hub_def bare_hub_start)
  have "fresh_session demo_session" by code_simp
  from reachable.step [OF reachable.init sys_step.opened [OF this new]] show ?thesis
    by (simp add: demo_open_def hub)
qed

lemma demo_busy_reachable: "reachable demo_sha (\<lambda>_ _ _. True) 75 demo_live demo_busy"
proof -
  obtain cm frame h' where go: "demo_command = (Inr (Started cm frame), h')"
    using is_startedE [OF demo_command_started] by blast
  then have "device_command demo_env demo_identity ''files.write'' ''dev-1''
      [(''path'', JStr ''a.txt'')] ''k-1'' None (sy_hub demo_open) = (Inr (Started cm frame), h')"
    by (simp add: demo_command_def demo_open_def)
  from sys_step.start [where i = 0, OF _ this]
  have "sys_step demo_sha (\<lambda>_ _ _. True) 75 demo_open demo_busy"
    by (simp add: demo_busy_def demo_cm_def go sys_start_def demo_open_def)
  with demo_open_reachable show ?thesis by (rule reachable.step)
qed

lemma demo_hub_eq:
  "demo_hub = \<lparr>hb_store = demo_live, hb_heap = (\<lambda>_. None)(0 \<mapsto> demo_session), hb_next_session = 1,
     hb_attached = True, hb_sessions = (\<lambda>_. None)(''dev-1'' \<mapsto> 0), hb_futures = (\<lambda>_. None),
     hb_next_future = 0, hb_in_flight = (\<lambda>_. None)\<rparr>"
  by (simp add: demo_hub_def new_session_def register_def bare_hub_def demo_session_def)

lemma demo_busy_hub:
  "cm_session demo_cm = 0" "cm_future demo_cm = 0" "cm_request_id demo_cm = ''r-1''"
  "hb_futures (sy_hub demo_busy) 0 = Some FPending"
  "hb_heap (sy_hub demo_busy) 0 = Some (demo_session\<lparr>se_pending := [(''r-1'', 0)]\<rparr>)"
proof -
  obtain cm frame h' where go: "demo_command = (Inr (Started cm frame), h')"
    using is_startedE [OF demo_command_started] by blast
  have cm: "demo_cm = cm" and h': "sy_hub demo_busy = h'" by (simp_all only: demo_cm_def demo_busy_def sys.select_convs go prod.sel sum.case start.case)
  from device_command_started [OF go [unfolded demo_command_def]] obtain c row ref s st where
    ref: "get_exact c (in_instance_id row) demo_hub = Some ref"
    and started: "cm = started_command demo_env demo_identity ''files.write'' c [(''path'', JStr ''a.txt'')] ''k-1'' row ref
        (hb_next_future demo_hub)"
    and hub: "h' = put_pending ref (cm_request_id cm) (cm_future cm)
        (hold_guard (cm_collision_key cm) (cm_request_id cm) (snd (new_future (demo_hub\<lparr>hb_store := st\<rparr>))))"
    by (auto simp: Let_def)
  have "ref = 0" using ref by (auto simp: get_exact_def demo_hub_eq split: if_splits)
  then show ids: "cm_session demo_cm = 0" "cm_future demo_cm = 0" "cm_request_id demo_cm = ''r-1''"
    using started by (simp_all add: cm started_command_def demo_hub_eq request_id_of_def demo_identity_def demo_env_def)
  show "hb_futures (sy_hub demo_busy) 0 = Some FPending"
    by (simp add: h' hub put_pending_frame hold_guard_frame new_future_def demo_hub_eq)
  show "hb_heap (sy_hub demo_busy) 0 = Some (demo_session\<lparr>se_pending := [(''r-1'', 0)]\<rparr>)"
    using ids \<open>ref = 0\<close>
    by (simp add: h' hub cm put_pending_def hold_guard_frame new_future_def demo_hub_eq demo_session_def)
qed

lemma demo_busy_key: "cm_collision_key demo_cm \<noteq> None"
  by code_simp

section \<open>Properties\<close>

text \<open>
  What a command under way was asked to do: \<open>device_command\<close> was called with this tool and these
  arguments, for a name of this connector, and started it. The record of the command keeps the
  connector and the tool; the arguments are in its frame and, hashed, in its key.
\<close>

definition started_as :: "(bytes \<Rightarrow> string) \<Rightarrow> string \<Rightarrow> string \<Rightarrow> fields \<Rightarrow> command \<Rightarrow> bool" where
  "started_as hash connector_id tool arguments cm \<longleftrightarrow>
     (\<exists>env identity name k inst h frame h'.
        ce_sha env = hash \<and> parse_connector_id (JStr name) = Inr connector_id
        \<and> device_command env identity tool name arguments k inst h = (Inr (Started cm frame), h'))"

lemma started_as_key:
  assumes "started_as hash c tool arguments cm"
  shows "cm_connector_id cm = c \<and> cm_tool cm = tool \<and> cm_collision_key cm = collision_key hash c tool arguments"
proof -
  from assms obtain env identity name k inst h frame h' where
    env: "ce_sha env = hash" and name: "parse_connector_id (JStr name) = Inr c"
    and go: "device_command env identity tool name arguments k inst h = (Inr (Started cm frame), h')"
    unfolding started_as_def by blast
  from device_command_started [OF go] env name show ?thesis
    by (auto simp: started_command_def)
qed

text \<open>Arguments with the same canonical JSON text have the same key.\<close>

lemma collision_key_text:
  "dumps True (JObj a) = dumps True (JObj b) \<Longrightarrow> collision_key hash c tool a = collision_key hash c tool b"
  by (simp add: collision_key_def canonical_json_digest_def)

lemma collision_key_mutating: "tool \<in> set MUTATING_RELAY_TOOLS \<Longrightarrow> \<exists>k. collision_key hash c tool a = Some k"
  by (simp add: collision_key_def)

lemma start_needs_free_key:
  assumes "device_command env identity tool name arguments k inst h = (Inr (Started cm frame), h')"
    and "parse_connector_id (JStr name) = Inr c" and "collision_key (ce_sha env) c tool arguments = Some kk"
  shows "hb_in_flight h kk = None"
proof -
  obtain d where "parse_connector_id (JStr name) = Inr d"
    and "\<forall>kk. collision_key (ce_sha env) d tool arguments = Some kk \<longrightarrow> hb_in_flight h kk = None"
    using device_command_started [OF assms(1)] by blast
  with assms(2,3) show ?thesis by simp
qed

text \<open>Every command under way has been started by some call of \<open>device_command\<close>.\<close>

lemma running_started:
  "reachable sha edv stale st0 s \<Longrightarrow> sy_running s i = Some r \<Longrightarrow>
   \<exists>hash c tool arguments. started_as hash c tool arguments (command_of r)"
proof (induction arbitrary: i r rule: reachable.induct)
  case init
  then show ?case by (simp add: sys_start_def)
next
  case (step s s')
  from step.hyps(2) show ?case
  proof (cases rule: sys_step.cases)
    case (start i' env identity tool connector arguments k inst cm frame h')
    obtain c where "parse_connector_id (JStr connector) = Inr c"
      using device_command_started [OF start(3)] by blast
    then have "started_as (ce_sha env) c tool arguments cm"
      unfolding started_as_def using start(3) by blast
    then have new: "\<exists>hash c tool arguments. started_as hash c tool arguments (command_of (Writing cm))" by auto
    show ?thesis
    proof (cases "i = i'")
      case True
      with start(1) step.prems have "r = Writing cm" by simp
      with new show ?thesis by simp
    qed (use start(1) step.prems step.IH in simp)
  next
    case (written i' cm way ev t1 t2 h')
    with step show ?thesis by (cases "i = i'") fastforce+
  next
    case (write_ended i' cm way ev t1 t2 e h')
    with step show ?thesis by (cases "i = i'") auto
  next
    case (wait_ended i' cm way' ev t1 t2 r' h')
    with step show ?thesis by (cases "i = i'") auto
  qed (use step in auto)
qed

text \<open>
  C2. Mutual exclusion of mutating commands: while a command of a mutating tool is under way, no
  other command for the same connector, tool and arguments is, in any reachable state, and none
  can be started, whatever clients, request ids and idempotency keys they carry and however their
  pieces are interleaved. The arguments are the same when their canonical JSON texts are, so the
  order in which a client writes the members makes no difference.
\<close>

theorem mutating_commands_exclusive:
  assumes "reachable sha edv stale st0 s" and "tool \<in> set MUTATING_RELAY_TOOLS"
    and "sy_running s i = Some r" and "started_as hash connector_id tool arguments (command_of r)"
    and "dumps True (JObj arguments') = dumps True (JObj arguments)"
  shows "(sy_running s j = Some r' \<and> started_as hash connector_id tool arguments' (command_of r') \<longrightarrow> j = i)
     \<and> (ce_sha env = hash \<and> parse_connector_id (JStr name) = Inr connector_id \<longrightarrow>
          device_command env identity tool name arguments' k inst (sy_hub s) \<noteq> (Inr (Started cm frame), h'))"
proof -
  have agrees: "guard.agrees (sy_hub s) (holds s)"
    using guard_ok_reachable [OF assms(1)] by (simp add: guard_ok_def)
  obtain kk where kk: "collision_key hash connector_id tool arguments = Some kk"
    using collision_key_mutating [OF assms(2)] by blast
  have kk': "collision_key hash connector_id tool arguments' = Some kk"
    using collision_key_text [OF assms(5)] kk by simp
  have mine: "holds s i = Some (kk, cm_request_id (command_of r))"
    using assms(3) started_as_key [OF assms(4)] kk by (simp add: holds_iff)
  have "j = i" if "sy_running s j = Some r'" "started_as hash connector_id tool arguments' (command_of r')"
  proof -
    have "holds s j = Some (kk, cm_request_id (command_of r'))"
      using that(1) started_as_key [OF that(2)] kk' by (simp add: holds_iff)
    from guard.agrees_exclusive [OF agrees this mine] show ?thesis .
  qed
  moreover have "hb_in_flight (sy_hub s) kk \<noteq> None"
    using guard.agrees_held [OF agrees, of kk "cm_request_id (command_of r)"] mine by auto
  then have "device_command env identity tool name arguments' k inst (sy_hub s) \<noteq> (Inr (Started cm frame), h')"
    if "ce_sha env = hash" "parse_connector_id (JStr name) = Inr connector_id"
    using start_needs_free_key [of env identity tool name arguments' k inst "sy_hub s" cm frame h' connector_id kk]
      that kk' by auto
  ultimately show ?thesis by blast
qed

theorem mutating_commands_exclusive_witness:
  "{i. \<exists>r. sy_running demo_busy i = Some r
       \<and> started_as demo_sha ''dev-1'' ''files.write'' [(''path'', JStr ''a.txt'')] (command_of r)} = {0}
   \<and> \<not> is_started (fst (device_command (demo_env\<lparr>ce_drawn_uuid := ''r-2''\<rparr>) (demo_identity\<lparr>di_client_id := ''other''\<rparr>)
        ''files.write'' ''dev-1'' [(''path'', JStr ''a.txt'')] ''k-2'' None (sy_hub demo_busy)))"
proof -
  obtain cm frame h' where go: "demo_command = (Inr (Started cm frame), h')"
    using is_startedE [OF demo_command_started] by blast
  have cm: "demo_cm = cm" by (simp only: demo_cm_def go prod.sel sum.case start.case)
  have name: "parse_connector_id (JStr ''dev-1'') = Inr ''dev-1''" by code_simp
  have sha: "ce_sha demo_env = demo_sha" by (simp add: demo_env_def)
  from name sha go [unfolded demo_command_def]
  have "started_as demo_sha ''dev-1'' ''files.write'' [(''path'', JStr ''a.txt'')] demo_cm"
    unfolding started_as_def cm by blast
  then have mine: "started_as demo_sha ''dev-1'' ''files.write'' [(''path'', JStr ''a.txt'')] (command_of (Writing demo_cm))"
    by simp
  have tool: "''files.write'' \<in> set MUTATING_RELAY_TOOLS" by code_simp
  have zero: "sy_running demo_busy 0 = Some (Writing demo_cm)" by (simp add: demo_busy_def)
  have "i = 0" if "sy_running demo_busy i = Some r"
    "started_as demo_sha ''dev-1'' ''files.write'' [(''path'', JStr ''a.txt'')] (command_of r)" for i r
    using mutating_commands_exclusive [OF demo_busy_reachable tool zero mine refl] that by blast
  moreover have "\<not> is_started (fst (device_command (demo_env\<lparr>ce_drawn_uuid := ''r-2''\<rparr>) (demo_identity\<lparr>di_client_id := ''other''\<rparr>)
      ''files.write'' ''dev-1'' [(''path'', JStr ''a.txt'')] ''k-2'' None (sy_hub demo_busy)))"
    using mutating_commands_exclusive [OF demo_busy_reachable tool zero mine refl,
        where env = "demo_env\<lparr>ce_drawn_uuid := ''r-2''\<rparr>" and name = "''dev-1''"] name sha
    by (auto dest!: is_startedE)
  ultimately show ?thesis using zero mine by (auto intro: exI [where x = "Writing demo_cm"])
qed

text \<open>
  C12. The guard is released on every path: in every reachable state a slot of the guard is taken
  exactly when a command under way holds it, so a response, a timeout, a transport error or a
  cancellation never leaves a slot behind.
\<close>

theorem guard_taken_iff_running:
  assumes "reachable sha edv stale st0 s"
  shows "hb_in_flight (sy_hub s) k = Some rid \<longleftrightarrow>
     (\<exists>i r. sy_running s i = Some r \<and> cm_collision_key (command_of r) = Some k
           \<and> cm_request_id (command_of r) = rid)"
proof -
  have "guard.agrees (sy_hub s) (holds s)"
    using guard_ok_reachable [OF assms] by (simp add: guard_ok_def)
  then have "hb_in_flight (sy_hub s) k = Some rid \<longleftrightarrow> (\<exists>i. holds s i = Some (k, rid))"
    by (rule guard.agrees_held)
  then show ?thesis by (simp add: holds_iff)
qed

theorem guard_taken_iff_running_witness:
  "\<exists>k. hb_in_flight (sy_hub demo_busy) k = Some (cm_request_id demo_cm)"
proof -
  obtain k where "cm_collision_key demo_cm = Some k" using demo_busy_key by blast
  then have "\<exists>i r. sy_running demo_busy i = Some r \<and> cm_collision_key (command_of r) = Some k
      \<and> cm_request_id (command_of r) = cm_request_id demo_cm"
    by (intro exI [where x = 0] exI [where x = "Writing demo_cm"]) (simp add: demo_busy_def)
  then show ?thesis using guard_taken_iff_running [OF demo_busy_reachable] by blast
qed

end
