(* ===== verification/Routing.thy ===== *)
theory Routing
  imports System
begin

text \<open>
  Who can answer whom: sessions, futures and the commands under way. Every reference in use has
  been allocated, the futures of different commands are different, and a future is pending only
  in the session its command was sent to, under the request id of that command.
\<close>

section \<open>Well-formed shared state\<close>

definition session_ok :: "nat \<Rightarrow> session \<Rightarrow> bool" where
  "session_ok n se =
     ((\<forall>f \<in> snd ` set (se_pending se). f < n)
      \<and> capabilities_for_profile (se_capability_profile se) = Inr (se_capabilities se))"

definition hub_wf :: "hub \<Rightarrow> bool" where
  "hub_wf h \<longleftrightarrow>
     (\<forall>f. hb_next_future h \<le> f \<longrightarrow> hb_futures h f = None)
     \<and> (\<forall>ref. hb_next_session h \<le> ref \<longrightarrow> hb_heap h ref = None)
     \<and> (\<forall>ref se. hb_heap h ref = Some se \<longrightarrow> session_ok (hb_next_future h) se)
     \<and> (\<forall>c ref. hb_sessions h c = Some ref \<longrightarrow> (\<exists>se. hb_heap h ref = Some se \<and> se_connector_id se = c))"

definition links_ok :: "sys \<Rightarrow> bool" where
  "links_ok s \<longleftrightarrow>
     (\<forall>i r. sy_running s i = Some r \<longrightarrow>
        cm_future (command_of r) < hb_next_future (sy_hub s)
        \<and> (\<exists>se. hb_heap (sy_hub s) (cm_session (command_of r)) = Some se
               \<and> se_connector_id se = cm_connector_id (command_of r)))
     \<and> (\<forall>i j r r'. sy_running s i = Some r \<longrightarrow> sy_running s j = Some r' \<longrightarrow>
          cm_future (command_of r) = cm_future (command_of r') \<longrightarrow> i = j)
     \<and> (\<forall>ref se rid f i r. hb_heap (sy_hub s) ref = Some se \<longrightarrow> (rid, f) \<in> set (se_pending se) \<longrightarrow>
          sy_running s i = Some r \<longrightarrow> cm_future (command_of r) = f \<longrightarrow>
          cm_session (command_of r) = ref \<and> cm_request_id (command_of r) = rid)"

lemma links_running:
  "links_ok s \<Longrightarrow> sy_running s i = Some r \<Longrightarrow>
     cm_future (command_of r) < hb_next_future (sy_hub s)
     \<and> (\<exists>se. hb_heap (sy_hub s) (cm_session (command_of r)) = Some se
            \<and> se_connector_id se = cm_connector_id (command_of r))"
  unfolding links_ok_def by blast

lemma links_distinct:
  "links_ok s \<Longrightarrow> sy_running s i = Some r \<Longrightarrow> sy_running s j = Some r' \<Longrightarrow>
   cm_future (command_of r) = cm_future (command_of r') \<Longrightarrow> i = j"
  unfolding links_ok_def by blast

lemma links_pending:
  "links_ok s \<Longrightarrow> hb_heap (sy_hub s) ref = Some se \<Longrightarrow> (rid, cm_future (command_of r)) \<in> set (se_pending se) \<Longrightarrow>
   sy_running s i = Some r \<Longrightarrow> cm_session (command_of r) = ref \<and> cm_request_id (command_of r) = rid"
  unfolding links_ok_def by blast

section \<open>Steps that only let go\<close>

text \<open>
  Most pieces allocate nothing a command uses, and add no pending entry and no registration:
  \<open>shrinks h h'\<close>. Such a piece keeps everything.
\<close>

definition shrunk :: "session \<Rightarrow> session \<Rightarrow> bool" where
  "shrunk se se' \<longleftrightarrow>
     set (se_pending se') \<subseteq> set (se_pending se) \<and> se_connector_id se' = se_connector_id se
     \<and> se_capabilities se' = se_capabilities se \<and> se_capability_profile se' = se_capability_profile se"

definition shrinks :: "hub \<Rightarrow> hub \<Rightarrow> bool" where
  "shrinks h h' \<longleftrightarrow>
     hb_next_future h \<le> hb_next_future h' \<and> hb_next_session h' = hb_next_session h
     \<and> (\<forall>f. hb_next_future h' \<le> f \<longrightarrow> hb_futures h f = None \<longrightarrow> hb_futures h' f = None)
     \<and> (\<forall>ref. rel_option shrunk (hb_heap h ref) (hb_heap h' ref))
     \<and> (\<forall>c ref. hb_sessions h' c = Some ref \<longrightarrow> hb_sessions h c = Some ref)"

lemma shrunk_refl [simp]: "shrunk se se"
  by (simp add: shrunk_def)

lemma shrunk_trans: "shrunk a b \<Longrightarrow> shrunk b c \<Longrightarrow> shrunk a c"
  by (auto simp: shrunk_def)

lemma rel_option_shrunk_refl [simp]: "rel_option shrunk x x"
  by (simp add: option.rel_refl)

lemma shrinks_refl [simp]: "shrinks h h"
  by (simp add: shrinks_def)

lemma shrinks_trans: "shrinks a b \<Longrightarrow> shrinks b c \<Longrightarrow> shrinks a c"
proof -
  assume ab: "shrinks a b" and bc: "shrinks b c"
  have "rel_option shrunk (hb_heap a ref) (hb_heap c ref)" for ref
  proof -
    have "rel_option shrunk (hb_heap a ref) (hb_heap b ref)" "rel_option shrunk (hb_heap b ref) (hb_heap c ref)"
      using ab bc by (simp_all add: shrinks_def)
    then show ?thesis
      by (cases "hb_heap a ref"; cases "hb_heap b ref"; cases "hb_heap c ref") (auto intro: shrunk_trans)
  qed
  with ab bc show ?thesis by (auto simp: shrinks_def)
qed

lemma shrinks_session:
  "shrinks h h' \<Longrightarrow> hb_heap h' ref = Some se' \<Longrightarrow> \<exists>se. hb_heap h ref = Some se \<and> shrunk se se'"
  unfolding shrinks_def by (metis option_rel_Some2)

lemma shrinks_session':
  "shrinks h h' \<Longrightarrow> hb_heap h ref = Some se \<Longrightarrow> \<exists>se'. hb_heap h' ref = Some se' \<and> shrunk se se'"
  unfolding shrinks_def by (metis option_rel_Some1)

lemma shrinks_wf:
  assumes wf: "hub_wf h" and sh: "shrinks h h'"
  shows "hub_wf h'"
proof -
  have next_f: "hb_next_future h \<le> hb_next_future h'" and next_s: "hb_next_session h' = hb_next_session h"
    using sh by (simp_all add: shrinks_def)
  have "hb_futures h' f = None" if "hb_next_future h' \<le> f" for f
  proof -
    have "hb_futures h f = None" using wf next_f that by (simp add: hub_wf_def)
    with sh that show ?thesis by (simp add: shrinks_def)
  qed
  moreover have "hb_heap h' ref = None" if "hb_next_session h' \<le> ref" for ref
  proof (rule ccontr)
    assume "hb_heap h' ref \<noteq> None"
    then obtain se' where "hb_heap h' ref = Some se'" by blast
    from shrinks_session [OF sh this] wf that next_s show False by (auto simp: hub_wf_def)
  qed
  moreover have "session_ok (hb_next_future h') se'" if mem: "hb_heap h' ref = Some se'" for ref se'
  proof -
    obtain se where se: "hb_heap h ref = Some se" "shrunk se se'" using shrinks_session [OF sh mem] by blast
    then have "session_ok (hb_next_future h) se" using wf by (simp add: hub_wf_def)
    with se next_f show ?thesis by (fastforce simp: session_ok_def shrunk_def)
  qed
  moreover have "\<exists>se. hb_heap h' ref = Some se \<and> se_connector_id se = c" if "hb_sessions h' c = Some ref" for c ref
  proof -
    have "hb_sessions h c = Some ref" using sh that by (simp add: shrinks_def)
    then obtain se where "hb_heap h ref = Some se" "se_connector_id se = c"
      using wf unfolding hub_wf_def by blast
    with shrinks_session' [OF sh] show ?thesis by (fastforce simp: shrunk_def)
  qed
  ultimately show ?thesis by (simp add: hub_wf_def)
qed

lemma shrinks_links:
  assumes ok: "links_ok s" and sh: "shrinks (sy_hub s) h'"
    and sub: "\<And>i r. run i = Some r \<Longrightarrow> \<exists>r'. sy_running s i = Some r' \<and> command_of r' = command_of r"
  shows "links_ok (s\<lparr>sy_hub := h', sy_running := run\<rparr>)"
proof -
  have eqs: "sy_hub (s\<lparr>sy_hub := h', sy_running := run\<rparr>) = h'"
    "sy_running (s\<lparr>sy_hub := h', sy_running := run\<rparr>) = run" by simp_all
  show ?thesis unfolding links_ok_def eqs
proof (intro conjI allI impI)
  fix i r assume "run i = Some r"
  then obtain r' where r': "sy_running s i = Some r'" "command_of r' = command_of r" using sub by blast
  note link = links_running [OF ok r'(1), unfolded r'(2)]
  then obtain se where se: "hb_heap (sy_hub s) (cm_session (command_of r)) = Some se"
      "se_connector_id se = cm_connector_id (command_of r)" by blast
  show "cm_future (command_of r) < hb_next_future h'"
    using link sh by (simp add: shrinks_def)
  show "\<exists>se. hb_heap h' (cm_session (command_of r)) = Some se \<and> se_connector_id se = cm_connector_id (command_of r)"
    using shrinks_session' [OF sh se(1)] se(2) by (auto simp: shrunk_def)
next
  fix i j r q assume *: "run i = Some r" "run j = Some q" "cm_future (command_of r) = cm_future (command_of q)"
  obtain r' where r': "sy_running s i = Some r'" "command_of r' = command_of r" using sub *(1) by blast
  obtain q' where q': "sy_running s j = Some q'" "command_of q' = command_of q" using sub *(2) by blast
  show "i = j" using links_distinct [OF ok r'(1) q'(1)] r'(2) q'(2) *(3) by simp
next
  fix ref se' rid f i r
  assume *: "hb_heap h' ref = Some se'" "(rid, f) \<in> set (se_pending se')" "run i = Some r"
    "cm_future (command_of r) = f"
  obtain se where se: "hb_heap (sy_hub s) ref = Some se" "shrunk se se'" using shrinks_session [OF sh *(1)] by blast
  obtain r' where r': "sy_running s i = Some r'" "command_of r' = command_of r" using sub *(3) by blast
  have "(rid, cm_future (command_of r')) \<in> set (se_pending se)"
    using *(2,4) se(2) r'(2) by (auto simp: shrunk_def)
  from links_pending [OF ok se(1) this r'(1)]
  show "cm_session (command_of r) = ref" "cm_request_id (command_of r) = rid"
    using r'(2) by simp_all
qed
qed

section \<open>Which pieces let go\<close>

lemma shrinks_store [simp]: "shrinks h (h'\<lparr>hb_store := st\<rparr>) = shrinks h h'"
  by (simp add: shrinks_def)

lemma shrinks_in_flight [simp]: "shrinks h (h'\<lparr>hb_in_flight := g\<rparr>) = shrinks h h'"
  by (simp add: shrinks_def)

lemma shrinks_heap:
  "hb_heap h ref = Some se \<Longrightarrow> shrunk se se' \<Longrightarrow> shrinks h (h\<lparr>hb_heap := (hb_heap h)(ref \<mapsto> se')\<rparr>)"
  by (auto simp: shrinks_def)

lemma shrinks_futures:
  "(\<And>f. hb_futures h f = None \<Longrightarrow> g f = None) \<Longrightarrow> shrinks h (h\<lparr>hb_futures := g\<rparr>)"
  by (simp add: shrinks_def)

lemma shrinks_unregister: "shrinks h (h\<lparr>hb_sessions := (hb_sessions h)(c := None)\<rparr>)"
  by (auto simp: shrinks_def split: if_splits)

lemma shrinks_new_future: "shrinks h (snd (new_future h))"
  by (auto simp: shrinks_def new_future_def)

lemma shrinks_fail_pending: "shrinks h (fail_pending ref h)"
proof (cases "hb_heap h ref")
  case (Some se)
  let ?g = "\<lambda>f. if f \<in> snd ` set (se_pending se) \<and> hb_futures h f = Some FPending
                then Some (FError (AgentError ''device_offline'')) else hb_futures h f"
  have "shrinks h (h\<lparr>hb_futures := ?g\<rparr>)" by (rule shrinks_futures) simp
  moreover have "shrinks (h\<lparr>hb_futures := ?g\<rparr>)
      (h\<lparr>hb_futures := ?g, hb_heap := (hb_heap h)(ref \<mapsto> se\<lparr>se_pending := []\<rparr>)\<rparr>)"
    using shrinks_heap [of "h\<lparr>hb_futures := ?g\<rparr>" ref se "se\<lparr>se_pending := []\<rparr>"] Some
    by (simp add: shrunk_def)
  ultimately show ?thesis using Some by (simp add: fail_pending_def shrinks_trans)
qed (simp add: fail_pending_def)

lemma shrinks_remove: "shrinks h (snd (remove ref h))"
  using shrinks_fail_pending [of h ref] shrinks_trans [OF shrinks_unregister shrinks_fail_pending]
  by (simp add: remove_def split: option.split)

lemma shrinks_receive: "shrinks h (snd (receive_response ref m h))"
  by (auto simp: receive_response_def split: option.split sum.split intro!: shrinks_futures)

lemma shrinks_serve: "shrinks h (snd (serve_message ref t m h))"
proof (cases "hb_heap h ref")
  case (Some se)
  have "shrinks (h\<lparr>hb_store := st\<rparr>)
      (h\<lparr>hb_store := st, hb_heap := (hb_heap h)(ref \<mapsto> se\<lparr>se_context_epoch := e\<rparr>)\<rparr>)" for st e
    using shrinks_heap [of "h\<lparr>hb_store := st\<rparr>" ref se "se\<lparr>se_context_epoch := e\<rparr>"] Some
    by (simp add: shrunk_def)
  then have "shrinks h (h\<lparr>hb_store := st, hb_heap := (hb_heap h)(ref \<mapsto> se\<lparr>se_context_epoch := e\<rparr>)\<rparr>)" for st e
    by (rule shrinks_trans [rotated]) simp
  with Some shrinks_receive show ?thesis
    by (simp add: serve_message_def split: option.split sum.split prod.split)
qed (simp add: serve_message_def)

lemma shrinks_close: "shrinks h (close_session ref registered t h)"
  using shrinks_remove [of h ref] by (simp add: close_session_def split_beta split: option.split)

lemma shrinks_pop: "shrinks h (pop_pending ref rid h)"
proof (cases "hb_heap h ref")
  case (Some se)
  have "set (AList.delete rid (se_pending se)) \<subseteq> set (se_pending se)"
    by (auto simp: AList.delete_eq)
  with Some show ?thesis
    by (simp add: pop_pending_def shrunk_def shrinks_heap)
qed (simp add: pop_pending_def)

lemma shrinks_release_guard [simp]: "shrinks h (release_collision_guard key h') = shrinks h h'"
  by (simp add: release_collision_guard_def split: option.split)

lemma shrinks_release: "shrinks h (release_command cm h)"
  by (simp add: release_command_def shrinks_pop)

lemma shrinks_cancel_future: "shrinks h (cancel_future f h)"
  by (auto simp: cancel_future_def intro!: shrinks_futures)

lemma shrinks_complete [simp]: "shrinks h (complete_command cm st r t h') = shrinks h h'"
  by (simp add: complete_command_def)

lemma shrinks_fail: "shrinks h (snd (fail_command failure cm t h))"
  by (simp add: fail_command_def shrinks_trans [OF _ shrinks_release])

lemma shrinks_finish: "shrinks h (snd (finish_command ev t1 t2 cm r h))"
  using shrinks_release [of h cm]
  by (simp add: finish_command_def Let_def bindH_storeH split: sum.split)

lemma shrinks_storeH: "shrinks h (snd (storeH m h))"
  by (simp add: storeH_def)

lemma shrinks_fail_trans: "shrinks h h' \<Longrightarrow> shrinks h (snd (fail_command failure cm t h'))"
  by (rule shrinks_trans [OF _ shrinks_fail])

lemma shrinks_after_write: "shrinks h (snd (after_write way ev t1 t2 cm h))"
  by (cases way)
    (simp_all add: after_write_def Let_def split_beta storeH_def shrinks_fail_trans shrinks_release)

lemma shrinks_after_wait:
  assumes "after_wait way ev t1 t2 cm h = Some (r, h')"
  shows "shrinks h h'"
proof (cases way)
  case FutureDone
  show ?thesis
  proof (cases "hb_futures h (cm_future cm)")
    case (Some fs)
    show ?thesis
    proof (cases fs)
      case (FResult x)
      with assms FutureDone Some have "finish_command ev t1 t2 cm x h = (r, h')" by (simp add: after_wait_def)
      then show ?thesis using shrinks_finish [of h ev t1 t2 cm x] by simp
    next
      case (FError e)
      with assms FutureDone Some have "fail_command ''device_offline'' cm t1 h = (r, h')"
        by (simp add: after_wait_def)
      then show ?thesis using shrinks_fail [of h "''device_offline''" cm t1] by simp
    qed (use assms FutureDone Some shrinks_release in \<open>auto simp: after_wait_def\<close>)
  qed (use assms FutureDone in \<open>simp add: after_wait_def\<close>)
next
  case WindowPassed
  with assms have "h' = snd (fail_command ''device_timeout'' cm t1 (cancel_future (cm_future cm) h))"
    by (auto simp: after_wait_def split: if_splits)
  then show ?thesis using shrinks_trans [OF shrinks_cancel_future shrinks_fail] by simp
next
  case TaskCancelled
  with assms have "h' = release_command cm (cancel_future (cm_future cm) h)" by (simp add: after_wait_def)
  then show ?thesis using shrinks_trans [OF shrinks_cancel_future shrinks_release] by simp
qed

lemma shrinks_cancel: "shrinks h (snd (cancel_request stale t c rid h))"
  by (simp add: cancel_request_def bindH_apply liftH_def readH_def storeH_def split: option.split sum.split)

lemma shrinks_after_cancel: "shrinks h (snd (after_cancel_write ev t c rid f h))"
proof -
  have "shrinks h (h\<lparr>hb_futures := (hb_futures h)(f \<mapsto> x)\<rparr>)" if "hb_futures h f = Some FPending" for x
    using that by (intro shrinks_futures) auto
  then show ?thesis by (simp add: after_cancel_write_def Let_def bindH_storeH split: sum.split)
qed

lemma shrinks_route: "shrinks h (snd (route_command env c inst h))"
  by (simp add: route_command_def bindH_storeH split: sum.split option.split prod.split)

lemma shrinks_not_started:
  assumes "device_command env identity tool connector arguments k inst h = (r, h')"
    and "\<forall>cm frame. r \<noteq> Inr (Started cm frame)"
  shows "shrinks h h'"
proof -
  have claim: "shrinks h (snd (claim_command env identity tool c arguments k row ref h1))"
    if h1: "shrinks h h1"
      and no: "\<forall>cm frame. fst (claim_command env identity tool c arguments k row ref h1) \<noteq> Inr (Started cm frame)"
    for c row ref h1
  proof -
    have "shrinks h (snd (new_future (h1\<lparr>hb_store := x\<rparr>)))" for x
      by (rule shrinks_trans [OF _ shrinks_new_future]) (simp add: h1)
    with h1 no show ?thesis
      by (simp add: claim_command_eq Let_def split: claim_outcome.splits if_splits)
  qed
  obtain c where c: "parse_connector_id (JStr connector) = Inr c \<or> h' = h"
    using assms(1) by (cases "parse_connector_id (JStr connector)") (auto simp: device_command_def)
  show ?thesis
  proof (cases "h' = h")
    case False
    with c have c': "parse_connector_id (JStr connector) = Inr c" by simp
    have match: "\<not> (case di_app_assertion identity of None \<Rightarrow> False | Some a \<Rightarrow> fld a ''connector_id'' \<noteq> JStr c)"
      using assms(1) c' False by (auto simp: device_command_def)
    let ?route = "route_command env c inst h"
    have run: "bindH (route_command env c inst) (\<lambda>(row, ref, s).
        bindH (admit_command env identity tool arguments s) (\<lambda>_.
        claim_command env identity tool c arguments k row ref)) h = (r, h')"
      using assms(1) c' match by (simp add: device_command_def)
    show ?thesis
    proof (cases "fst ?route")
      case (Inl e)
      with run shrinks_route [of h env c inst] show ?thesis by (simp add: bindH_apply)
    next
      case (Inr x)
      obtain row ref se where x: "x = (row, ref, se)" by (cases x)
      show ?thesis
      proof (cases "fst (admit_command env identity tool arguments se (snd ?route))")
        case (Inl e)
        with run Inr x shrinks_route [of h env c inst] show ?thesis
          by (simp add: bindH_apply admit_command_frame)
      next
        case u: (Inr u)
        have "claim_command env identity tool c arguments k row ref (snd ?route) = (r, h')"
          using run Inr x u by (simp add: bindH_apply admit_command_frame)
        with claim [OF shrinks_route [of h env c inst], where c = c and row = row and ref = ref] assms(2) show ?thesis by simp
      qed
    qed
  qed simp
qed

section \<open>Starting a command and opening a session\<close>

lemma AList_update_subset: "set (AList.update k v al) \<subseteq> insert (k, v) (set al)"
  by (induction al) auto

lemma start_links:
  assumes ok: "links_ok s" and wf: "hub_wf (sy_hub s)" and free: "sy_running s i = None"
    and go: "device_command env identity tool connector arguments k inst (sy_hub s) = (Inr (Started cm frame), h')"
  shows "hub_wf h' \<and> links_ok (s\<lparr>sy_hub := h', sy_running := (sy_running s)(i \<mapsto> Writing cm)\<rparr>)"
proof -
  let ?h = "sy_hub s"
  from device_command_started [OF go] obtain c row ref se st where
    ref: "get_exact c (in_instance_id row) ?h = Some ref" "hb_heap ?h ref = Some se"
    and cm: "cm = started_command env identity tool c arguments k row ref (hb_next_future ?h)"
    and h': "h' = put_pending ref (cm_request_id cm) (cm_future cm)
               (hold_guard (cm_collision_key cm) (cm_request_id cm) (snd (new_future (?h\<lparr>hb_store := st\<rparr>))))"
    by (auto simp: Let_def)
  have ids: "cm_session cm = ref" "cm_future cm = hb_next_future ?h" "cm_connector_id cm = c"
    by (simp_all add: cm started_command_def)
  have conn: "se_connector_id se = c"
  proof -
    have "hb_sessions ?h c = Some ref"
      using ref(1) by (auto simp: get_exact_def split: option.splits if_splits)
    with wf ref(2) show ?thesis unfolding hub_wf_def by fastforce
  qed
  let ?se = "se\<lparr>se_pending := AList.update (cm_request_id cm) (cm_future cm) (se_pending se)\<rparr>"
  have fields: "hb_next_future h' = Suc (hb_next_future ?h)" "hb_next_session h' = hb_next_session ?h"
    "hb_futures h' = (hb_futures ?h)(hb_next_future ?h \<mapsto> FPending)" "hb_sessions h' = hb_sessions ?h"
    by (simp_all add: h' put_pending_frame hold_guard_frame new_future_def)
  have heap: "hb_heap h' = (hb_heap ?h)(ref \<mapsto> ?se)"
    using ref(2) by (simp add: h' put_pending_def hold_guard_frame new_future_def)
  have pend: "set (se_pending ?se) \<subseteq> insert (cm_request_id cm, cm_future cm) (set (se_pending se))"
    using AList_update_subset by simp
  have below: "\<forall>f \<in> snd ` set (se_pending q). f < hb_next_future ?h" if "hb_heap ?h n = Some q" for n q
    using wf that unfolding hub_wf_def session_ok_def by blast
  have old: "session_ok (hb_next_future ?h) q" if "hb_heap ?h n = Some q" for n q
    using wf that unfolding hub_wf_def by blast
  have wf': "hub_wf h'"
    unfolding hub_wf_def fields heap
  proof (intro conjI allI impI)
    fix n q assume "((hb_heap ?h)(ref \<mapsto> ?se)) n = Some q"
    then show "session_ok (Suc (hb_next_future ?h)) q"
      using old [of n q] old [OF ref(2)] pend ids(2)
      by (fastforce simp: session_ok_def split: if_splits)
  next
    fix f assume "Suc (hb_next_future ?h) \<le> f"
    then show "((hb_futures ?h)(hb_next_future ?h \<mapsto> FPending)) f = None"
      using wf by (simp add: hub_wf_def)
  next
    fix n assume "hb_next_session ?h \<le> n"
    then show "((hb_heap ?h)(ref \<mapsto> ?se)) n = None"
      using wf ref(2) by (auto simp: hub_wf_def)
  next
    fix d n assume "hb_sessions ?h d = Some n"
    then obtain q where "hb_heap ?h n = Some q" "se_connector_id q = d" using wf unfolding hub_wf_def by blast
    then show "\<exists>q. ((hb_heap ?h)(ref \<mapsto> ?se)) n = Some q \<and> se_connector_id q = d"
      using ref(2) by auto
  qed
  let ?s' = "s\<lparr>sy_hub := h', sy_running := (sy_running s)(i \<mapsto> Writing cm)\<rparr>"
  have fresh: "cm_future (command_of r) < hb_next_future ?h" if "sy_running s j = Some r" for j r
    using links_running [OF ok that] by blast
  have eqs: "sy_hub ?s' = h'" "sy_running ?s' = (sy_running s)(i \<mapsto> Writing cm)" by simp_all
  have "links_ok ?s'"
    unfolding links_ok_def eqs heap fields
  proof (intro conjI allI impI)
    fix j r assume run: "((sy_running s)(i \<mapsto> Writing cm)) j = Some r"
    show "cm_future (command_of r) < Suc (hb_next_future ?h)"
      using run fresh [of j r] ids(2) by (cases "j = i") auto
    show "\<exists>q. ((hb_heap ?h)(ref \<mapsto> ?se)) (cm_session (command_of r)) = Some q
        \<and> se_connector_id q = cm_connector_id (command_of r)"
      using run links_running [OF ok, of j r] ids conn ref(2) by (cases "j = i") auto
  next
    fix j j' r r'
    assume "((sy_running s)(i \<mapsto> Writing cm)) j = Some r" "((sy_running s)(i \<mapsto> Writing cm)) j' = Some r'"
      "cm_future (command_of r) = cm_future (command_of r')"
    then show "j = j'"
      using fresh [of j r] fresh [of j' r'] links_distinct [OF ok, of j r j' r'] ids(2)
      by (auto split: if_splits)
  next
    fix n q rid f j r
    assume q: "((hb_heap ?h)(ref \<mapsto> ?se)) n = Some q" and mem: "(rid, f) \<in> set (se_pending q)"
      and run: "((sy_running s)(i \<mapsto> Writing cm)) j = Some r" and f: "cm_future (command_of r) = f"
    have "(rid, f) = (cm_request_id cm, cm_future cm) \<and> n = ref
        \<or> (\<exists>q0. hb_heap ?h n = Some q0 \<and> (rid, f) \<in> set (se_pending q0))"
      using q mem pend ref(2) by (cases "n = ref") auto
    then have "cm_session (command_of r) = n \<and> cm_request_id (command_of r) = rid"
    proof
      assume *: "(rid, f) = (cm_request_id cm, cm_future cm) \<and> n = ref"
      then have "j = i" using run f fresh [of j r] ids(2) by (cases "j = i") auto
      with run * ids(1) show ?thesis by auto
    next
      assume "\<exists>q0. hb_heap ?h n = Some q0 \<and> (rid, f) \<in> set (se_pending q0)"
      then obtain q0 where q0: "hb_heap ?h n = Some q0" "(rid, f) \<in> set (se_pending q0)" by blast
      then have "f < hb_next_future ?h" using below by fastforce
      then have "j \<noteq> i" using run f ids(2) by auto
      with run have "sy_running s j = Some r" by simp
      with links_pending [OF ok q0(1)] q0(2) f show ?thesis by blast
    qed
    then show "cm_session (command_of r) = n" "cm_request_id (command_of r) = rid" by simp_all
  qed
  with wf' show ?thesis by simp
qed

lemma open_links:
  assumes ok: "links_ok s" and wf: "hub_wf (sy_hub s)" and fr: "fresh_session se"
    and new: "new_session se (sy_hub s) = (ref, h')"
  shows "hub_wf (register ref h') \<and> links_ok (s\<lparr>sy_hub := register ref h'\<rparr>)"
proof -
  let ?h = "sy_hub s"
  have ref: "ref = hb_next_session ?h"
    and h': "h' = ?h\<lparr>hb_heap := (hb_heap ?h)(ref \<mapsto> se), hb_next_session := Suc (hb_next_session ?h)\<rparr>"
    using new by (auto simp: new_session_def)
  have unused: "hb_heap ?h ref = None" using wf ref by (simp add: hub_wf_def)
  have heap: "hb_heap h' = (hb_heap ?h)(ref \<mapsto> se)" and sess: "hb_sessions h' = hb_sessions ?h"
    by (simp_all add: h')
  have wf1: "hub_wf h'"
    unfolding hub_wf_def heap sess
  proof (intro conjI allI impI)
    fix n q assume "((hb_heap ?h)(ref \<mapsto> se)) n = Some q"
    then show "session_ok (hb_next_future h') q"
      using wf fr by (auto simp: hub_wf_def session_ok_def fresh_session_def h' split: if_splits)
  next
    fix d n assume "hb_sessions ?h d = Some n"
    then show "\<exists>q. ((hb_heap ?h)(ref \<mapsto> se)) n = Some q \<and> se_connector_id q = d"
      using wf unused unfolding hub_wf_def by force
  qed (use wf ref in \<open>auto simp: hub_wf_def h'\<close>)
  have links1: "links_ok (s\<lparr>sy_hub := h'\<rparr>)"
  proof -
    have eqs: "sy_hub (s\<lparr>sy_hub := h'\<rparr>) = h'" "sy_running (s\<lparr>sy_hub := h'\<rparr>) = sy_running s"
      "hb_next_future h' = hb_next_future ?h" by (simp_all add: h')
    show ?thesis
      unfolding links_ok_def eqs heap
    proof (intro conjI allI impI)
      fix i r assume run: "sy_running s i = Some r"
      from links_running [OF ok this] show "cm_future (command_of r) < hb_next_future ?h" by blast
      from links_running [OF ok run] unused
      show "\<exists>q. ((hb_heap ?h)(ref \<mapsto> se)) (cm_session (command_of r)) = Some q
          \<and> se_connector_id q = cm_connector_id (command_of r)" by force
    next
      fix n q rid f i r
      assume "((hb_heap ?h)(ref \<mapsto> se)) n = Some q" "(rid, f) \<in> set (se_pending q)"
        "sy_running s i = Some r" "cm_future (command_of r) = f"
      moreover from this fr have "hb_heap ?h n = Some q" by (auto simp: fresh_session_def split: if_splits)
      ultimately show "cm_session (command_of r) = n" "cm_request_id (command_of r) = rid"
        using links_pending [OF ok] by blast+
    qed (rule links_distinct [OF ok])
  qed
  obtain g where reg: "register ref h' = g\<lparr>hb_sessions := (hb_sessions g)(se_connector_id se \<mapsto> ref)\<rparr>"
    and g: "shrinks h' g"
    using shrinks_fail_pending [of h']
    by (cases "hb_sessions h' (se_connector_id se)") (auto simp: register_def heap Let_def)
  have wf2: "hub_wf g" and links2: "links_ok (s\<lparr>sy_hub := g\<rparr>)"
    using shrinks_wf [OF wf1 g] shrinks_links [OF links1, of g "sy_running s"] g by auto
  obtain se' where "hb_heap g ref = Some se'" "se_connector_id se' = se_connector_id se"
    using shrinks_session' [OF g, of ref se] heap by (auto simp: shrunk_def)
  with wf2 have "hub_wf (register ref h')" unfolding reg hub_wf_def by simp
  moreover have "links_ok (s\<lparr>sy_hub := register ref h'\<rparr>)"
    using links2 unfolding reg links_ok_def by simp
  ultimately show ?thesis by simp
qed

section \<open>Reachable states\<close>

definition routing_ok :: "sys \<Rightarrow> bool" where
  "routing_ok s \<longleftrightarrow> hub_wf (sy_hub s) \<and> links_ok s"

lemma routing_shrinks:
  assumes "routing_ok s" and "shrinks (sy_hub s) h'"
    and "\<And>i r. run i = Some r \<Longrightarrow> \<exists>r'. sy_running s i = Some r' \<and> command_of r' = command_of r"
  shows "routing_ok (s\<lparr>sy_hub := h', sy_running := run\<rparr>)"
  using shrinks_wf [of "sy_hub s" h'] shrinks_links [of s h' run] assms by (simp add: routing_ok_def)

lemma routing_shrinks_hub:
  "routing_ok s \<Longrightarrow> shrinks (sy_hub s) h' \<Longrightarrow> routing_ok (s\<lparr>sy_hub := h'\<rparr>)"
  using routing_shrinks [of s h' "sy_running s"] by simp

lemma routing_ok_step: "sys_step sha edv stale s s' \<Longrightarrow> routing_ok s \<Longrightarrow> routing_ok s'"
proof (induction rule: sys_step.induct)
  case (start s i env identity tool connector arguments k inst cm frame h')
  with start_links [of s i] show ?case by (simp add: routing_ok_def)
next
  case (answer env identity tool connector arguments k inst s r h')
  then show ?case by (intro routing_shrinks_hub shrinks_not_started)
next
  case (written s i cm way ev t1 t2 h')
  then show ?case
    using shrinks_after_write [of "sy_hub s" way ev t1 t2 cm]
    by (intro routing_shrinks) (auto split: if_splits)
next
  case (write_ended s i cm way ev t1 t2 e h')
  then show ?case
    using shrinks_after_write [of "sy_hub s" way ev t1 t2 cm]
    by (intro routing_shrinks) (auto split: if_splits)
next
  case (wait_ended s i cm way' ev t1 t2 r' h')
  then show ?case
    using shrinks_after_wait [OF wait_ended(2)] by (intro routing_shrinks) (auto split: if_splits)
next
  case (cancel s t1 connector rid)
  then show ?case by (intro routing_shrinks_hub shrinks_cancel)
next
  case (cancelled s ev t1 connector rid f)
  then show ?case by (intro routing_shrinks_hub shrinks_after_cancel)
next
  case (opened se s ref h')
  with open_links [of s se ref h'] show ?case by (simp add: routing_ok_def)
next
  case (message s ref t1 m)
  then show ?case by (intro routing_shrinks_hub shrinks_serve)
next
  case (closed s ref registered t1)
  then show ?case by (intro routing_shrinks_hub shrinks_close)
next
  case (service s sop)
  then show ?case by (intro routing_shrinks_hub) simp_all
qed

lemma routing_ok_reachable: "reachable sha edv stale st0 s \<Longrightarrow> routing_ok s"
proof (induction rule: reachable.induct)
  case init
  show ?case by (simp add: routing_ok_def hub_wf_def links_ok_def sys_start_def)
qed (rule routing_ok_step)

lemma receive_response_accepted:
  assumes "receive_response ref m h = (Inr u, h')"
  shows "\<exists>se f. hb_heap h ref = Some se \<and> map_of (se_pending se) (or_empty (fld m ''request_id'')) = Some f
     \<and> hb_futures h f = Some FPending
     \<and> h' = h\<lparr>hb_futures := (hb_futures h)(f \<mapsto> FResult (response_result (fld m ''status'') (fld m ''result'')))\<rparr>"
  using assms by (auto simp: receive_response_def split: option.splits sum.splits if_splits)

section \<open>Properties\<close>

text \<open>
  C11. A device answers only what it was asked: in every reachable state an accepted response
  resolves one pending future, and a command that waits for that future was sent to this very
  session, for this session's connector, under the request id that the response names. Every
  other future is left alone.
\<close>

theorem response_reaches_only_its_command:
  assumes "reachable sha edv stale st0 s" and "receive_response ref m (sy_hub s) = (Inr (), h')"
  shows "\<exists>se f. hb_heap (sy_hub s) ref = Some se
     \<and> hb_futures (sy_hub s) f = Some FPending
     \<and> hb_futures h' f = Some (FResult (response_result (fld m ''status'') (fld m ''result'')))
     \<and> (\<forall>g. g \<noteq> f \<longrightarrow> hb_futures h' g = hb_futures (sy_hub s) g)
     \<and> (\<forall>i r. sy_running s i = Some r \<longrightarrow> cm_future (command_of r) = f \<longrightarrow>
          cm_session (command_of r) = ref
          \<and> cm_connector_id (command_of r) = se_connector_id se
          \<and> cm_request_id (command_of r) = or_empty (fld m ''request_id''))"
proof -
  from receive_response_accepted [OF assms(2)] obtain se f where
    se: "hb_heap (sy_hub s) ref = Some se"
    and f: "map_of (se_pending se) (or_empty (fld m ''request_id'')) = Some f" "hb_futures (sy_hub s) f = Some FPending"
    and h': "h' = (sy_hub s)\<lparr>hb_futures := (hb_futures (sy_hub s))
               (f \<mapsto> FResult (response_result (fld m ''status'') (fld m ''result'')))\<rparr>"
    by blast
  have ok: "links_ok s" using routing_ok_reachable [OF assms(1)] by (simp add: routing_ok_def)
  have pend: "(or_empty (fld m ''request_id''), f) \<in> set (se_pending se)" using f(1) by (rule map_of_SomeD)
  have "cm_session (command_of r) = ref \<and> cm_connector_id (command_of r) = se_connector_id se
      \<and> cm_request_id (command_of r) = or_empty (fld m ''request_id'')"
    if run: "sy_running s i = Some r" and fut: "cm_future (command_of r) = f" for i r
  proof -
    have "cm_session (command_of r) = ref \<and> cm_request_id (command_of r) = or_empty (fld m ''request_id'')"
      using links_pending [OF ok se _ run] pend fut by simp
    moreover from this links_running [OF ok run] se have "se_connector_id se = cm_connector_id (command_of r)" by auto
    ultimately show ?thesis by simp
  qed
  with se f h' show ?thesis by auto
qed

definition demo_response :: fields where
  "demo_response = [(''v'', JInt 1), (''type'', JStr ''response''), (''request_id'', JStr ''r-1''),
     (''tool'', JStr ''files.write''), (''connector_id'', JStr ''dev-1''), (''status'', JStr ''ok''),
     (''result'', JObj [(''bytes'', JInt 3)])]"

theorem response_reaches_only_its_command_witness:
  "cm_session demo_cm = 0 \<and> cm_request_id demo_cm = ''r-1''"
proof -
  let ?res = "receive_response 0 demo_response (sy_hub demo_busy)"
  obtain se where se: "hb_heap (sy_hub demo_busy) 0 = Some se" "se_connector_id se = ''dev-1''"
    "se_pending se = [(''r-1'', 0)]" using demo_busy_hub by (simp add: demo_session_def)
  have fut: "hb_futures (sy_hub demo_busy) 0 = Some FPending" "cm_future demo_cm = 0" by (rule demo_busy_hub)+
  have keys: "require_keys demo_response [''v'', ''type'', ''request_id'', ''tool'', ''connector_id'', ''status'', ''result''] [] = Inr ()"
    by (simp add: require_keys_def keys_def demo_response_def)
  have flds: "eq_int (fld demo_response ''v'') PROTOCOL_VERSION" "fld demo_response ''connector_id'' = JStr ''dev-1''"
    "fld demo_response ''request_id'' = JStr ''r-1''" "fld demo_response ''status'' = JStr ''ok''"
    by (simp_all add: eq_int_def fld_def demo_response_def PROTOCOL_VERSION_def)
  have acc: "receive_response 0 demo_response (sy_hub demo_busy) = (Inr (), snd ?res)"
    and pending: "hb_futures (snd ?res) (cm_future demo_cm) \<noteq> hb_futures (sy_hub demo_busy) (cm_future demo_cm)"
    using se fut keys flds by (simp_all add: receive_response_def check_status_def)
  have run: "sy_running demo_busy 0 = Some (Writing demo_cm)" by (simp add: demo_busy_def)
  have rid: "or_empty (fld demo_response ''request_id'') = ''r-1''" by (simp add: flds)
  from response_reaches_only_its_command [OF demo_busy_reachable acc] obtain f where
    others: "\<forall>g. g \<noteq> f \<longrightarrow> hb_futures (snd ?res) g = hb_futures (sy_hub demo_busy) g"
    and owner: "\<forall>i r. sy_running demo_busy i = Some r \<longrightarrow> cm_future (command_of r) = f \<longrightarrow>
      cm_session (command_of r) = 0 \<and> cm_request_id (command_of r) = or_empty (fld demo_response ''request_id'')"
    by blast
  have "cm_future demo_cm = f" using others pending by blast
  then have "cm_future (command_of (Writing demo_cm)) = f" by simp
  with owner run have "cm_session (command_of (Writing demo_cm)) = 0
      \<and> cm_request_id (command_of (Writing demo_cm)) = or_empty (fld demo_response ''request_id'')" by blast
  then show ?thesis by (simp add: rid)
qed

text \<open>
  A dead connection cannot take its successor down: when the session it owned is no longer
  the registered one, closing it leaves the registry and the successor's pending requests as they
  are, and does not mark the instance offline.
\<close>

theorem close_session_spares_successor:
  assumes "hb_heap h ref = Some se" and "hb_sessions h (se_connector_id se) = Some newer" and "newer \<noteq> ref"
  shows "hb_sessions (close_session ref True t h) = hb_sessions h
     \<and> hb_heap (close_session ref True t h) newer = hb_heap h newer
     \<and> hb_store (close_session ref True t h) = hb_store h"
  using assms by (simp add: close_session_def remove_def fail_pending_def)

definition demo_superseded :: hub where
  "demo_superseded = (let (ref, h) = new_session (demo_session\<lparr>se_connection_generation := ''gen-2''\<rparr>) demo_hub
     in register ref h)"

theorem close_session_spares_successor_witness:
  "hb_sessions (close_session 0 True (seconds 140) demo_superseded) ''dev-1'' = Some 1
   \<and> hb_store (close_session 0 True (seconds 140) demo_superseded) = hb_store demo_superseded"
proof -
  obtain se where old: "hb_heap demo_superseded 0 = Some se" and conn: "se_connector_id se = ''dev-1''"
  proof -
    have "map_option se_connector_id (hb_heap demo_superseded 0) = Some ''dev-1''" by code_simp
    then show thesis using that by auto
  qed
  have cur: "hb_sessions demo_superseded (se_connector_id se) = Some 1"
    unfolding conn by code_simp
  from close_session_spares_successor [OF old cur] cur conn show ?thesis by simp
qed

end
