(* ===== verification/Endpoint.thy ===== *)
theory Endpoint
  imports Routing
begin

text \<open>
  \<open>AgentRelayEndpoint.handle\<close> of \<open>remote_agent_connector/relay.py\<close>: the life of one relay
  connection, from the upgrade to the \<open>finally\<close> block. The code suspends at every send and every
  receive; a step is what runs from one suspension to the next, given how the suspension ended.
  Between two steps of a connection anything else may happen to the shared state. The last part
  shows that every step is a step of the transition system of \<open>System\<close>.
\<close>

section \<open>State of a connection\<close>

text \<open>Where the task is suspended; the flags say whether the challenge is the second one.\<close>

datatype phase =
    Fresh
  | AcceptSent
  | ChallengeSent bool
  | Listening bool
  | EnrolledSent
  | ReadySent
  | Serving
  | ErrorSent string
  | CloseSent
  | Done "exn option"

record connection =
  cn_phase :: phase
  cn_stage :: string
  cn_generation :: string
  cn_challenge_id :: string
  cn_challenge :: string
  cn_session :: "nat option"
  cn_registered :: bool

text \<open>
  How a suspension ends: the upgrade arrives, a write is done, fails because the peer is gone or
  fails otherwise, a text arrives, the handshake window passes, the peer disconnects.
\<close>

datatype event =
    Upgrade "string option" string
  | WriteDone
  | WriteGone
  | WriteError
  | Received string
  | ReceiveTimeout
  | PeerGone

datatype out = OutAccept | OutJson json | OutClose string

record endpoint_env =
  ee_sha :: "bytes \<Rightarrow> string"
  ee_edv :: "bytes \<Rightarrow> bytes \<Rightarrow> bytes \<Rightarrow> bool"
  ee_loads :: "string \<Rightarrow> json option"
  ee_trust_proxy_tls :: bool

text \<open>What a step draws: the clock, the audit event id, a challenge, the connection generation.\<close>

record reading =
  rd_now :: datetime
  rd_event_id :: string
  rd_challenge_id :: string
  rd_challenge :: string
  rd_generation :: string

definition new_connection :: connection where
  "new_connection = \<lparr>cn_phase = Fresh, cn_stage = ''challenge'', cn_generation = [], cn_challenge_id = [],
     cn_challenge = [], cn_session = None, cn_registered = False\<rparr>"

type_synonym stepped = "out list \<times> connection \<times> hub"

section \<open>Errors and the end\<close>

text \<open>The \<open>finally\<close> block; \<open>e\<close> is the exception that goes on to the server, if any.\<close>

definition end_connection :: "exn option \<Rightarrow> reading \<Rightarrow> connection \<Rightarrow> hub \<Rightarrow> stepped" where
  "end_connection e rd c h =
     ([], c\<lparr>cn_phase := Done e\<rparr>,
      case cn_session c of None \<Rightarrow> h | Some ref \<Rightarrow> close_session ref (cn_registered c) (rd_now rd) h)"

definition protocol_code :: "string \<Rightarrow> string" where
  "protocol_code stage =
     (if stage = ''authentication'' then ''relay_authentication_failed''
      else if stage = ''ready'' then ''relay_ready_failed'' else ''relay_protocol_error'')"

text \<open>The exceptions the two handlers catch, as the code they report.\<close>

definition handled_code :: "string \<Rightarrow> exn \<Rightarrow> string option" where
  "handled_code stage e = (case e of
       AgentError m \<Rightarrow> Some m
     | _ \<Rightarrow> if is_value_error e then Some (protocol_code stage) else None)"

definition raise_in :: "exn \<Rightarrow> reading \<Rightarrow> connection \<Rightarrow> hub \<Rightarrow> stepped" where
  "raise_in e rd c h = (case handled_code (cn_stage c) e of
       None \<Rightarrow> end_connection (Some e) rd c h
     | Some m \<Rightarrow>
         (let d = relay_diagnostic (Inr m) (Some (cn_stage c))
          in ([OutJson (diagnostic_frame d)], c\<lparr>cn_phase := ErrorSent (d_code d)\<rparr>, h)))"

section \<open>The handshake\<close>

definition offer_challenge :: "endpoint_env \<Rightarrow> bool \<Rightarrow> reading \<Rightarrow> connection \<Rightarrow> hub \<Rightarrow> stepped" where
  "offer_challenge env second rd c h =
     (case issue_relay_challenge (ee_sha env) (rd_challenge_id rd) (rd_challenge rd) (rd_now rd) (hb_store h) of
        (Inl e, st) \<Rightarrow> raise_in e rd c (h\<lparr>hb_store := st\<rparr>)
      | (Inr frame, st) \<Rightarrow>
          ([OutJson frame],
           c\<lparr>cn_phase := ChallengeSent second, cn_challenge_id := rd_challenge_id rd, cn_challenge := rd_challenge rd\<rparr>,
           h\<lparr>hb_store := st\<rparr>))"

definition ENROLL_FIELDS :: "string list" where
  "ENROLL_FIELDS = [''v'', ''type'', ''challenge_id'', ''challenge'', ''connector_id'', ''enrollment_token'',
     ''public_key'', ''signature'']"

definition platform_of :: "fields \<Rightarrow> string" where
  "platform_of message =
     (if truthy (fld message ''platform'') then py_str (fld message ''platform'') else ''unknown'')"

text \<open>
  Fields that are not texts reach the parsers as their \<open>str\<close>, an absent or empty one as the empty
  text; a public key that is no text is outside the model.
\<close>

definition enroll_message :: "endpoint_env \<Rightarrow> fields \<Rightarrow> reading \<Rightarrow> connection \<Rightarrow> hub \<Rightarrow> stepped" where
  "enroll_message env message rd c0 h =
     (let c = c0\<lparr>cn_stage := ''enrollment''\<rparr> in
      case require_keys message ENROLL_FIELDS [''platform''] of
        Inl e \<Rightarrow> raise_in e rd c h
      | Inr _ \<Rightarrow>
          if \<not> eq_int (fld message ''v'') PROTOCOL_VERSION
          then raise_in (ProtocolError ''relay protocol version is unsupported'') rd c h
          else (case complete_enrollment (ee_sha env) (ee_edv env) (rd_event_id rd) (rd_now rd)
                       (or_empty (fld message ''challenge_id'')) (or_empty (fld message ''challenge''))
                       (or_empty (fld message ''connector_id'')) (or_empty (fld message ''enrollment_token''))
                       (or_empty (fld message ''public_key'')) (or_empty (fld message ''signature''))
                       (platform_of message) (hb_store h) of
                  (Inl e, st) \<Rightarrow> raise_in e rd c (h\<lparr>hb_store := st\<rparr>)
                | (Inr reply, st) \<Rightarrow>
                    ([OutJson (JObj [(''v'', JInt PROTOCOL_VERSION), (''type'', JStr ''enrolled''),
                                     (''connector_id'', JStr (er_connector_id reply))])],
                     c\<lparr>cn_phase := EnrolledSent\<rparr>, h\<lparr>hb_store := st\<rparr>)))"

definition ready_frame :: "session \<Rightarrow> json" where
  "ready_frame s = JObj [(''v'', JInt PROTOCOL_VERSION), (''type'', JStr ''ready''),
     (''connector_id'', JStr (se_connector_id s)), (''instance_id'', JStr (se_instance_id s)),
     (''capabilities'', JList (map JStr (se_capabilities s)))]"

text \<open>
  The epoch of an authentication message as an integer. A message without an epoch is refused for
  its keys; an epoch that is no integer is treated below.
\<close>

definition epoch_field :: "fields \<Rightarrow> int option" where
  "epoch_field message = (case map_of message ''context_epoch'' of
       None \<Rightarrow> Some 0
     | Some (JInt i) \<Rightarrow> Some i
     | Some _ \<Rightarrow> None)"

text \<open>Authentication, the session object and its registration: no suspension lies between them.\<close>

definition authenticate_message ::
    "endpoint_env \<Rightarrow> fields \<Rightarrow> int \<Rightarrow> reading \<Rightarrow> connection \<Rightarrow> hub \<Rightarrow> stepped" where
  "authenticate_message env message epoch rd c0 h =
     (let c = c0\<lparr>cn_stage := ''authentication''\<rparr> in
      case authenticate_session (ee_sha env) (ee_edv env) (rd_event_id rd) (rd_now rd) (cn_challenge_id c)
             (cn_challenge c) (cn_generation c) message epoch (hb_store h) of
        (Inl e, st) \<Rightarrow> raise_in e rd c (h\<lparr>hb_store := st\<rparr>)
      | (Inr s, st) \<Rightarrow>
          (let (ref, h') = new_session s (h\<lparr>hb_store := st\<rparr>)
           in ([OutJson (ready_frame s)],
               c\<lparr>cn_phase := ReadySent, cn_stage := ''ready'', cn_session := Some ref, cn_registered := True\<rparr>,
               register ref h')))"

text \<open>
  An epoch that is no integer passes through the same checks, with its \<open>str\<close> in the signed text:
  \<open>admit_device\<close> is \<open>authenticate_relay\<close> up to the check of the signature, and \<open>refuse_epoch\<close> the
  step of a message that one of the checks refuses. A message that passes them all is one that an
  enrolled device has signed with such an epoch: SQLite stores a text, a truth value or a
  fraction, and the session object carries a value that is no integer; it has no step here.
\<close>

definition relay_auth_text :: "string \<Rightarrow> string \<Rightarrow> string \<Rightarrow> string \<Rightarrow> string \<Rightarrow> bytes res" where
  "relay_auth_text challenge_id challenge connector_id instance_id epoch_text =
     bindR (parse_uuid (JStr challenge_id) ''challenge_id'') (\<lambda>cid.
     bindR (parse_connector_id (JStr connector_id)) (\<lambda>conn.
     bindR (parse_instance_id (JStr instance_id)) (\<lambda>inst.
     Inr (utf8_encode (''remote-agent-relay-auth-v1'' @ nl @ cid @ nl @ challenge @ nl @ conn @ nl
            @ inst @ nl @ epoch_text)))))"

definition admit_device ::
    "(bytes \<Rightarrow> string) \<Rightarrow> (bytes \<Rightarrow> bytes \<Rightarrow> bytes \<Rightarrow> bool) \<Rightarrow> datetime
     \<Rightarrow> string \<Rightarrow> string \<Rightarrow> string \<Rightarrow> string \<Rightarrow> string \<Rightarrow> string \<Rightarrow> unit act" where
  "admit_device sha edv now challenge_id challenge connector_id instance_id epoch_text signature =
     bindA (liftA (parse_connector_id (JStr connector_id))) (\<lambda>connector_id.
     bindA (liftA (parse_instance_id (JStr instance_id))) (\<lambda>instance_id.
     bindA (callA (consume_challenge sha challenge_id challenge now)) (\<lambda>consumed.
     if \<not> consumed then raiseA (AgentError ''invalid_challenge'')
     else bindA (readA (get_device connector_id)) (\<lambda>device.
     case device of
       None \<Rightarrow> raiseA (AgentError ''relay_authentication_failed'')
     | Some device \<Rightarrow>
         if dv_enrollment_state device \<noteq> Enrolled then raiseA (AgentError ''device_revoked'')
         else bindA (liftA (relay_auth_text challenge_id challenge connector_id instance_id epoch_text))
           (\<lambda>payload.
         if isl (verify_ed25519 edv (dv_public_key device) payload signature)
         then raiseA (AgentError ''relay_authentication_failed'') else returnA ())))))"

definition admit_message ::
    "endpoint_env \<Rightarrow> fields \<Rightarrow> reading \<Rightarrow> connection \<Rightarrow> unit act" where
  "admit_message env message rd c =
     bindA (liftA (require_keys message
        [''v'', ''type'', ''challenge_id'', ''challenge'', ''connector_id'', ''instance_id'', ''context_epoch'', ''signature''] []))
       (\<lambda>_.
     if \<not> eq_int (fld message ''v'') PROTOCOL_VERSION
        \<or> fld message ''type'' \<noteq> JStr ''authenticate''
        \<or> fld message ''challenge_id'' \<noteq> JStr (cn_challenge_id c)
        \<or> fld message ''challenge'' \<noteq> JStr (cn_challenge c)
     then raiseA (ProtocolError ''relay authentication message is invalid'')
     else admit_device (ee_sha env) (ee_edv env) (rd_now rd) (cn_challenge_id c) (cn_challenge c)
            (or_empty (fld message ''connector_id'')) (or_empty (fld message ''instance_id''))
            (py_str (fld message ''context_epoch'')) (or_empty (fld message ''signature'')))"

definition refuse_epoch :: "endpoint_env \<Rightarrow> fields \<Rightarrow> reading \<Rightarrow> connection \<Rightarrow> hub \<Rightarrow> stepped option" where
  "refuse_epoch env message rd c h =
     (case admit_message env message rd c (hb_store h) of
        (Inl e, st) \<Rightarrow> Some (raise_in e rd (c\<lparr>cn_stage := ''authentication''\<rparr>) (h\<lparr>hb_store := st\<rparr>))
      | (Inr _, st) \<Rightarrow> None)"

definition handshake_message ::
    "endpoint_env \<Rightarrow> bool \<Rightarrow> string \<Rightarrow> reading \<Rightarrow> connection \<Rightarrow> hub \<Rightarrow> stepped option" where
  "handshake_message env second txt rd c h =
     (case receive_message (ee_loads env) txt of
        Inl e \<Rightarrow> Some (raise_in e rd c h)
      | Inr message \<Rightarrow>
          if \<not> second \<and> fld message ''type'' = JStr ''enroll'' then Some (enroll_message env message rd c h)
          else (case epoch_field message of
                  Some epoch \<Rightarrow> Some (authenticate_message env message epoch rd c h)
                | None \<Rightarrow> refuse_epoch env message rd c h))"

definition session_message ::
    "endpoint_env \<Rightarrow> nat \<Rightarrow> string \<Rightarrow> reading \<Rightarrow> connection \<Rightarrow> hub \<Rightarrow> stepped" where
  "session_message env ref txt rd c h =
     (case receive_message (ee_loads env) txt of
        Inl e \<Rightarrow> raise_in e rd c h
      | Inr message \<Rightarrow>
          (case serve_message ref (rd_now rd) message h of
             (Inl e, h') \<Rightarrow> raise_in e rd c h'
           | (Inr _, h') \<Rightarrow> ([], c, h')))"

section \<open>One step\<close>

text \<open>
  A write that fails because the peer is gone ends the connection quietly; any other failure of
  a write is a \<open>RuntimeError\<close>, which no handler catches. Around the ready frame both are an error
  of their own, around the error frame and the close both are ignored.
\<close>

definition endpoint_step ::
    "endpoint_env \<Rightarrow> reading \<Rightarrow> event \<Rightarrow> connection \<Rightarrow> hub \<Rightarrow> stepped option" where
  "endpoint_step env rd ev c h =
     (case (cn_phase c, ev) of
        (Fresh, Upgrade scheme forwarded) \<Rightarrow>
          Some (if is_secure_connection scheme forwarded (ee_trust_proxy_tls env)
                then ([OutAccept], c\<lparr>cn_phase := AcceptSent\<rparr>, h)
                else ([OutClose ''relay_upgrade_failed''], c\<lparr>cn_phase := CloseSent\<rparr>, h))
      | (AcceptSent, WriteDone) \<Rightarrow>
          Some (offer_challenge env False rd (c\<lparr>cn_generation := rd_generation rd\<rparr>) h)
      | (ChallengeSent second, WriteDone) \<Rightarrow>
          Some ([], c\<lparr>cn_phase := Listening second,
                      cn_stage := (if second then ''authentication'' else cn_stage c)\<rparr>, h)
      | (Listening second, Received txt) \<Rightarrow> handshake_message env second txt rd c h
      | (Listening second, ReceiveTimeout) \<Rightarrow> Some (raise_in (AgentError ''relay_challenge_timeout'') rd c h)
      | (EnrolledSent, WriteDone) \<Rightarrow> Some (offer_challenge env True rd c h)
      | (ReadySent, WriteDone) \<Rightarrow> Some ([], c\<lparr>cn_phase := Serving, cn_stage := ''session''\<rparr>, h)
      | (ReadySent, WriteGone) \<Rightarrow> Some (raise_in (AgentError ''relay_ready_failed'') rd c h)
      | (ReadySent, WriteError) \<Rightarrow> Some (raise_in (AgentError ''relay_ready_failed'') rd c h)
      | (Serving, Received txt) \<Rightarrow>
          (case cn_session c of None \<Rightarrow> None | Some ref \<Rightarrow> Some (session_message env ref txt rd c h))
      | (ErrorSent reason, WriteDone) \<Rightarrow> Some ([OutClose (take 64 reason)], c\<lparr>cn_phase := CloseSent\<rparr>, h)
      | (ErrorSent reason, WriteGone) \<Rightarrow> Some ([OutClose (take 64 reason)], c\<lparr>cn_phase := CloseSent\<rparr>, h)
      | (ErrorSent reason, WriteError) \<Rightarrow> Some ([OutClose (take 64 reason)], c\<lparr>cn_phase := CloseSent\<rparr>, h)
      | (CloseSent, WriteDone) \<Rightarrow> Some (end_connection None rd c h)
      | (CloseSent, WriteGone) \<Rightarrow> Some (end_connection None rd c h)
      | (CloseSent, WriteError) \<Rightarrow> Some (end_connection None rd c h)
      | (AcceptSent, WriteError) \<Rightarrow> Some (end_connection (Some RuntimeError) rd c h)
      | (ChallengeSent _, WriteError) \<Rightarrow> Some (end_connection (Some RuntimeError) rd c h)
      | (EnrolledSent, WriteError) \<Rightarrow> Some (end_connection (Some RuntimeError) rd c h)
      | (ChallengeSent _, WriteGone) \<Rightarrow> Some (end_connection None rd c h)
      | (EnrolledSent, WriteGone) \<Rightarrow> Some (end_connection None rd c h)
      | (Listening _, PeerGone) \<Rightarrow> Some (end_connection None rd c h)
      | (Serving, PeerGone) \<Rightarrow> Some (end_connection None rd c h)
      | _ \<Rightarrow> None)"

section \<open>Every step is a step of the system\<close>

definition goes ::
    "(bytes \<Rightarrow> string) \<Rightarrow> (bytes \<Rightarrow> bytes \<Rightarrow> bytes \<Rightarrow> bool) \<Rightarrow> int \<Rightarrow> sys \<Rightarrow> hub \<Rightarrow> bool" where
  "goes sha edv stale s h \<longleftrightarrow> (sys_step sha edv stale)\<^sup>*\<^sup>* s (s\<lparr>sy_hub := h\<rparr>)"

named_theorems goes_intro

lemma goes_same [goes_intro]: "goes sha edv stale s (sy_hub s)"
  by (simp add: goes_def)

lemma goes_trans: "goes sha edv stale s h \<Longrightarrow> goes sha edv stale (s\<lparr>sy_hub := h\<rparr>) h' \<Longrightarrow> goes sha edv stale s h'"
  by (simp add: goes_def)

lemma goes_step: "sys_step sha edv stale s (s\<lparr>sy_hub := h\<rparr>) \<Longrightarrow> goes sha edv stale s h"
  by (simp add: goes_def)

lemma goes_service [goes_intro]:
  "goes sha edv stale s ((sy_hub s)\<lparr>hb_store := service_step sha edv stale sop (hb_store (sy_hub s))\<rparr>)"
  by (rule goes_step) (rule sys_step.service)

lemma goes_message [goes_intro]: "goes sha edv stale s (snd (serve_message ref t m (sy_hub s)))"
  by (rule goes_step) (rule sys_step.message)

lemma goes_end: "goes sha edv stale s h \<Longrightarrow> goes sha edv stale s (snd (snd (end_connection e rd c h)))"
  unfolding end_connection_def
  using goes_step [OF sys_step.closed, of sha edv stale "s\<lparr>sy_hub := h\<rparr>"]
  by (auto intro: goes_trans split: option.split)

lemma goes_raise: "goes sha edv stale s h \<Longrightarrow> goes sha edv stale s (snd (snd (raise_in e rd c h)))"
  by (simp add: raise_in_def goes_end Let_def split: option.split)

lemma goes_offer:
  "goes (ee_sha env) (ee_edv env) stale s (snd (snd (offer_challenge env second rd c (sy_hub s))))"
proof -
  let ?st = "snd (issue_relay_challenge (ee_sha env) (rd_challenge_id rd) (rd_challenge rd) (rd_now rd) (hb_store (sy_hub s)))"
  have "goes (ee_sha env) (ee_edv env) stale s ((sy_hub s)\<lparr>hb_store := ?st\<rparr>)"
    using goes_service [of _ _ stale s "SvcChallenge (rd_challenge_id rd) (rd_challenge rd) (rd_now rd)"] by simp
  then show ?thesis
    by (auto simp: offer_challenge_def goes_raise split: prod.split sum.split)
qed

lemma goes_enroll:
  "goes (ee_sha env) (ee_edv env) stale s (snd (snd (enroll_message env message rd c (sy_hub s))))"
proof -
  let ?st = "snd (complete_enrollment (ee_sha env) (ee_edv env) (rd_event_id rd) (rd_now rd)
     (or_empty (fld message ''challenge_id'')) (or_empty (fld message ''challenge''))
     (or_empty (fld message ''connector_id'')) (or_empty (fld message ''enrollment_token''))
     (or_empty (fld message ''public_key'')) (or_empty (fld message ''signature''))
     (platform_of message) (hb_store (sy_hub s)))"
  have "goes (ee_sha env) (ee_edv env) stale s ((sy_hub s)\<lparr>hb_store := ?st\<rparr>)"
    using goes_service [of _ _ stale s "SvcEnroll (rd_event_id rd) (rd_now rd)
     (or_empty (fld message ''challenge_id'')) (or_empty (fld message ''challenge''))
     (or_empty (fld message ''connector_id'')) (or_empty (fld message ''enrollment_token''))
     (or_empty (fld message ''public_key'')) (or_empty (fld message ''signature'')) (platform_of message)"] by simp
  then show ?thesis
    by (auto simp: enroll_message_def goes_raise goes_same Let_def split: prod.split sum.split)
qed

text \<open>What \<open>_authenticate_session\<close> leaves in the store, and the session it builds.\<close>

lemma authenticate_session_store:
  "snd (authenticate_session sha edv ev t ch_id ch gen m epoch st) = st
   \<or> (\<exists>c i sg. snd (authenticate_session sha edv ev t ch_id ch gen m epoch st)
        = snd (authenticate_relay sha edv ev t ch_id ch c i epoch sg gen [] st))"
  unfolding authenticate_session_def
  by (auto simp: bindA_liftA snd_bindA readA_def liftA_def split: sum.split)

lemma authenticate_session_Inr:
  assumes "fst (authenticate_session sha edv ev t ch_id ch gen m epoch st) = Inr se"
  shows "\<exists>identity. fst (authenticate_relay sha edv ev t ch_id ch (or_empty (fld m ''connector_id''))
       (or_empty (fld m ''instance_id'')) epoch (or_empty (fld m ''signature'')) gen [] st) = Inr identity
     \<and> session_of identity (snd (authenticate_session sha edv ev t ch_id ch gen m epoch st)) = Inr se
     \<and> snd (authenticate_session sha edv ev t ch_id ch gen m epoch st)
        = snd (authenticate_relay sha edv ev t ch_id ch (or_empty (fld m ''connector_id''))
            (or_empty (fld m ''instance_id'')) epoch (or_empty (fld m ''signature'')) gen [] st)"
  using assms unfolding authenticate_session_def
  by (auto simp: bindA_liftA bindA_eq_Inr snd_bindA readA_def liftA_def split: sum.splits if_splits)

lemma session_of_fresh: "session_of identity st = Inr se \<Longrightarrow> fresh_session se"
  by (auto simp: session_of_def fresh_session_def split: option.splits)

lemma goes_authenticate:
  "goes (ee_sha env) (ee_edv env) stale s (snd (snd (authenticate_message env message epoch rd c (sy_hub s))))"
proof -
  let ?auth = "authenticate_session (ee_sha env) (ee_edv env) (rd_event_id rd) (rd_now rd) (cn_challenge_id c)
      (cn_challenge c) (cn_generation c) message epoch (hb_store (sy_hub s))"
  let ?h = "(sy_hub s)\<lparr>hb_store := snd ?auth\<rparr>"
  have store: "goes (ee_sha env) (ee_edv env) stale s ?h"
    using authenticate_session_store [of "ee_sha env" "ee_edv env" "rd_event_id rd" "rd_now rd" "cn_challenge_id c"
      "cn_challenge c" "cn_generation c" message epoch "hb_store (sy_hub s)"]
      goes_service [of _ _ stale s "SvcAuthenticate (rd_event_id rd) (rd_now rd) (cn_challenge_id c)
      (cn_challenge c) _ _ epoch _ (cn_generation c) []"] goes_same
    by fastforce
  show ?thesis
  proof (cases "fst ?auth")
    case (Inl e)
    with store show ?thesis
      by (cases ?auth) (simp add: authenticate_message_def goes_raise)
  next
    case (Inr se)
    from authenticate_session_Inr [OF Inr] have "fresh_session se" by (auto dest: session_of_fresh)
    then have "sys_step (ee_sha env) (ee_edv env) stale (s\<lparr>sy_hub := ?h\<rparr>)
        (s\<lparr>sy_hub := ?h\<rparr>\<lparr>sy_hub := register (fst (new_session se ?h)) (snd (new_session se ?h))\<rparr>)"
      by (rule sys_step.opened) simp
    from goes_trans [OF store goes_step [OF this]] Inr show ?thesis
      by (cases ?auth) (simp add: authenticate_message_def split_beta)
  qed
qed

text \<open>
  The admission is the authentication up to the signature: on an integer epoch it refuses with
  the same exception and the same store, and in every case it leaves what an authentication
  with an empty signature leaves.
\<close>

lemma relay_auth_text_int: "relay_auth_payload cid ch c i epoch = relay_auth_text cid ch c i (show_int epoch)"
  by (simp add: relay_auth_payload_def relay_auth_text_def)

lemma admit_device_refuses:
  "fst (admit_device sha edv t cid ch c i (show_int epoch) sg st) = Inl e \<Longrightarrow>
   authenticate_relay sha edv ev t cid ch c i epoch sg g caps st
     = (Inl e, snd (admit_device sha edv t cid ch c i (show_int epoch) sg st))"
  unfolding admit_device_def authenticate_relay_def relay_auth_text_int [symmetric]
  by (auto simp: bindA_liftA split: sum.splits option.splits if_splits)

lemma admit_device_store:
  "\<exists>ev g. snd (admit_device sha edv t cid ch c i x sg st)
     = snd (authenticate_relay sha edv ev t cid ch c i 0 [] g [] st)"
proof -
  have empty: "isl (verify_ed25519 edv key payload [])" for key payload
  proof -
    have "isl (parse_signature (JStr []))" by code_simp
    then show ?thesis by (auto simp: verify_ed25519_def isl_def split: sum.split)
  qed
  show ?thesis
    unfolding admit_device_def authenticate_relay_def relay_auth_text_int
    using empty by (auto simp: bindA_liftA split: sum.split option.split)
qed

lemma refuse_epoch_Some:
  assumes "refuse_epoch env message rd c h = Some p"
  obtains e st where "p = raise_in e rd (c\<lparr>cn_stage := ''authentication''\<rparr>) (h\<lparr>hb_store := st\<rparr>)"
    and "st = snd (admit_message env message rd c (hb_store h))"
  using assms by (auto simp: refuse_epoch_def split: prod.splits sum.splits)

lemma admit_message_store:
  "snd (admit_message env message rd c st) = st
   \<or> (\<exists>ev g conn inst. snd (admit_message env message rd c st)
        = snd (authenticate_relay (ee_sha env) (ee_edv env) ev (rd_now rd) (cn_challenge_id c) (cn_challenge c)
            conn inst 0 [] g [] st))"
  using admit_device_store [of "ee_sha env" "ee_edv env" "rd_now rd" "cn_challenge_id c" "cn_challenge c"
      "or_empty (fld message ''connector_id'')" "or_empty (fld message ''instance_id'')"
      "py_str (fld message ''context_epoch'')" "or_empty (fld message ''signature'')" st]
  unfolding admit_message_def by (simp add: bindA_liftA split: sum.split) blast

lemma goes_refuse_epoch:
  assumes "refuse_epoch env message rd c (sy_hub s) = Some p"
  shows "goes (ee_sha env) (ee_edv env) stale s (snd (snd p))"
proof -
  let ?st = "snd (admit_message env message rd c (hb_store (sy_hub s)))"
  have "goes (ee_sha env) (ee_edv env) stale s ((sy_hub s)\<lparr>hb_store := ?st\<rparr>)"
    using admit_message_store [of env message rd c "hb_store (sy_hub s)"]
  proof
    assume "?st = hb_store (sy_hub s)"
    then show ?thesis using goes_same [of _ _ stale s] by simp
  next
    assume "\<exists>ev g conn inst. ?st = snd (authenticate_relay (ee_sha env) (ee_edv env) ev (rd_now rd) (cn_challenge_id c)
      (cn_challenge c) conn inst 0 [] g [] (hb_store (sy_hub s)))"
    then obtain ev g conn inst where st: "?st = service_step (ee_sha env) (ee_edv env) stale
        (SvcAuthenticate ev (rd_now rd) (cn_challenge_id c) (cn_challenge c) conn inst 0 [] g []) (hb_store (sy_hub s))"
      by auto
    show ?thesis unfolding st by (rule goes_service)
  qed
  with assms show ?thesis by (auto elim!: refuse_epoch_Some intro: goes_raise)
qed

lemma goes_handshake:
  "handshake_message env second txt rd c (sy_hub s) = Some p \<Longrightarrow>
   goes (ee_sha env) (ee_edv env) stale s (snd (snd p))"
  by (auto simp: handshake_message_def goes_raise goes_same goes_enroll goes_authenticate goes_refuse_epoch
      split: sum.splits if_splits option.splits)

lemma goes_session_message:
  "goes (ee_sha env) (ee_edv env) stale s (snd (snd (session_message env ref txt rd c (sy_hub s))))"
proof (cases "receive_message (ee_loads env) txt")
  case (Inl e)
  then show ?thesis by (simp add: session_message_def goes_raise goes_same)
next
  case (Inr m)
  have "goes (ee_sha env) (ee_edv env) stale s (snd (serve_message ref (rd_now rd) m (sy_hub s)))"
    by (rule goes_message)
  with Inr show ?thesis
    by (auto simp: session_message_def goes_raise split: prod.split sum.split)
qed

lemma goes_endpoint:
  assumes "endpoint_step env rd ev c (sy_hub s) = Some (frames, c', h')"
  shows "goes (ee_sha env) (ee_edv env) stale s h'"
proof -
  have "goes (ee_sha env) (ee_edv env) stale s (snd (snd (frames, c', h')))"
    using assms goes_handshake [of env _ _ rd c s "(frames, c', h')" stale]
      goes_session_message [of env stale s _ _ rd c] goes_offer [of env stale s] goes_end [OF goes_same]
      goes_raise [OF goes_same] goes_same [of "ee_sha env" "ee_edv env" stale s]
    unfolding endpoint_step_def by (auto split: phase.splits event.splits option.splits if_splits) (metis snd_conv)+
  then show ?thesis by simp
qed

text \<open>
  C26. Every step of a relay connection, from the upgrade to its end, is a sequence of steps of the
  transition system: what is proved of all reachable states of the system holds of the
  endpoint, whatever its peer sends.
\<close>

theorem endpoint_refines_system:
  assumes "endpoint_step env rd ev c (sy_hub s) = Some (frames, c', h')"
  shows "(sys_step (ee_sha env) (ee_edv env) stale)\<^sup>*\<^sup>* s (s\<lparr>sy_hub := h'\<rparr>)"
  using goes_endpoint [OF assms] by (simp add: goes_def)

section \<open>What a connection says\<close>

text \<open>The kind of an outgoing message: the \<open>type\<close> of a frame, or the upgrade or the close.\<close>

definition kind :: "out \<Rightarrow> string" where
  "kind f = (case f of OutAccept \<Rightarrow> ''accept'' | OutClose _ \<Rightarrow> ''close''
     | OutJson j \<Rightarrow> (case j of JObj d \<Rightarrow> py_str (fld d ''type'') | _ \<Rightarrow> []))"

text \<open>
  What a connection itself says so far, whatever happens to the shared state between its steps.
  The commands and cancellations that the service hands to the same websocket are added in \<open>Wire\<close>.
\<close>

inductive conversation :: "endpoint_env \<Rightarrow> connection \<Rightarrow> out list \<Rightarrow> bool" for env where
  opened: "conversation env new_connection []"
| goes_on: "conversation env c fs \<Longrightarrow> endpoint_step env rd ev c h = Some (gs, c', h') \<Longrightarrow>
     conversation env c' (fs @ gs)"

definition prologue :: "bool \<Rightarrow> string list" where
  "prologue enrolled = ''accept'' # ''challenge'' # (if enrolled then [''enrolled'', ''challenge''] else [])"

text \<open>The handshake so far: a part of one of the two full openings and the ready frame.\<close>

definition talking :: "string list \<Rightarrow> bool" where
  "talking ks \<longleftrightarrow> (\<exists>enrolled n. ks = take n (prologue enrolled @ [''ready'']))"

definition refused :: "string list \<Rightarrow> bool" where
  "refused ks \<longleftrightarrow> (\<exists>p. talking p \<and> ks = p @ [''error'', ''close'']) \<or> ks = [''close'']"

definition spoken :: "phase \<Rightarrow> string list \<Rightarrow> bool" where
  "spoken ph ks = (case ph of
       Fresh \<Rightarrow> ks = []
     | AcceptSent \<Rightarrow> ks = [''accept'']
     | ChallengeSent b \<Rightarrow> ks = prologue b
     | Listening b \<Rightarrow> ks = prologue b
     | EnrolledSent \<Rightarrow> ks = [''accept'', ''challenge'', ''enrolled'']
     | ReadySent \<Rightarrow> \<exists>b. ks = prologue b @ [''ready'']
     | Serving \<Rightarrow> \<exists>b. ks = prologue b @ [''ready'']
     | ErrorSent _ \<Rightarrow> \<exists>p. talking p \<and> ks = p @ [''error'']
     | CloseSent \<Rightarrow> refused ks
     | Done _ \<Rightarrow> talking ks \<or> refused ks)"

lemma talking_parts [simp]:
  "talking []" "talking [''accept'']" "talking (prologue b)" "talking [''accept'', ''challenge'', ''enrolled'']"
  "talking (prologue b @ [''ready''])"
proof -
  have t: "talking (take n (prologue b @ [''ready'']))" for n b by (auto simp: talking_def)
  show "talking []" using t [of 0] by simp
  show "talking [''accept'']" using t [of 1 False] by (simp add: prologue_def)
  show "talking (prologue b)" using t [of "length (prologue b)" b] by simp
  show "talking [''accept'', ''challenge'', ''enrolled'']" using t [of 3 True] by (simp add: prologue_def)
  show "talking (prologue b @ [''ready''])" using t [of "Suc (length (prologue b))" b] by simp
qed

lemma spoken_talking:
  "spoken ph ks \<Longrightarrow> ph \<noteq> CloseSent \<Longrightarrow> \<forall>r. ph \<noteq> ErrorSent r \<Longrightarrow> \<forall>e. ph \<noteq> Done e \<Longrightarrow> talking ks"
  by (cases ph) (auto simp: spoken_def)

lemma kind_simps [simp]:
  "kind OutAccept = ''accept''" "kind (OutClose r) = ''close''"
  "kind (OutJson (diagnostic_frame d)) = ''error''" "kind (OutJson (ready_frame s)) = ''ready''"
  by (simp_all add: kind_def diagnostic_frame_def ready_frame_def fld_def)

lemma challenge_kind:
  "issue_relay_challenge sha i ch t st = (Inr frame, st') \<Longrightarrow> kind (OutJson frame) = ''challenge''"
  by (auto simp: issue_relay_challenge_def create_challenge_def kind_def fld_def bindA_def returnA_def
      split: if_splits sum.splits prod.splits)

lemma end_spoken:
  "end_connection e rd c h = (gs, c', h') \<Longrightarrow> talking ks \<or> refused ks \<Longrightarrow> spoken (cn_phase c') (ks @ map kind gs)"
  by (auto simp: end_connection_def spoken_def)

lemma raise_spoken:
  "raise_in e rd c h = (gs, c', h') \<Longrightarrow> talking ks \<Longrightarrow> spoken (cn_phase c') (ks @ map kind gs)"
  by (auto simp: raise_in_def Let_def end_connection_def spoken_def split: option.splits)

lemma offer_spoken:
  assumes "offer_challenge env second rd c h = (gs, c', h')"
    and "ks = (if second then [''accept'', ''challenge'', ''enrolled''] else [''accept''])"
  shows "spoken (cn_phase c') (ks @ map kind gs)"
proof (cases "issue_relay_challenge (ee_sha env) (rd_challenge_id rd) (rd_challenge rd) (rd_now rd) (hb_store h)")
  case (Pair r st)
  show ?thesis
  proof (cases r)
    case (Inl e)
    with Pair assms raise_spoken show ?thesis
      by (auto simp: offer_challenge_def)
  next
    case (Inr frame)
    with Pair assms challenge_kind [of _ _ _ _ _ frame st] show ?thesis
      by (auto simp: offer_challenge_def spoken_def prologue_def)
  qed
qed

lemma enroll_spoken:
  assumes "enroll_message env message rd c h = (gs, c', h')"
  shows "spoken (cn_phase c') (prologue False @ map kind gs)"
proof -
  have enrolled: "kind (OutJson (JObj [(''v'', x), (''type'', JStr ''enrolled''), (''connector_id'', y)])) = ''enrolled''"
    for x y by (simp add: kind_def fld_def)
  have "spoken EnrolledSent (prologue False @ [''enrolled''])" by (simp add: spoken_def prologue_def)
  with assms raise_spoken [of _ _ _ _ gs c' h' "prologue False"] enrolled show ?thesis
    by (auto simp: enroll_message_def Let_def split: sum.splits if_splits prod.splits)
qed

lemma authenticate_spoken:
  assumes "authenticate_message env message epoch rd c h = (gs, c', h')"
  shows "spoken (cn_phase c') (prologue b @ map kind gs)"
  using assms raise_spoken [of _ _ _ _ gs c' h' "prologue b"]
  by (auto simp: authenticate_message_def Let_def spoken_def split: sum.splits prod.splits)

lemma refuse_epoch_spoken:
  "refuse_epoch env message rd c h = Some (gs, c', h') \<Longrightarrow> talking ks \<Longrightarrow> spoken (cn_phase c') (ks @ map kind gs)"
  by (erule refuse_epoch_Some) (metis raise_spoken)

lemma handshake_spoken:
  assumes "handshake_message env b txt rd c h = Some (gs, c', h')"
  shows "spoken (cn_phase c') (prologue b @ map kind gs)"
  using assms raise_spoken [of _ _ _ _ gs c' h' "prologue b"] enroll_spoken authenticate_spoken
    refuse_epoch_spoken [of env _ rd c h gs c' h' "prologue b"]
  by (auto simp: handshake_message_def split: sum.splits if_splits option.splits)

lemma session_message_spoken:
  assumes "session_message env ref txt rd c h = (gs, c', h')" and "cn_phase c = Serving" and "spoken Serving ks"
  shows "spoken (cn_phase c') (ks @ map kind gs)"
proof -
  have "talking ks" using assms(3) by (auto simp: spoken_def)
  with assms raise_spoken show ?thesis
    by (auto simp: session_message_def split: sum.splits prod.splits)
qed

lemma step_spoken:
  assumes "endpoint_step env rd ev c h = Some (gs, c', h')" and "spoken (cn_phase c) ks"
  shows "spoken (cn_phase c') (ks @ map kind gs)"
proof -
  note facts = assms end_spoken [of _ rd c h gs c' h' ks] raise_spoken [of _ rd c h gs c' h' ks]
  show ?thesis
  proof (cases "cn_phase c")
    case AcceptSent
    with facts offer_spoken [of env False rd _ h gs c' h' ks] show ?thesis
      by (cases ev) (auto simp: endpoint_step_def spoken_def)
  next
    case EnrolledSent
    with facts offer_spoken [of env True rd c h gs c' h' ks] show ?thesis
      by (cases ev) (auto simp: endpoint_step_def spoken_def)
  next
    case (Listening b)
    with facts handshake_spoken [of env b _ rd c h gs c' h'] show ?thesis
      by (cases ev) (auto simp: endpoint_step_def spoken_def)
  next
    case Serving
    with facts session_message_spoken [of env _ _ rd c h gs c' h' ks] show ?thesis
      by (cases ev) (auto simp: endpoint_step_def spoken_def split: option.splits)
  next
    case (ErrorSent r)
    with facts show ?thesis
      by (cases ev) (auto simp: endpoint_step_def spoken_def refused_def)
  next
    case CloseSent
    with facts show ?thesis by (cases ev) (auto simp: endpoint_step_def spoken_def)
  qed (use facts in \<open>cases ev; auto simp: endpoint_step_def spoken_def refused_def split: if_splits\<close>)+
qed

text \<open>
  Whatever the peer sends and whatever the rest of the system does meanwhile, a connection says
  a part of one of two scripts, the upgrade, a challenge, possibly the enrolment and a second
  challenge, and the ready frame, and then at most one error frame and one close.
\<close>

lemma conversation_shape:
  assumes "conversation env c fs"
  shows "(\<exists>enrolled n tail. map kind fs = take n (prologue enrolled @ [''ready'']) @ tail
       \<and> tail \<in> {[], [''error''], [''error'', ''close'']}) \<or> map kind fs = [''close'']"
proof -
  from assms have "spoken (cn_phase c) (map kind fs)"
  proof (induction rule: conversation.induct)
    case opened
    show ?case by (simp add: spoken_def new_connection_def)
  next
    case (goes_on c fs rd ev h gs c' h')
    then show ?case by (simp add: step_spoken)
  qed
  then consider "talking (map kind fs)" | p where "talking p" "map kind fs = p @ [''error'']"
    | "refused (map kind fs)"
    by (cases "cn_phase c") (auto simp: spoken_def)
  then show ?thesis
  proof cases
    case 1
    then show ?thesis by (metis append_Nil2 insertI1 talking_def)
  next
    case (2 p)
    then show ?thesis unfolding talking_def by blast
  next
    case 3
    then show ?thesis unfolding refused_def talking_def by blast
  qed
qed

section \<open>Refusals\<close>

text \<open>
  Every error frame there is: for each code of the table the frame with its code, its message and
  its flag, in its own stage or, for the three codes that take it, in the stage of the handler.
\<close>

definition error_frame :: "relay_error_code \<Rightarrow> diagnostic_spec \<Rightarrow> string \<Rightarrow> json" where
  "error_frame c sp stage =
     JObj [(''v'', JInt 1), (''type'', JStr ''error''), (''error_contract'', JStr RELAY_ERROR_CONTRACT),
           (''code'', JStr (code_value c)), (''stage'', JStr stage),
           (''retryable'', JBool (spec_retryable sp)), (''message'', JStr (spec_message sp))]"

definition stages_of :: "relay_error_code \<Rightarrow> diagnostic_spec \<Rightarrow> string list" where
  "stages_of c sp = spec_stage sp #
     (if c \<in> {RELAY_AUTHENTICATION_FAILED, RELAY_PROTOCOL_ERROR}
      then [''authentication'', ''session'', ''enrollment'']
      else if c = DEVICE_REVOKED then [''enrollment'', ''authentication''] else [])"

definition error_frames :: "json list" where
  "error_frames = concat (map (\<lambda>(c, sp). map (error_frame c sp) (stages_of c sp)) relay_diagnostics)"

lemma diagnostic_frame_fixed: "diagnostic_frame (relay_diagnostic err stage) \<in> set error_frames"
proof -
  let ?c = "canonical_relay_code err stage" and ?d = "relay_diagnostic err stage"
  obtain sp where sp: "map_of relay_diagnostics ?c = Some sp" using relay_diagnostics_total by blast
  then have row: "(?c, sp) \<in> set relay_diagnostics" by (rule map_of_SomeD)
  have "d_stage ?d \<in> set (stages_of ?c sp) \<and> d_code ?d = code_value ?c
      \<and> d_retryable ?d = spec_retryable sp \<and> d_message ?d = spec_message sp"
    using sp by (cases stage) (auto simp: relay_diagnostic_def Let_def stages_of_def)
  then have "diagnostic_frame ?d \<in> error_frame ?c sp ` set (stages_of ?c sp)"
    by (auto simp: diagnostic_frame_def error_frame_def)
  with row show ?thesis by (auto simp: error_frames_def)
qed

definition published :: "out \<Rightarrow> bool" where
  "published f = (case f of
       OutAccept \<Rightarrow> True
     | OutClose reason \<Rightarrow> reason \<in> set RELAY_ERROR_CODES
     | OutJson j \<Rightarrow> kind f = ''error'' \<longrightarrow> j \<in> set error_frames)"

definition named :: "phase \<Rightarrow> bool" where
  "named ph \<longleftrightarrow> (\<forall>reason. ph = ErrorSent reason \<longrightarrow> reason \<in> set RELAY_ERROR_CODES)"

lemma named_simps [simp]: "named (ErrorSent r) \<longleftrightarrow> r \<in> set RELAY_ERROR_CODES"
  "named Fresh" "named AcceptSent" "named (ChallengeSent b)" "named (Listening b)" "named EnrolledSent"
  "named ReadySent" "named Serving" "named CloseSent" "named (Done e)"
  by (auto simp: named_def)

lemma codes_short: "reason \<in> set RELAY_ERROR_CODES \<Longrightarrow> take 64 reason = reason"
  by (auto simp: RELAY_ERROR_CODES_def relay_diagnostics_def)

lemma diagnostic_code_known [simp]: "d_code (relay_diagnostic err stage) \<in> set RELAY_ERROR_CODES"
  by (simp add: d_code_relay_diagnostic code_value_in_vocabulary)

abbreviation well_said :: "stepped \<Rightarrow> bool" where
  "well_said p \<equiv> list_all published (fst p) \<and> named (cn_phase (fst (snd p)))"

lemma end_published: "well_said (end_connection e rd c h)"
  by (simp add: end_connection_def)

lemma raise_published: "well_said (raise_in e rd c h)"
  by (auto simp: raise_in_def Let_def end_published published_def diagnostic_frame_fixed split: option.split)

lemma offer_published: "well_said (offer_challenge env second rd c h)"
  by (auto simp: offer_challenge_def raise_published published_def challenge_kind split: prod.split sum.split)

lemma enroll_published: "well_said (enroll_message env message rd c h)"
  by (auto simp: enroll_message_def Let_def raise_published published_def kind_def fld_def
      split: prod.split sum.split)

lemma authenticate_published: "well_said (authenticate_message env message epoch rd c h)"
  by (auto simp: authenticate_message_def Let_def raise_published published_def split: prod.split sum.split)

lemma handshake_published: "handshake_message env b txt rd c h = Some p \<Longrightarrow> well_said p"
  using raise_published enroll_published authenticate_published
  by (auto simp: handshake_message_def elim: refuse_epoch_Some split: sum.splits if_splits option.splits)

lemma session_message_published: "named (cn_phase c) \<Longrightarrow> well_said (session_message env ref txt rd c h)"
  by (auto simp: session_message_def raise_published split: prod.split sum.split)

lemma step_published: "endpoint_step env rd ev c h = Some p \<Longrightarrow> named (cn_phase c) \<Longrightarrow> well_said p"
  using end_published raise_published offer_published handshake_published session_message_published
  unfolding endpoint_step_def
  by (auto simp: published_def codes_short RELAY_ERROR_CODES_def relay_diagnostics_def
      split: phase.splits event.splits option.splits if_splits)

lemma conversation_published:
  assumes "conversation env c fs"
  shows "list_all published fs"
proof -
  from assms have "list_all published fs \<and> named (cn_phase c)"
  proof (induction rule: conversation.induct)
    case opened
    show ?case by (simp add: new_connection_def)
  next
    case (goes_on c fs rd ev h gs c' h')
    then show ?case using step_published [of env rd ev c h "(gs, c', h')"] by simp
  qed
  then show ?thesis by simp
qed

section \<open>The ready frame\<close>

lemma register_store: "hb_store (register ref (snd (new_session se h))) = hb_store h"
  by (simp add: register_def new_session_def fail_pending_def Let_def split: option.split)

lemma register_new:
  "hb_heap (register (hb_next_session h) (snd (new_session se h))) (hb_next_session h)
     = Some (if hb_sessions h (se_connector_id se) = Some (hb_next_session h) then se\<lparr>se_pending := []\<rparr> else se)"
  "hb_sessions (register (hb_next_session h) (snd (new_session se h))) (se_connector_id se) = Some (hb_next_session h)"
  by (simp_all add: register_def new_session_def fail_pending_def Let_def split: option.split)

text \<open>Only a successful authentication says \<open>ready\<close>.\<close>

definition says_ready :: "stepped \<Rightarrow> bool" where
  "says_ready p \<longleftrightarrow> ''ready'' \<in> kind ` set (fst p)"

lemma not_ready [simp]:
  "\<not> says_ready (end_connection e rd c h)" "\<not> says_ready (raise_in x rd c h)"
  "\<not> says_ready (offer_challenge env second rd c h)" "\<not> says_ready (enroll_message env message rd c h)"
  "\<not> says_ready (session_message env ref txt rd c h)"
proof -
  show e: "\<not> says_ready (end_connection e rd c h)" for e c h by (simp add: says_ready_def end_connection_def)
  have r: "\<not> says_ready (raise_in x rd c h)" for x c h
    using e by (auto simp: says_ready_def raise_in_def Let_def split: option.split)
  show "\<not> says_ready (raise_in x rd c h)" by (rule r)
  show "\<not> says_ready (offer_challenge env second rd c h)"
    using r by (auto simp: says_ready_def offer_challenge_def challenge_kind split: prod.split sum.split)
  show "\<not> says_ready (enroll_message env message rd c h)"
    using r by (auto simp: says_ready_def enroll_message_def Let_def kind_def fld_def split: prod.split sum.split)
  show "\<not> says_ready (session_message env ref txt rd c h)"
    using r by (auto simp: says_ready_def session_message_def split: prod.split sum.split)
qed

lemma ready_step:
  assumes "endpoint_step env rd ev c h = Some p" and "says_ready p"
  obtains message epoch where "p = authenticate_message env message epoch rd c h"
  using assms not_ready unfolding endpoint_step_def
  by (auto simp: handshake_message_def says_ready_def [of "(_, _, _)"]
      elim!: refuse_epoch_Some split: phase.splits event.splits option.splits if_splits sum.splits)

text \<open>The session an authentication makes, and the rows it leaves.\<close>

abbreviation backed_session :: "session \<Rightarrow> string \<Rightarrow> store \<Rightarrow> bool" where
  "backed_session se g st \<equiv> se_pending se = [] \<and> se_connection_generation se = g
     \<and> (\<exists>d row. get_device (se_connector_id se) st = Some d \<and> dv_enrollment_state d = Enrolled
          \<and> se_capability_profile se = dv_capability_profile d
          \<and> capabilities_for_profile (dv_capability_profile d) = Inr (se_capabilities se)
          \<and> tbl_get in_instance_id (se_instance_id se) (instances st) = Some row
          \<and> in_state row = Online \<and> in_connector_id row = se_connector_id se
          \<and> in_connection_generation row = g)"

lemma authenticate_session_leaves:
  assumes auth: "authenticate_session sha edv ev now i ch g message epoch st = (Inr se, st')"
  shows "backed_session se g st'"
proof -
  let ?relay = "authenticate_relay sha edv ev now i ch (or_empty (fld message ''connector_id''))
      (or_empty (fld message ''instance_id'')) epoch (or_empty (fld message ''signature'')) g [] st"
  from authenticate_session_Inr [of sha edv ev now i ch g message epoch st se] auth obtain identity where
    id: "fst ?relay = Inr identity" and se: "session_of identity st' = Inr se" and st: "st' = snd ?relay"
    by auto
  have gen: "ri_connection_generation identity = g"
    using authenticate_relay_success [OF id] by (auto simp: Let_def)
  from authenticate_relay_leaves [OF id, folded st] obtain d where d:
    "get_device (ri_connector_id identity) st' = Some d" "dv_enrollment_state d = Enrolled"
    "tbl_get in_instance_id (ri_instance_id identity) (instances st')
      = Some (presence_row (ri_connector_id identity) (ri_instance_id identity) g epoch (as_timestamp now))" by blast
  from se d(1) have "se_connector_id se = ri_connector_id identity"
    "se_instance_id se = ri_instance_id identity" "se_connection_generation se = g" "se_pending se = []"
    "se_capability_profile se = dv_capability_profile d"
    "capabilities_for_profile (dv_capability_profile d) = Inr (se_capabilities se)"
    by (auto simp: session_of_def gen)
  with d show ?thesis by (simp add: presence_row_def)
qed

lemma authenticate_message_ready:
  assumes "authenticate_session (ee_sha env) (ee_edv env) (rd_event_id rd) (rd_now rd) (cn_challenge_id c)
      (cn_challenge c) (cn_generation c) message epoch (hb_store h) = (Inr se, st')" and "se_pending se = []"
    and "authenticate_message env message epoch rd c h = (gs, c', h')"
  shows "gs = [OutJson (ready_frame se)]" "cn_session c' = Some (hb_next_session h)" "cn_registered c'"
    "hb_heap h' (hb_next_session h) = Some se" "hb_sessions h' (se_connector_id se) = Some (hb_next_session h)"
    "hb_store h' = st'"
proof -
  let ?h = "h\<lparr>hb_store := st'\<rparr>"
  have "h' = register (hb_next_session h) (snd (new_session se ?h))"
    using assms(1,3) by (auto simp: authenticate_message_def new_session_def Let_def)
  moreover have "hb_next_session ?h = hb_next_session h" by simp
  ultimately show "hb_heap h' (hb_next_session h) = Some se" "hb_sessions h' (se_connector_id se) = Some (hb_next_session h)"
    "hb_store h' = st'"
    using register_new [of ?h se] assms(2) by (simp_all add: register_store)
  show "gs = [OutJson (ready_frame se)]" "cn_session c' = Some (hb_next_session h)" "cn_registered c'"
    using assms(1,3) by (auto simp: authenticate_message_def new_session_def Let_def)
qed

text \<open>
  C29. When a connection sends its ready frame, its session is registered under its connector and takes the
  commands for it, the device of that connector is enrolled, the session has exactly the
  capabilities of the device's profile, the instance row is online under this connection's
  generation, and the frame names just that session.
\<close>

theorem ready_means_registered:
  assumes "endpoint_step env rd ev c h = Some (gs, c', h')" and "f \<in> set gs" and "kind f = ''ready''"
  shows "\<exists>ref se d row. f = OutJson (ready_frame se) \<and> cn_session c' = Some ref \<and> cn_registered c'
     \<and> hb_heap h' ref = Some se \<and> hb_sessions h' (se_connector_id se) = Some ref \<and> se_pending se = []
     \<and> se_connection_generation se = cn_generation c
     \<and> get_device (se_connector_id se) (hb_store h') = Some d \<and> dv_enrollment_state d = Enrolled
     \<and> se_capability_profile se = dv_capability_profile d
     \<and> capabilities_for_profile (dv_capability_profile d) = Inr (se_capabilities se)
     \<and> tbl_get in_instance_id (se_instance_id se) (instances (hb_store h')) = Some row
     \<and> in_state row = Online \<and> in_connector_id row = se_connector_id se
     \<and> in_connection_generation row = cn_generation c"
proof -
  have ready: "says_ready (gs, c', h')" using assms(2,3) by (metis fst_conv image_eqI says_ready_def)
  with assms(1) obtain message epoch where p: "authenticate_message env message epoch rd c h = (gs, c', h')"
    by (metis ready_step)
  show ?thesis
  proof (cases "authenticate_session (ee_sha env) (ee_edv env) (rd_event_id rd) (rd_now rd) (cn_challenge_id c)
      (cn_challenge c) (cn_generation c) message epoch (hb_store h)")
    case (Pair r st')
    show ?thesis
    proof (cases r)
      case (Inl e)
      with Pair have "\<not> says_ready (authenticate_message env message epoch rd c h)" by (simp add: authenticate_message_def)
      with ready p show ?thesis by simp
    next
      case (Inr se)
      note auth = Pair [unfolded Inr]
      note backed = authenticate_session_leaves [OF auth]
      note out = authenticate_message_ready [OF auth backed [THEN conjunct1] p]
      have "f = OutJson (ready_frame se)" using assms(2) out(1) by simp
      with backed out(2-) show ?thesis by blast
    qed
  qed
qed

section \<open>The end of a connection\<close>

text \<open>
  What the end of a connection does to the shared state of its session: no route leads to it, its
  table of pending commands is empty, and exactly the futures that were in the table and not done
  get the error that makes their commands end with \<open>device_offline\<close>. A command whose entry has
  been overwritten by a later one with the same request id is not in the table: it is not woken
  and waits for the end of its relay window.
\<close>

definition awaited :: "nat \<Rightarrow> hub \<Rightarrow> nat \<Rightarrow> bool" where
  "awaited ref h f \<longleftrightarrow> hb_futures h f = Some FPending
     \<and> (case hb_heap h ref of None \<Rightarrow> False | Some se \<Rightarrow> f \<in> snd ` set (se_pending se))"

definition let_go :: "nat \<Rightarrow> hub \<Rightarrow> hub \<Rightarrow> bool" where
  "let_go ref h h' \<longleftrightarrow>
     (\<forall>k. hb_sessions h' k \<noteq> Some ref)
     \<and> (\<forall>se. hb_heap h' ref = Some se \<longrightarrow> se_pending se = [])
     \<and> (\<forall>f. hb_futures h' f
          = (if awaited ref h f then Some (FError (AgentError ''device_offline'')) else hb_futures h f))"

lemma wf_route:
  "hub_wf h \<Longrightarrow> hb_sessions h k = Some ref \<Longrightarrow> \<exists>se. hb_heap h ref = Some se \<and> se_connector_id se = k"
  unfolding hub_wf_def by blast

lemma remove_lets_go:
  assumes "hub_wf h"
  shows "let_go ref h (snd (remove ref h))"
proof (cases "hb_heap h ref")
  case None
  then have "hb_sessions h k \<noteq> Some ref" for k using wf_route [OF assms, of k ref] by auto
  with None show ?thesis by (simp add: let_go_def awaited_def remove_def)
next
  case (Some se)
  then have other: "k \<noteq> se_connector_id se \<Longrightarrow> hb_sessions h k \<noteq> Some ref" for k
    using wf_route [OF assms, of k ref] by auto
  let ?h' = "snd (remove ref h)"
  have heap: "hb_heap ?h' ref = Some (se\<lparr>se_pending := []\<rparr>)"
    using Some by (auto simp: remove_def fail_pending_def split: option.split)
  have woken: "hb_futures ?h' f
      = (if awaited ref h f then Some (FError (AgentError ''device_offline'')) else hb_futures h f)" for f
    using Some by (auto simp: remove_def fail_pending_def awaited_def split: option.split)
  have "hb_sessions ?h' k \<noteq> Some ref" for k
  proof (cases "k = se_connector_id se")
    case True
    with Some show ?thesis by (auto simp: remove_def fail_pending_def same_generation_def split: option.split)
  next
    case False
    with Some other [OF False] show ?thesis by (auto simp: remove_def fail_pending_def split: option.split)
  qed
  with Some heap woken show ?thesis by (simp add: let_go_def)
qed

lemma close_lets_go:
  assumes "hub_wf h"
  shows "let_go ref h (close_session ref registered t h)"
proof (cases "hb_heap h ref")
  case None
  then have "hb_sessions h k \<noteq> Some ref" for k using wf_route [OF assms, of k ref] by auto
  with None show ?thesis by (simp add: let_go_def awaited_def close_session_def)
next
  case (Some se)
  with remove_lets_go [OF assms, of ref] show ?thesis
    by (cases "remove ref h") (simp add: let_go_def close_session_def Let_def)
qed

definition ended_cleanly :: "connection \<Rightarrow> hub \<Rightarrow> stepped \<Rightarrow> bool" where
  "ended_cleanly c h p \<longleftrightarrow>
     (\<forall>e ref. cn_phase (fst (snd p)) = Done e \<longrightarrow> cn_session c = Some ref \<longrightarrow> let_go ref h (snd (snd p)))"

lemma ended_end: "hub_wf h \<Longrightarrow> ended_cleanly c h (end_connection e rd c h)"
  by (simp add: ended_cleanly_def end_connection_def close_lets_go)

lemma ended_raise: "hub_wf h \<Longrightarrow> ended_cleanly c h (raise_in e rd c h)"
  using ended_end [of h c "Some e" rd]
  by (auto simp: ended_cleanly_def raise_in_def Let_def split: option.split)

lemma ended_same_pending:
  assumes "ended_cleanly c h1 p" and "cn_session c = Some ref"
    and same: "map_option se_pending (hb_heap h1 ref) = map_option se_pending (hb_heap h ref)"
    and futures: "hb_futures h1 = hb_futures h"
  shows "ended_cleanly c h p"
proof -
  have "awaited ref h1 = awaited ref h"
    using same futures by (cases "hb_heap h ref"; cases "hb_heap h1 ref") (auto simp: awaited_def fun_eq_iff)
  then have "let_go ref h h'" if "let_go ref h1 h'" for h'
    using that futures by (simp add: let_go_def)
  with assms(1,2) show ?thesis by (simp add: ended_cleanly_def)
qed

text \<open>A message of the serving loop that raises has touched nothing but the store.\<close>

lemma serve_error_frame:
  assumes "serve_message ref t m h = (Inl e, h1)"
  shows "hb_heap h1 = hb_heap h \<and> hb_futures h1 = hb_futures h"
proof -
  have receive: "receive_response ref m h = (Inl e, h1) \<Longrightarrow> h1 = h"
    by (auto simp: receive_response_def split: option.splits sum.splits if_splits)
  from assms receive show ?thesis
    by (auto simp: serve_message_def split: option.splits sum.splits prod.splits if_splits)
qed

text \<open>Every way a connection with a session ends lets go of the session.\<close>

lemma step_lets_go:
  assumes "endpoint_step env rd ev c h = Some (gs, c', h')" and "cn_phase c' = Done e"
    and "cn_phase c \<in> {ReadySent, Serving, CloseSent}" and "cn_session c = Some ref" and "hub_wf h"
  shows "let_go ref h h'"
proof -
  have msg: "ended_cleanly c h (session_message env ref w rd c h)" if "cn_phase c = Serving" for w
  proof (cases "receive_message (ee_loads env) w")
    case (Inl x)
    with ended_raise [OF assms(5)] show ?thesis by (simp add: session_message_def)
  next
    case (Inr m)
    obtain r h1 where s: "serve_message ref (rd_now rd) m h = (r, h1)" by (cases "serve_message ref (rd_now rd) m h")
    have wf: "hub_wf h1" using shrinks_wf [OF assms(5) shrinks_serve, of ref "rd_now rd" m] s by simp
    show ?thesis
    proof (cases r)
      case (Inl x)
      have keep: "map_option se_pending (hb_heap h1 ref) = map_option se_pending (hb_heap h ref)"
        "hb_futures h1 = hb_futures h"
        using serve_error_frame [of ref "rd_now rd" m h x h1] s Inl by simp_all
      have "session_message env ref w rd c h = raise_in x rd c h1" using Inl Inr s by (simp add: session_message_def)
      then show ?thesis using ended_same_pending [OF ended_raise [OF wf] assms(4) keep] by simp
    next
      case (Inr u)
      with \<open>receive_message (ee_loads env) w = Inr m\<close> s that show ?thesis
        by (simp add: ended_cleanly_def session_message_def)
    qed
  qed
  from assms(1-4) consider x where "end_connection x rd c h = (gs, c', h')"
    | x where "raise_in x rd c h = (gs, c', h')"
    | w where "cn_phase c = Serving" "session_message env ref w rd c h = (gs, c', h')"
    by (cases ev) (auto simp: endpoint_step_def)
  then have "ended_cleanly c h (gs, c', h')"
    using msg ended_end [OF assms(5)] ended_raise [OF assms(5)] by cases metis+
  with assms(2,4) show ?thesis by (simp add: ended_cleanly_def)
qed

section \<open>The facts at concrete connections\<close>

definition demo_auth_message :: fields where
  "demo_auth_message = [(''v'', JInt 1), (''type'', JStr ''authenticate''), (''challenge_id'', JStr demo_uuid),
     (''challenge'', JStr ''ch''), (''connector_id'', JStr ''dev-2''), (''instance_id'', JStr ''i-1''),
     (''context_epoch'', JInt 3), (''signature'', JStr demo_sig)]"

definition demo_endpoint :: endpoint_env where
  "demo_endpoint = \<lparr>ee_sha = demo_sha, ee_edv = (\<lambda>_ _ _. True), ee_loads = (\<lambda>_. Some (JObj demo_auth_message)),
     ee_trust_proxy_tls = False\<rparr>"

definition demo_reading :: reading where
  "demo_reading = \<lparr>rd_now = seconds 110, rd_event_id = ''ev-2'', rd_challenge_id = demo_uuid, rd_challenge = ''ch'',
     rd_generation = ''gen-1''\<rparr>"

definition demo_listening :: connection where
  "demo_listening = new_connection\<lparr>cn_phase := Listening False, cn_generation := ''gen-1'',
     cn_challenge_id := demo_uuid, cn_challenge := ''ch''\<rparr>"

lemma demo_offer:
  "offer_challenge demo_endpoint False demo_reading (new_connection\<lparr>cn_phase := AcceptSent, cn_generation := ''gen-1''\<rparr>)
     (bare_hub empty_store)
   = ([OutJson (JObj [(''v'', JInt 1), (''type'', JStr ''challenge''), (''challenge_id'', JStr demo_uuid),
                    (''challenge'', JStr ''ch'')])], demo_listening\<lparr>cn_phase := ChallengeSent False\<rparr>,
      (bare_hub empty_store)\<lparr>hb_store := snd (issue_relay_challenge demo_sha demo_uuid ''ch'' (seconds 110) empty_store)\<rparr>)"
proof -
  let ?p = "issue_relay_challenge demo_sha demo_uuid ''ch'' (seconds 110) empty_store"
  have "fst ?p = Inr (JObj [(''v'', JInt 1), (''type'', JStr ''challenge''), (''challenge_id'', JStr demo_uuid),
      (''challenge'', JStr ''ch'')])" by code_simp
  then show ?thesis
    by (cases ?p) (simp add: offer_challenge_def demo_endpoint_def demo_reading_def bare_hub_def
        demo_listening_def new_connection_def)
qed

theorem endpoint_refines_system_witness:
  "\<exists>frames c' h'. endpoint_step demo_endpoint demo_reading WriteDone (new_connection\<lparr>cn_phase := AcceptSent\<rparr>)
        (sy_hub (sys_start empty_store)) = Some (frames, c', h')
     \<and> (sys_step demo_sha (\<lambda>_ _ _. True) 75)\<^sup>*\<^sup>* (sys_start empty_store) ((sys_start empty_store)\<lparr>sy_hub := h'\<rparr>)
     \<and> challenges (hb_store h') \<noteq> []"
proof -
  have s2: "endpoint_step demo_endpoint demo_reading WriteDone (new_connection\<lparr>cn_phase := AcceptSent\<rparr>)
      (sy_hub (sys_start empty_store))
      = Some (offer_challenge demo_endpoint False demo_reading
          (new_connection\<lparr>cn_phase := AcceptSent, cn_generation := ''gen-1''\<rparr>) (bare_hub empty_store))"
    by (simp add: endpoint_step_def new_connection_def demo_reading_def bare_hub_start)
  have "challenges (snd (issue_relay_challenge demo_sha demo_uuid ''ch'' (seconds 110) empty_store)) \<noteq> []"
    by code_simp
  with endpoint_refines_system [OF s2 [unfolded demo_offer], of 75] s2 [unfolded demo_offer] show ?thesis
    by (auto simp: demo_endpoint_def)
qed

theorem ready_means_registered_witness:
  "\<exists>gs c' h'. endpoint_step demo_endpoint demo_reading (Received ''msg'') demo_listening (bare_hub demo_waiting)
        = Some (gs, c', h')
     \<and> (\<exists>ref se. hb_heap h' ref = Some se \<and> hb_sessions h' (se_connector_id se) = Some ref
          \<and> OutJson (ready_frame se) \<in> set gs)"
proof -
  let ?auth = "authenticate_session demo_sha (\<lambda>_ _ _. True) ''ev-2'' (seconds 110) demo_uuid ''ch'' ''gen-1''
     demo_auth_message 3 demo_waiting"
  have "\<not> isl (fst ?auth)" by code_simp
  then obtain se st where auth: "?auth = (Inr se, st)" using not_islE by blast
  have msg: "receive_message (\<lambda>_. Some (JObj demo_auth_message)) ''msg'' = Inr demo_auth_message"
    by code_simp
  have flds: "fld demo_auth_message ''type'' = JStr ''authenticate''" "epoch_field demo_auth_message = Some 3"
    by code_simp+
  obtain gs c' h' where step: "endpoint_step demo_endpoint demo_reading (Received ''msg'') demo_listening (bare_hub demo_waiting)
        = Some (gs, c', h')" and gs: "gs = [OutJson (ready_frame se)]"
    using msg flds auth
    by (simp add: endpoint_step_def demo_endpoint_def demo_listening_def new_connection_def handshake_message_def
        authenticate_message_def demo_reading_def bare_hub_def new_session_def)
  then have "OutJson (ready_frame se) \<in> set gs" by simp
  from ready_means_registered [OF step this] step this show ?thesis by fastforce
qed

definition demo_serving :: connection where
  "demo_serving = new_connection\<lparr>cn_phase := Serving, cn_stage := ''session'', cn_session := Some 0, cn_registered := True\<rparr>"

end
