(* ===== verification/Lifetime.thy ===== *)
theory Lifetime
  imports Endpoint
begin

text \<open>
  How long a connection can take, counted in suspensions: the loop of \<open>AgentRelayEndpoint.handle\<close>
  is only entered with the ready frame, before it at most eight and after it at most two steps
  are taken, and every suspension has an event that ends it and brings the end nearer.
\<close>

section \<open>The rank of a phase\<close>

fun rank :: "phase \<Rightarrow> nat" where
  "rank Fresh = 11"
| "rank AcceptSent = 10"
| "rank (ChallengeSent second) = (if second then 6 else 9)"
| "rank (Listening second) = (if second then 5 else 8)"
| "rank EnrolledSent = 7"
| "rank ReadySent = 4"
| "rank Serving = 3"
| "rank (ErrorSent reason) = 2"
| "rank CloseSent = 1"
| "rank (Done e) = 0"

abbreviation rank_of :: "stepped \<Rightarrow> nat" where
  "rank_of p \<equiv> rank (cn_phase (fst (snd p)))"

lemma rank_serving: "rank ph = 3 \<longleftrightarrow> ph = Serving"
  by (cases ph) auto

lemma rank_end [simp]: "rank_of (end_connection e rd c h) = 0"
  by (simp add: end_connection_def)

lemma rank_raise: "rank_of (raise_in e rd c h) \<le> 2"
  by (simp add: raise_in_def Let_def split: option.split)

lemma rank_offer: "rank_of (offer_challenge env second rd c h) \<le> (if second then 6 else 9)"
  using rank_raise by (auto simp: offer_challenge_def intro: order_trans [OF rank_raise] split: prod.split sum.split)

lemma rank_enroll: "rank_of (enroll_message env message rd c h) \<le> 7"
  by (auto simp: enroll_message_def Let_def intro: order_trans [OF rank_raise] split: prod.split sum.split)

lemma rank_authenticate: "rank_of (authenticate_message env message epoch rd c h) \<le> 4"
  by (auto simp: authenticate_message_def Let_def new_session_def intro: order_trans [OF rank_raise] split: prod.split sum.split)

lemma rank_handshake:
  assumes "handshake_message env second message rd c h = Some p"
  shows "rank_of p < (if second then 5 else 8)"
proof -
  from assms consider e c1 h1 where "p = raise_in e rd c1 h1" | m where "\<not> second" "p = enroll_message env m rd c h"
    | m epoch where "p = authenticate_message env m epoch rd c h"
    by (auto simp: handshake_message_def elim: refuse_epoch_Some split: sum.splits if_splits option.splits)
  then show ?thesis
  proof cases
    case 1
    then show ?thesis using rank_raise [of e rd c1 h1] by simp
  next
    case 2
    then show ?thesis using rank_enroll [of env m rd c h] by simp
  next
    case 3
    then show ?thesis using rank_authenticate [of env m epoch rd c h] by simp
  qed
qed

lemma rank_message:
  "cn_phase (fst (snd (session_message env ref message rd c h))) = cn_phase c \<or> rank_of (session_message env ref message rd c h) \<le> 2"
  using rank_raise by (auto simp: session_message_def split: prod.split sum.split)

lemma rank_step:
  assumes "endpoint_step env rd ev c h = Some p"
  shows "rank_of p < rank (cn_phase c) \<or> cn_phase c = Serving \<and> cn_phase (fst (snd p)) = Serving"
proof -
  have raise: "rank_of (raise_in e rd c h) < n" if "2 < n" for e n
    using rank_raise [of e rd c h] that by simp
  have offer: "rank_of (offer_challenge env second rd c' h) < (if second then 7 else 10)" for second c'
    using rank_offer [of env second rd c' h] by (simp split: if_splits)
  have message: "rank_of (session_message env ref msg rd c h) < 3 \<or> cn_phase (fst (snd (session_message env ref msg rd c h))) = cn_phase c"
    for ref msg using rank_message [of env ref msg rd c h] by auto
  from assms show ?thesis
    using raise offer [of True] offer [of False] message rank_handshake [of env _ _ rd c h]
    unfolding endpoint_step_def
    by (cases "cn_phase c"; cases ev) (auto split: if_splits option.splits)
qed


section \<open>Runs of one connection\<close>

text \<open>
  The steps of a connection, each with what it draws, the event that ends the suspension and the
  shared state it finds; the result is the phases the steps were taken in and the connection after
  them, or nothing when an event cannot happen in its phase.
\<close>

fun run_connection ::
    "endpoint_env \<Rightarrow> (reading \<times> event \<times> hub) list \<Rightarrow> connection \<Rightarrow> (phase list \<times> connection) option" where
  "run_connection env [] c = Some ([], c)"
| "run_connection env ((rd, ev, h) # inputs) c =
     (case endpoint_step env rd ev c h of
        None \<Rightarrow> None
      | Some (out, c', h') \<Rightarrow>
          map_option (\<lambda>(phases, c''). (cn_phase c # phases, c'')) (run_connection env inputs c'))"

abbreviation handshake_phase :: "phase \<Rightarrow> bool" where "handshake_phase ph \<equiv> 3 < rank ph"
abbreviation closing_phase :: "phase \<Rightarrow> bool" where "closing_phase ph \<equiv> rank ph < 3"

lemma run_connection_shape:
  "run_connection env inputs c = Some (phases, c') \<Longrightarrow>
   \<exists>pre n post. phases = pre @ replicate n Serving @ post
     \<and> list_all handshake_phase pre \<and> list_all closing_phase post
     \<and> length pre \<le> rank (cn_phase c) - 3 \<and> length post \<le> min 2 (rank (cn_phase c))
     \<and> (rank (cn_phase c) < 3 \<longrightarrow> n = 0)"
proof (induction inputs arbitrary: c phases)
  case Nil
  then show ?case by (auto intro: exI [of _ "[]"] exI [of _ 0])
next
  case (Cons x inputs)
  obtain rd ev h where x: "x = (rd, ev, h)" by (metis prod.exhaust)
  from Cons.prems obtain out c1 h1 rest where step: "endpoint_step env rd ev c h = Some (out, c1, h1)"
    and run: "run_connection env inputs c1 = Some (rest, c')" and phases: "phases = cn_phase c # rest"
    by (auto simp: x split: option.splits)
  from Cons.IH [OF run] obtain pre n post where rest: "rest = pre @ replicate n Serving @ post"
    and ok: "list_all handshake_phase pre" "list_all closing_phase post" "length pre \<le> rank (cn_phase c1) - 3"
      "length post \<le> min 2 (rank (cn_phase c1))" "rank (cn_phase c1) < 3 \<longrightarrow> n = 0" by blast
  from rank_step [OF step] have less: "rank (cn_phase c1) < rank (cn_phase c) \<or> cn_phase c = Serving \<and> cn_phase c1 = Serving"
    by simp
  consider "3 < rank (cn_phase c)" | "cn_phase c = Serving" | "rank (cn_phase c) < 3"
    using rank_serving [of "cn_phase c"] by linarith
  then show ?case
  proof cases
    case 1
    then show ?thesis using ok less by (intro exI [of _ "cn_phase c # pre"] exI [of _ n] exI [of _ post]) (auto simp: phases rest)
  next
    case 2
    then have "pre = []" using ok(3) less by auto
    with 2 show ?thesis
      using ok less by (intro exI [of _ "[]"] exI [of _ "Suc n"] exI [of _ post]) (auto simp: phases rest)
  next
    case 3
    then have "pre = []" "n = 0" "length post \<le> rank (cn_phase c1)" using ok(3-5) less rank_serving [of "cn_phase c"] by auto
    with 3 show ?thesis
      using ok(2) less rank_serving [of "cn_phase c"]
      by (intro exI [of _ "[]"] exI [of _ 0] exI [of _ "cn_phase c # post"]) (auto simp: phases rest)
  qed
qed

text \<open>The event that ends a suspension for good: a failed or finished write, the deadline, the departure of the peer.\<close>

fun way_out :: "phase \<Rightarrow> event" where
  "way_out Fresh = Upgrade None []"
| "way_out AcceptSent = WriteError"
| "way_out (ChallengeSent second) = WriteGone"
| "way_out (Listening second) = ReceiveTimeout"
| "way_out EnrolledSent = WriteGone"
| "way_out ReadySent = WriteGone"
| "way_out Serving = PeerGone"
| "way_out ph = WriteDone"

lemma way_out_advances:
  assumes "\<forall>e. cn_phase c \<noteq> Done e"
  shows "\<exists>p. endpoint_step env rd (way_out (cn_phase c)) c h = Some p \<and> rank_of p < rank (cn_phase c)"
  using assms rank_raise [of _ rd c h]
  by (cases "cn_phase c") (auto simp: endpoint_step_def le_less_trans [OF rank_raise])

text \<open>
  C28. Every connection ends: whatever the peer sends and the rest of the system does, the steps of a
  connection are at most eight of the handshake, then messages of a registered session, then at
  most two that close; there is no loop but that of the session. And no suspension is for ever:
  in every phase before the end the failure of a write, the deadline of the handshake or the
  departure of the peer is handled and brings the connection nearer to its end.
\<close>

theorem connections_terminate:
  assumes "run_connection env inputs new_connection = Some (phases, c)"
  shows "(\<exists>pre n post. phases = pre @ replicate n Serving @ post \<and> list_all handshake_phase pre
        \<and> list_all closing_phase post \<and> length pre \<le> 8 \<and> length post \<le> 2)
     \<and> ((\<forall>e. cn_phase c \<noteq> Done e) \<longrightarrow>
          (\<exists>ev. \<forall>rd h. \<exists>p. endpoint_step env rd ev c h = Some p \<and> rank_of p < rank (cn_phase c)))"
proof
  have "rank (cn_phase new_connection) = 11" by (simp add: new_connection_def)
  with run_connection_shape [OF assms] show "\<exists>pre n post. phases = pre @ replicate n Serving @ post \<and> list_all handshake_phase pre
        \<and> list_all closing_phase post \<and> length pre \<le> 8 \<and> length post \<le> 2" by fastforce
  show "(\<forall>e. cn_phase c \<noteq> Done e) \<longrightarrow>
          (\<exists>ev. \<forall>rd h. \<exists>p. endpoint_step env rd ev c h = Some p \<and> rank_of p < rank (cn_phase c))"
    using way_out_advances by blast
qed


text \<open>The upgrade, the challenge, and a peer that is gone before it arrives.\<close>

definition demo_inputs :: "(reading \<times> event \<times> hub) list" where
  "demo_inputs = map (\<lambda>ev. (demo_reading, ev, bare_hub empty_store)) [Upgrade (Some ''wss'') [], WriteDone, WriteGone]"

lemma demo_run: "\<exists>c. run_connection demo_endpoint demo_inputs new_connection = Some ([Fresh, AcceptSent, ChallengeSent False], c)"
proof -
  let ?h = "bare_hub empty_store"
  have s1: "endpoint_step demo_endpoint demo_reading (Upgrade (Some ''wss'') []) new_connection ?h
      = Some ([OutAccept], new_connection\<lparr>cn_phase := AcceptSent\<rparr>, ?h)"
    by (simp add: endpoint_step_def new_connection_def is_secure_connection_def)
  have s2: "endpoint_step demo_endpoint demo_reading WriteDone (new_connection\<lparr>cn_phase := AcceptSent\<rparr>) ?h
      = Some (offer_challenge demo_endpoint False demo_reading
          (new_connection\<lparr>cn_phase := AcceptSent, cn_generation := ''gen-1''\<rparr>) ?h)"
    by (simp add: endpoint_step_def new_connection_def demo_reading_def)
  have s3: "endpoint_step demo_endpoint demo_reading WriteGone (demo_listening\<lparr>cn_phase := ChallengeSent False\<rparr>) ?h
      = Some (end_connection None demo_reading (demo_listening\<lparr>cn_phase := ChallengeSent False\<rparr>) ?h)"
    by (simp add: endpoint_step_def)
  have "cn_phase new_connection = Fresh" by (simp add: new_connection_def)
  then show ?thesis
    by (simp add: demo_inputs_def s1 s2 demo_offer s3 end_connection_def)
qed

theorem connections_terminate_witness:
  "\<exists>pre n post. [Fresh, AcceptSent, ChallengeSent False] = pre @ replicate n Serving @ post
     \<and> list_all handshake_phase pre \<and> list_all closing_phase post \<and> length pre \<le> 8 \<and> length post \<le> 2"
proof -
  from demo_run obtain c where "run_connection demo_endpoint demo_inputs new_connection = Some ([Fresh, AcceptSent, ChallengeSent False], c)"
    by blast
  from connections_terminate [OF this] show ?thesis by blast
qed

end
