(* ===== verification/Wire.thy ===== *)
theory Wire
  imports Endpoint
begin

text \<open>
  One websocket and everything that is handed to it: the messages of its own connection
  (\<open>relay.py\<close>) and the commands and cancellations the service sends over the session of that
  connection (\<open>service.py\<close>). The connection runs inside the transition system of \<open>System\<close>, so its
  steps, the commands, the other connections and the operator interleave in any order.
\<close>

section \<open>The connection in the system\<close>

definition handed :: "connection \<Rightarrow> nat option \<Rightarrow> json \<Rightarrow> out list" where
  "handed c ref frame = (if ref \<noteq> None \<and> cn_session c = ref then [OutJson frame] else [])"

text \<open>
  The system, a connection opened in it, and what its websocket has been handed so far. A command
  is written to the session it was routed to, a cancellation to the session that is registered
  for its connector. The other steps of the system start no command; a cancellation whose frame is
  not looked at is a sweep of the store, which \<open>other\<close> has anyway.
\<close>

inductive wire :: "endpoint_env \<Rightarrow> int \<Rightarrow> store \<Rightarrow> sys \<Rightarrow> connection \<Rightarrow> out list \<Rightarrow> bool"
  for env stale st0
where
  opened: "reachable (ee_sha env) (ee_edv env) stale st0 s \<Longrightarrow> wire env stale st0 s new_connection []"
| own: "wire env stale st0 s c fs \<Longrightarrow> endpoint_step env rd ev c (sy_hub s) = Some (gs, c', h') \<Longrightarrow>
     wire env stale st0 (s\<lparr>sy_hub := h'\<rparr>) c' (fs @ gs)"
| request: "wire env stale st0 s c fs \<Longrightarrow> sy_running s i = None \<Longrightarrow>
     device_command cenv identity tool connector arguments k inst (sy_hub s) = (Inr (Started cm frame), h') \<Longrightarrow>
     wire env stale st0 (s\<lparr>sy_hub := h', sy_running := (sy_running s)(i \<mapsto> Writing cm)\<rparr>) c
       (fs @ handed c (Some (cm_session cm)) frame)"
| cancel: "wire env stale st0 s c fs \<Longrightarrow>
     cancel_request stale t connector rid (sy_hub s) = (Inr (name, rid', f, frame), h') \<Longrightarrow>
     wire env stale st0 (s\<lparr>sy_hub := h'\<rparr>) c (fs @ handed c (hb_sessions (sy_hub s) name) frame)"
| other: "wire env stale st0 s c fs \<Longrightarrow> sys_step (ee_sha env) (ee_edv env) stale s s' \<Longrightarrow>
     (\<forall>i. sy_running s i = None \<longrightarrow> sy_running s' i = None) \<Longrightarrow> wire env stale st0 s' c fs"

lemma reachable_steps:
  "(sys_step sha edv stale)\<^sup>*\<^sup>* s s' \<Longrightarrow> reachable sha edv stale st0 s \<Longrightarrow> reachable sha edv stale st0 s'"
  by (induction rule: rtranclp_induct) (auto intro: reachable.step)

lemma wire_reachable: "wire env stale st0 s c fs \<Longrightarrow> reachable (ee_sha env) (ee_edv env) stale st0 s"
proof (induction rule: wire.induct)
  case (own s c fs rd ev gs c' h')
  from goes_endpoint [OF own.hyps(2)] own.IH show ?case by (auto simp: goes_def intro: reachable_steps)
next
  case (request s c fs i cenv identity tool connector arguments k inst cm frame h')
  from reachable.step [OF request.IH sys_step.start [OF request.hyps(2,3)]] show ?case .
next
  case (cancel s c fs t connector rid name rid' f frame h')
  from reachable.step [OF cancel.IH sys_step.cancel [of _ _ _ _ t connector rid]] cancel.hyps(2) show ?case by simp
qed (auto intro: reachable.step)

lemma wire_wf: "wire env stale st0 s c fs \<Longrightarrow> hub_wf (sy_hub s)"
  using routing_ok_reachable [OF wire_reachable] by (simp add: routing_ok_def)

section \<open>What the connection says, and what is sent over it\<close>

definition own_message :: "out \<Rightarrow> bool" where
  "own_message f \<longleftrightarrow> kind f \<noteq> ''request'' \<and> kind f \<noteq> ''cancel''"

lemma conversation_own:
  assumes "conversation env c fs"
  shows "list_all own_message fs"
proof -
  let ?K = "{''accept'', ''challenge'', ''enrolled'', ''ready'', ''error'', ''close''}"
  have script: "set (prologue b @ [''ready'']) \<subseteq> ?K" for b
    by (auto simp: prologue_def)
  have "set (map kind fs) \<subseteq> ?K"
    using conversation_shape [OF assms]
  proof (elim disjE exE conjE)
    fix b n tail assume fs: "map kind fs = take n (prologue b @ [''ready'']) @ tail"
      and tail: "tail \<in> {[], [''error''], [''error'', ''close'']}"
    have "set (map kind fs) \<subseteq> set (prologue b @ [''ready'']) \<union> set tail"
      unfolding fs by (auto dest: in_set_takeD)
    with script [of b] tail show ?thesis by auto
  qed simp
  then show ?thesis by (fastforce simp: list_all_iff own_message_def)
qed

lemma request_sent: "device_command cenv identity tool connector arguments k inst h = (Inr (Started cm frame), h') \<Longrightarrow>
    kind (OutJson frame) = ''request''"
  by (drule device_command_started) (auto simp: kind_def request_frame_def fld_def)

lemma cancel_sent: "cancel_request stale t connector rid h = (Inr (name, rid', f, frame), h') \<Longrightarrow>
    kind (OutJson frame) = ''cancel''"
  by (auto simp: cancel_request_def bindH_apply liftH_def readH_def storeH_def build_cancel_frame_def bindR_def
      kind_def fld_def split: option.splits sum.splits if_splits)

lemma handed_foreign:
  "kind (OutJson frame) \<in> {''request'', ''cancel''} \<Longrightarrow> filter own_message (handed c ref frame) = []"
  by (auto simp: handed_def own_message_def)

lemma wire_conversation: "wire env stale st0 s c fs \<Longrightarrow> conversation env c (filter own_message fs)"
proof (induction rule: wire.induct)
  case (opened s)
  show ?case by (simp add: conversation.opened)
next
  case (own s c fs rd ev gs c' h')
  have said: "conversation env c' (filter own_message fs @ gs)"
    using own.IH own.hyps(2) by (rule conversation.goes_on)
  from conversation_own [OF said] have "\<forall>f \<in> set gs. own_message f" by (simp only: list_all_iff set_append) blast
  then have "filter own_message gs = gs" by (rule filter_True)
  with said show ?case by (simp only: filter_append)
next
  case (request s c fs i cenv identity tool connector arguments k inst cm frame h')
  then show ?case by (simp add: handed_foreign request_sent)
next
  case (cancel s c fs t connector rid name rid' f frame h')
  then show ?case by (simp add: handed_foreign cancel_sent)
qed

section \<open>A session comes with the ready frame\<close>

lemma session_kept [simp]:
  "cn_session (fst (snd (end_connection e rd c h))) = cn_session c"
  "cn_session (fst (snd (raise_in x rd c h))) = cn_session c"
  "cn_session (fst (snd (offer_challenge env second rd c h))) = cn_session c"
  "cn_session (fst (snd (enroll_message env message rd c h))) = cn_session c"
  "cn_session (fst (snd (session_message env ref txt rd c h))) = cn_session c"
  by (auto simp: end_connection_def raise_in_def offer_challenge_def enroll_message_def session_message_def Let_def
      split: option.split sum.split prod.split)

lemma authenticate_session_given:
  "cn_session (fst (snd (authenticate_message env message epoch rd c h))) = cn_session c
   \<or> says_ready (authenticate_message env message epoch rd c h)
     \<and> cn_session (fst (snd (authenticate_message env message epoch rd c h))) = Some (hb_next_session h)
     \<and> hb_next_session (snd (snd (authenticate_message env message epoch rd c h))) = Suc (hb_next_session h)
     \<and> cn_phase (fst (snd (authenticate_message env message epoch rd c h))) = ReadySent"
  by (auto simp: authenticate_message_def says_ready_def Let_def new_session_def register_def fail_pending_def
      split: sum.split prod.split option.split)

lemma step_session:
  assumes "endpoint_step env rd ev c h = Some p"
  shows "cn_session (fst (snd p)) = cn_session c
     \<or> says_ready p \<and> cn_session (fst (snd p)) = Some (hb_next_session h)
       \<and> hb_next_session (snd (snd p)) = Suc (hb_next_session h) \<and> cn_phase (fst (snd p)) = ReadySent"
proof -
  have "cn_session (fst (snd p)) = cn_session c"
    if "\<not> (\<exists>message epoch. p = authenticate_message env message epoch rd c h)"
    using assms that unfolding endpoint_step_def
    by (auto simp: handshake_message_def elim!: refuse_epoch_Some
        split: phase.splits event.splits option.splits if_splits sum.splits)
  then show ?thesis using authenticate_session_given [of env _ _ rd c h] by blast
qed

fun past_ready :: "phase \<Rightarrow> bool" where
  "past_ready ReadySent = True"
| "past_ready Serving = True"
| "past_ready (ErrorSent reason) = True"
| "past_ready CloseSent = True"
| "past_ready (Done e) = True"
| "past_ready _ = False"

lemma past_ready_raise: "past_ready (cn_phase (fst (snd (raise_in x rd c h))))"
  by (simp add: raise_in_def end_connection_def Let_def split: option.split)

lemma past_ready_step:
  assumes "endpoint_step env rd ev c h = Some p" and "past_ready (cn_phase c)"
  shows "past_ready (cn_phase (fst (snd p)))"
proof -
  have "past_ready (cn_phase (fst (snd (session_message env ref w rd c h))))" for ref w
    using assms(2) past_ready_raise by (simp add: session_message_def split: sum.split prod.split)
  with assms past_ready_raise show ?thesis
    unfolding endpoint_step_def end_connection_def
    by (auto split: phase.splits event.splits option.splits)
qed

section \<open>References are registered once\<close>

text \<open>A step never brings a session back: a route leads to a session that had one, or to a new one.\<close>

definition routes_kept :: "hub \<Rightarrow> hub \<Rightarrow> bool" where
  "routes_kept h h' \<longleftrightarrow> hb_next_session h \<le> hb_next_session h'
     \<and> (\<forall>k ref. hb_sessions h' k = Some ref \<longrightarrow> hb_next_session h \<le> ref \<or> (\<exists>k'. hb_sessions h k' = Some ref))"

lemma routes_kept_refl: "routes_kept h h"
  by (auto simp: routes_kept_def)

lemma routes_kept_trans: "routes_kept a b \<Longrightarrow> routes_kept b d \<Longrightarrow> routes_kept a d"
  unfolding routes_kept_def by (meson order_trans)

lemma routes_kept_shrinks: "shrinks h h' \<Longrightarrow> routes_kept h h'"
  unfolding shrinks_def routes_kept_def by (metis order_refl)

lemma routes_kept_started:
  assumes "device_command env identity tool connector arguments k inst h = (Inr (Started cm frame), h')"
  shows "routes_kept h h'"
  using device_command_started [OF assms]
  by (auto simp: routes_kept_def Let_def put_pending_frame hold_guard_frame new_future_frame)

lemma routes_kept_opened: "new_session se h = (ref, h') \<Longrightarrow> routes_kept h (register ref h')"
  by (auto simp: routes_kept_def new_session_def register_def fail_pending_def Let_def split: option.splits if_splits)

lemma routes_kept_step: "sys_step sha edv stale s s' \<Longrightarrow> routes_kept (sy_hub s) (sy_hub s')"
proof (induction rule: sys_step.induct)
  case (start s i env identity tool connector arguments k inst cm frame h')
  then show ?case using routes_kept_started by simp
next
  case (answer env identity tool connector arguments k inst s r h')
  then show ?case using shrinks_not_started routes_kept_shrinks by simp
next
  case (written s i cm way ev t1 t2 h')
  then show ?case using shrinks_after_write [of "sy_hub s" way ev t1 t2 cm] routes_kept_shrinks by simp
next
  case (write_ended s i cm way ev t1 t2 e h')
  then show ?case using shrinks_after_write [of "sy_hub s" way ev t1 t2 cm] routes_kept_shrinks by simp
next
  case (wait_ended s i cm way' ev t1 t2 r' h')
  then show ?case using shrinks_after_wait routes_kept_shrinks by simp
next
  case (opened se s ref h')
  then show ?case using routes_kept_opened by simp
next
  case (service s sop)
  show ?case by (simp add: routes_kept_def) blast
qed (simp_all add: routes_kept_shrinks shrinks_cancel shrinks_after_cancel shrinks_serve shrinks_close)

lemma routes_kept_steps: "(sys_step sha edv stale)\<^sup>*\<^sup>* s s' \<Longrightarrow> routes_kept (sy_hub s) (sy_hub s')"
  by (induction rule: rtranclp_induct) (auto intro: routes_kept_refl routes_kept_trans routes_kept_step)

lemma routes_kept_endpoint: "endpoint_step env rd ev c h = Some (gs, c', h') \<Longrightarrow> routes_kept h h'"
proof -
  assume "endpoint_step env rd ev c h = Some (gs, c', h')"
  then have "endpoint_step env rd ev c (sy_hub \<lparr>sy_hub = h, sy_running = \<lambda>_. None\<rparr>) = Some (gs, c', h')" by simp
  from goes_endpoint [OF this] routes_kept_steps show ?thesis by (force simp: goes_def)
qed

section \<open>The invariant of a wire\<close>

definition wire_ok :: "hub \<Rightarrow> connection \<Rightarrow> out list \<Rightarrow> bool" where
  "wire_ok h c fs \<longleftrightarrow> (\<forall>ref. cn_session c = Some ref \<longrightarrow>
     ref < hb_next_session h \<and> past_ready (cn_phase c) \<and> ''ready'' \<in> kind ` set fs
     \<and> (\<forall>e. cn_phase c = Done e \<longrightarrow> (\<forall>k. hb_sessions h k \<noteq> Some ref)))"

lemma wire_okD:
  "wire_ok h c fs \<Longrightarrow> cn_session c = Some ref \<Longrightarrow>
     ref < hb_next_session h \<and> past_ready (cn_phase c) \<and> ''ready'' \<in> kind ` set fs
     \<and> (\<forall>e. cn_phase c = Done e \<longrightarrow> (\<forall>k. hb_sessions h k \<noteq> Some ref))"
  by (simp add: wire_ok_def)

lemma wire_ok_other:
  assumes "wire_ok h c fs" and "routes_kept h h'"
  shows "wire_ok h' c (fs @ gs)"
  unfolding wire_ok_def
proof (intro allI impI)
  fix ref assume "cn_session c = Some ref"
  note ok = wire_okD [OF assms(1) this]
  have "hb_sessions h' k \<noteq> Some ref" if "cn_phase c = Done e" for e k
  proof
    assume "hb_sessions h' k = Some ref"
    with assms(2) ok that show False unfolding routes_kept_def by (meson not_less)
  qed
  with ok assms(2) show "ref < hb_next_session h' \<and> past_ready (cn_phase c) \<and> ''ready'' \<in> kind ` set (fs @ gs)
     \<and> (\<forall>e. cn_phase c = Done e \<longrightarrow> (\<forall>k. hb_sessions h' k \<noteq> Some ref))"
    by (auto simp: routes_kept_def)
qed

lemma done_is_final: "endpoint_step env rd ev c h = Some p \<Longrightarrow> cn_phase c \<noteq> Done e"
  by (auto simp: endpoint_step_def)

lemma ends_from:
  assumes "endpoint_step env rd ev c h = Some p" and "past_ready (cn_phase c)" and "cn_phase (fst (snd p)) = Done e"
  shows "cn_phase c \<in> {ReadySent, Serving, CloseSent}"
  using assms by (cases "cn_phase c"; cases ev) (auto simp: endpoint_step_def)

lemma wire_ok_own:
  assumes ok: "wire_ok h c fs" and step: "endpoint_step env rd ev c h = Some (gs, c', h')" and wf: "hub_wf h"
  shows "wire_ok h' c' (fs @ gs)"
proof (cases "cn_session c' = cn_session c")
  case False
  with step_session [OF step] have "says_ready (gs, c', h')" "cn_session c' = Some (hb_next_session h)"
    "hb_next_session h' = Suc (hb_next_session h)" "cn_phase c' = ReadySent" by simp_all
  then show ?thesis by (auto simp: wire_ok_def says_ready_def)
next
  case True
  show ?thesis
    unfolding wire_ok_def
  proof (intro allI impI)
    fix ref assume "cn_session c' = Some ref"
    then have ref: "cn_session c = Some ref" using True by simp
    note old = wire_okD [OF ok this]
    have "past_ready (cn_phase c')" using past_ready_step [OF step] old by simp
    moreover have "hb_sessions h' k \<noteq> Some ref" if "cn_phase c' = Done e" for e k
    proof -
      have "cn_phase c \<in> {ReadySent, Serving, CloseSent}" using ends_from [OF step] old that by simp
      from step_lets_go [OF step that this ref wf] show ?thesis by (simp add: let_go_def)
    qed
    ultimately show "ref < hb_next_session h' \<and> past_ready (cn_phase c') \<and> ''ready'' \<in> kind ` set (fs @ gs)
       \<and> (\<forall>e. cn_phase c' = Done e \<longrightarrow> (\<forall>k. hb_sessions h' k \<noteq> Some ref))"
      using old routes_kept_endpoint [OF step] by (auto simp: routes_kept_def)
  qed
qed

lemma wire_ok_reached: "wire env stale st0 s c fs \<Longrightarrow> wire_ok (sy_hub s) c fs"
proof (induction rule: wire.induct)
  case (opened s)
  show ?case by (simp add: wire_ok_def new_connection_def)
next
  case (own s c fs rd ev gs c' h')
  from wire_ok_own [OF own.IH own.hyps(2) wire_wf [OF own.hyps(1)]] show ?case by simp
next
  case (request s c fs i cenv identity tool connector arguments k inst cm frame h')
  from wire_ok_other [OF request.IH routes_kept_started [OF request.hyps(3)]] show ?case by simp
next
  case (cancel s c fs t connector rid name rid' f frame h')
  have "shrinks (sy_hub s) h'" using shrinks_cancel [of "sy_hub s" stale t connector rid] cancel.hyps(2) by simp
  from wire_ok_other [OF cancel.IH routes_kept_shrinks [OF this]] show ?case by simp
next
  case (other s c fs s')
  from wire_ok_other [OF other.IH routes_kept_step [OF other.hyps(2)], of "[]"] show ?case by simp
qed


section \<open>A connection in a run\<close>

fun run_wire :: "endpoint_env \<Rightarrow> reading \<Rightarrow> event list \<Rightarrow> connection \<times> hub \<times> out list \<Rightarrow> (connection \<times> hub \<times> out list) option" where
  "run_wire env rd [] s = Some s"
| "run_wire env rd (ev # evs) (c, h, fs) =
     (case endpoint_step env rd ev c h of
        None \<Rightarrow> None
      | Some (gs, c', h') \<Rightarrow> run_wire env rd evs (c', h', fs @ gs))"

lemma run_wire_wire:
  "run_wire env rd evs (c, h, fs) = Some (c', h', fs') \<Longrightarrow> wire env stale st0 (s\<lparr>sy_hub := h\<rparr>) c fs \<Longrightarrow>
   wire env stale st0 (s\<lparr>sy_hub := h'\<rparr>) c' fs'"
proof (induction evs arbitrary: c h fs)
  case (Cons ev evs)
  then obtain gs c1 h1 where step: "endpoint_step env rd ev c h = Some (gs, c1, h1)"
    and rest: "run_wire env rd evs (c1, h1, fs @ gs) = Some (c', h', fs')"
    by (auto split: option.splits)
  have "wire env stale st0 (s\<lparr>sy_hub := h, sy_hub := h1\<rparr>) c1 (fs @ gs)"
    using Cons.prems(2) step by (intro wire.own) simp_all
  with Cons.IH [OF rest] show ?case by simp
qed simp

definition demo_paired :: store where
  "demo_paired = run_steps (store_step demo_sha)
     [OpEnroll ''dev-2'' demo_key ''Desk'' ''read_only'' (seconds 100) ''linux''] empty_store"

definition demo_up :: "(connection \<times> hub \<times> out list) option" where
  "demo_up = run_wire demo_endpoint demo_reading [Upgrade (Some ''wss'') [], WriteDone, WriteDone, Received ''msg'', WriteDone]
     (new_connection, bare_hub demo_paired, [])"

definition demo_read :: "hub \<Rightarrow> start res \<times> hub" where
  "demo_read h = device_command demo_env demo_identity ''files.read'' ''dev-2'' [(''path'', JStr ''a.txt'')] ''k-1'' None h"

text \<open>The store and the session that the five steps leave.\<close>

definition demo_linked_store :: store where
  "demo_linked_store = demo_paired\<lparr>
     challenges := [\<lparr>ch_challenge_id = demo_uuid, ch_challenge_hash = ''ch'', ch_expires_at = 230,
                     ch_consumed_at = Some 110, ch_created_at = 110\<rparr>],
     instances := [presence_row ''dev-2'' ''i-1'' ''gen-1'' 3 110],
     audit := [\<lparr>au_event_id = ''ev-2'', au_agent_principal = None, au_connector_id = Some ''dev-2'',
                au_request_id = None, au_action = ''device.online'', au_result_code = ''ok'',
                au_details = JObj [(''instance_id'', JStr ''i-1'')], au_created_at = 110\<rparr>]\<rparr>"

definition demo_linked_session :: session where
  "demo_linked_session = \<lparr>se_connector_id = ''dev-2'', se_instance_id = ''i-1'', se_context_epoch = 3,
     se_connection_generation = ''gen-1'',
     se_capabilities = (case capabilities_for_profile ''read_only'' of Inr cs \<Rightarrow> cs | Inl _ \<Rightarrow> []),
     se_capability_profile = ''read_only'', se_pending = []\<rparr>"

definition linked :: "hub \<Rightarrow> bool" where
  "linked h = (hb_store h = demo_linked_store \<and> hb_sessions h ''dev-2'' = Some 0
     \<and> hb_heap h 0 = Some demo_linked_session \<and> hb_attached h \<and> hb_next_future h = 0)"

lemma demo_up_facts:
  "case demo_up of None \<Rightarrow> False | Some (c, h, fs) \<Rightarrow>
     cn_phase c = Serving \<and> cn_session c = Some 0 \<and> cn_registered c
     \<and> map kind fs = [''accept'', ''challenge'', ''ready''] \<and> linked h"
  by code_simp

lemma demo_read_started:
  assumes "linked h"
  shows "is_started (fst (demo_read h))"
proof -
  obtain row st where route: "relay_session 75 (seconds 120) ''dev-2'' None demo_linked_store = (Inr (Some row), st)"
    and inst: "in_instance_id row = ''i-1''" and none: "requests st = []"
  proof -
    have "case relay_session 75 (seconds 120) ''dev-2'' None demo_linked_store of
        (Inr (Some row), st) \<Rightarrow> in_instance_id row = ''i-1'' \<and> requests st = [] | _ \<Rightarrow> False" by code_simp
    with that show thesis by (auto split: prod.splits sum.splits option.splits)
  qed
  have name: "parse_connector_id (JStr ''dev-2'') = Inr ''dev-2''" by code_simp
  have admit: "fst (admit_command demo_env demo_identity ''files.read'' [(''path'', JStr ''a.txt'')] demo_linked_session g) = Inr ()" for g
    unfolding admit_command_Inr by code_simp
  have free: "collision_key sha ''dev-2'' ''files.read'' a = None" for sha a
    by (simp add: collision_key_def MUTATING_RELAY_TOOLS_def)
  have "claim_request ''dev-2'' ''app'' ''k-1'' rid ''files.read'' dg t st = (New, snd (claim_request ''dev-2'' ''app'' ''k-1'' rid ''files.read'' dg t st))" for rid dg t
    by (rule prod_eqI) (simp_all add: claim_outcome ledger_of_def none)
  then have new: "fst (claim_request ''dev-2'' ''app'' ''k-1'' rid ''files.read'' dg t st) = New" for rid dg t
    by (metis fst_conv)
  have exact: "get_exact ''dev-2'' ''i-1'' (h\<lparr>hb_store := st\<rparr>) = Some 0"
    using assms by (simp add: linked_def get_exact_def demo_linked_session_def)
  have "route_command demo_env ''dev-2'' None h = (Inr (row, 0, demo_linked_session), h\<lparr>hb_store := st\<rparr>)"
    using assms route inst exact
    by (simp add: route_command_def bindH_storeH linked_def demo_env_def)
  moreover have "is_started (fst (claim_command demo_env demo_identity ''files.read'' ''dev-2'' [(''path'', JStr ''a.txt'')]
      ''k-1'' row 0 (h\<lparr>hb_store := st\<rparr>)))"
    using new free by (simp add: claim_command_eq Let_def demo_identity_def)
  moreover have "di_app_assertion demo_identity = None" by (simp add: demo_identity_def)
  ultimately show ?thesis
    using name admit by (simp add: demo_read_def device_command_def bindH_apply admit_command_frame)
qed

lemma demo_wire:
  obtains s c fs cm frame h where
    "wire demo_endpoint 75 demo_paired s c fs" and "cn_phase c = Serving" and "cn_session c = Some 0" and "cn_registered c"
    and "map kind fs = [''accept'', ''challenge'', ''ready'', ''request'']"
    and "sy_running s 0 = Some (Writing cm)" and "awaited 0 (sy_hub s) (cm_future cm)"
proof -
  obtain c h fs where up: "demo_up = Some (c, h, fs)" and c: "cn_phase c = Serving" "cn_session c = Some 0" "cn_registered c"
    and fs: "map kind fs = [''accept'', ''challenge'', ''ready'']" and h: "linked h"
    using demo_up_facts by (auto split: option.splits)
  have "wire demo_endpoint 75 demo_paired ((sys_start demo_paired)\<lparr>sy_hub := bare_hub demo_paired\<rparr>) new_connection []"
    using wire.opened [OF reachable.init] by (simp add: bare_hub_start [symmetric])
  from run_wire_wire [OF up [unfolded demo_up_def] this]
  have serving: "wire demo_endpoint 75 demo_paired ((sys_start demo_paired)\<lparr>sy_hub := h\<rparr>) c fs" .
  obtain cm frame h' where go: "demo_read h = (Inr (Started cm frame), h')"
    using is_startedE [OF demo_read_started [OF h]] by blast
  let ?s = "(sys_start demo_paired)\<lparr>sy_hub := h, sy_running := (\<lambda>_. None)(0 \<mapsto> Writing cm)\<rparr>"
  let ?s' = "?s\<lparr>sy_hub := h'\<rparr>"
  from device_command_started [OF go [unfolded demo_read_def]] obtain d row ref st where
    name: "parse_connector_id (JStr ''dev-2'') = Inr d" and ref: "get_exact d (in_instance_id row) h = Some ref"
    and started: "cm = started_command demo_env demo_identity ''files.read'' d [(''path'', JStr ''a.txt'')] ''k-1'' row ref
        (hb_next_future h)"
    and h': "h' = put_pending ref (cm_request_id cm) (cm_future cm) (hold_guard (cm_collision_key cm) (cm_request_id cm)
               (snd (new_future (h\<lparr>hb_store := st\<rparr>))))"
    by (auto simp: Let_def)
  have cm: "cm_session cm = ref" "cm_future cm = hb_next_future h" by (simp_all add: started started_command_def)
  have "parse_connector_id (JStr ''dev-2'') = Inr ''dev-2''" by code_simp
  with name have "d = ''dev-2''" by simp
  with ref h have ref0: "ref = 0" by (auto simp: get_exact_def linked_def demo_linked_session_def split: if_splits)
  have heap: "hb_heap h 0 = Some demo_linked_session" using h by (simp add: linked_def)
  have "awaited 0 h' (cm_future cm)"
    using heap cm by (simp add: awaited_def h' ref0 put_pending_def hold_guard_frame new_future_def demo_linked_session_def)
  moreover have "wire demo_endpoint 75 demo_paired ?s' c (fs @ handed c (Some (cm_session cm)) frame)"
    using wire.request [OF serving, of 0] go by (simp add: demo_read_def sys_start_def)
  moreover have "map kind (fs @ handed c (Some (cm_session cm)) frame) = [''accept'', ''challenge'', ''ready'', ''request'']"
    using fs c cm ref0 request_sent [OF go [unfolded demo_read_def]] by (simp add: handed_def)
  ultimately show thesis using c by (intro that [of ?s' c "fs @ handed c (Some (cm_session cm)) frame" cm]) simp_all
qed

section \<open>Properties\<close>



text \<open>
  C35. Every error frame on a relay websocket is one of a fixed list (for each published code its own
  text, flag and stages), and every close gives a published code as its reason: no text of an
  exception and nothing the peer sent goes into an error or a close.
\<close>

theorem refusals_published:
  assumes "wire env stale st0 s c fs"
  shows "list_all published fs"
proof -
  have own: "list_all published (filter own_message fs)"
    using conversation_published [OF wire_conversation [OF assms]] .
  have "published f" if "f \<in> set fs" for f
  proof (cases "own_message f")
    case True
    with own that show ?thesis by (simp add: list_all_iff)
  next
    case False
    then show ?thesis by (cases f) (auto simp: own_message_def published_def)
  qed
  then show ?thesis by (simp add: list_all_iff)
qed

theorem refusals_published_witness:
  "\<exists>s c fs. wire demo_endpoint 75 empty_store s c fs
     \<and> map kind fs = [''accept'', ''challenge'', ''error'', ''close''] \<and> list_all published fs"
proof -
  let ?run = "run_wire demo_endpoint demo_reading [Upgrade (Some ''wss'') [], WriteDone, WriteDone, ReceiveTimeout, WriteDone]
      (new_connection, bare_hub empty_store, [])"
  have "case ?run of None \<Rightarrow> False | Some (c, h, fs) \<Rightarrow> map kind fs = [''accept'', ''challenge'', ''error'', ''close'']"
    by code_simp
  then obtain c h fs where run: "?run = Some (c, h, fs)" and fs: "map kind fs = [''accept'', ''challenge'', ''error'', ''close'']"
    by (auto split: option.splits)
  have "wire demo_endpoint 75 empty_store ((sys_start empty_store)\<lparr>sy_hub := bare_hub empty_store\<rparr>) new_connection []"
    using wire.opened [OF reachable.init] by (simp add: bare_hub_start [symmetric])
  from run_wire_wire [OF run this] have w: "wire demo_endpoint 75 empty_store ((sys_start empty_store)\<lparr>sy_hub := h\<rparr>) c fs" .
  from w fs refusals_published [OF w] show ?thesis
    by (intro exI [where x = "(sys_start empty_store)\<lparr>sy_hub := h\<rparr>"] exI [where x = c] exI [where x = fs]) simp
qed

text \<open>
  C30. When a connection that got as far as a session ends, for whatever reason, the registry no
  longer routes to that session, its table of pending commands is empty, and exactly the commands
  that waited in that table are woken, to end with device_offline; no other future changes. A
  command whose entry a later command with the same request id has replaced is in no table, so
  this does not wake it.
\<close>

theorem ended_connection_lets_go:
  assumes "wire env stale st0 s c fs" and "endpoint_step env rd ev c (sy_hub s) = Some (gs, c', h')"
    and "cn_phase c' = Done e" and "cn_session c = Some ref"
  shows "let_go ref (sy_hub s) h'
     \<and> (\<forall>cm ev t1 t2. awaited ref (sy_hub s) (cm_future cm) \<longrightarrow>
          after_wait FutureDone ev t1 t2 cm h' = Some (fail_command ''device_offline'' cm t1 h'))"
proof -
  have "cn_phase c \<in> {ReadySent, Serving, CloseSent}"
    using ends_from [OF assms(2)] wire_okD [OF wire_ok_reached [OF assms(1)] assms(4)] assms(3) by simp
  from step_lets_go [OF assms(2,3) this assms(4) wire_wf [OF assms(1)]] have gone: "let_go ref (sy_hub s) h'" .
  then have "after_wait FutureDone ev t1 t2 cm h' = Some (fail_command ''device_offline'' cm t1 h')"
    if "awaited ref (sy_hub s) (cm_future cm)" for cm ev t1 t2
    using that by (simp add: let_go_def after_wait_def)
  with gone show ?thesis by blast
qed

theorem ended_connection_lets_go_witness:
  "\<exists>s c fs cm h'. wire demo_endpoint 75 demo_paired s c fs \<and> sy_running s 0 = Some (Writing cm)
     \<and> endpoint_step demo_endpoint demo_reading PeerGone c (sy_hub s) = Some ([], c\<lparr>cn_phase := Done None\<rparr>, h')
     \<and> hb_futures (sy_hub s) (cm_future cm) = Some FPending
     \<and> after_wait FutureDone ''ev'' 0 0 cm h' = Some (fail_command ''device_offline'' cm 0 h')"
proof -
  obtain s c fs cm where w: "wire demo_endpoint 75 demo_paired s c fs"
    and c: "cn_phase c = Serving" "cn_session c = Some 0" and run: "sy_running s 0 = Some (Writing cm)"
    and waits: "awaited 0 (sy_hub s) (cm_future cm)" using demo_wire by metis
  have gone: "endpoint_step demo_endpoint demo_reading PeerGone c (sy_hub s)
      = Some ([], c\<lparr>cn_phase := Done None\<rparr>, close_session 0 (cn_registered c) (seconds 110) (sy_hub s))"
    using c by (simp add: endpoint_step_def end_connection_def demo_reading_def)
  from ended_connection_lets_go [OF w gone _ c(2), of None] waits
  have "after_wait FutureDone ''ev'' 0 0 cm (close_session 0 (cn_registered c) (seconds 110) (sy_hub s))
      = Some (fail_command ''device_offline'' cm 0 (close_session 0 (cn_registered c) (seconds 110) (sy_hub s)))" by simp
  with waits run w gone show ?thesis
    by (intro exI [where x = s] exI [where x = c] exI [where x = fs] exI [where x = cm]
        exI [where x = "close_session 0 (cn_registered c) (seconds 110) (sy_hub s)"]) (simp add: awaited_def)
qed

text \<open>
  Two commands with one request id: the entry of the second replaces that of the first, so the
  first is not among those the end of the connection wakes.
\<close>

lemma overwritten_entry_lost:
  assumes "hb_heap h ref = Some se" and "first \<notin> snd ` set (se_pending se)" and "first \<noteq> second"
  shows "\<not> awaited ref (put_pending ref rid second (put_pending ref rid first h)) first"
proof -
  have "AList.update rid second (AList.update rid first al) = AList.update rid second al" for al :: "(string \<times> nat) list"
    by (induction al) auto
  moreover have "set (AList.update rid second (se_pending se)) \<subseteq> insert (rid, second) (set (se_pending se))"
    by (rule AList_update_subset)
  ultimately show ?thesis using assms by (auto simp: awaited_def put_pending_def)
qed

end
