(* ===== verification/Settlement.thy ===== *)
theory Settlement
  imports System
begin

text \<open>
  How commands end in the ledger. Every command under way is the request its ledger row was
  claimed by, whatever else happens, and when it ends the row has a result: its own, or the one
  the row already had. The exception is a task that is cancelled, which leaves the row as it is.
\<close>

section \<open>What no step does to the ledger\<close>

text \<open>A row keeps its request id and its digest, and its result once it has one.\<close>

definition rows_kept :: "ledger \<Rightarrow> ledger \<Rightarrow> bool" where
  "rows_kept l l' \<longleftrightarrow> (\<forall>key r d res. l key = Some (r, d, res) \<longrightarrow>
     (\<exists>res'. l' key = Some (r, d, res') \<and> (res \<noteq> None \<longrightarrow> res' = res)))"

lemma rows_keptD: "rows_kept l l' \<Longrightarrow> l key = Some (r, d, res) \<Longrightarrow> \<exists>res'. l' key = Some (r, d, res')"
  unfolding rows_kept_def by blast

lemma rows_kept_refl [simp]: "rows_kept l l"
  by (simp add: rows_kept_def)

lemma rows_kept_trans: "rows_kept l l' \<Longrightarrow> rows_kept l' l'' \<Longrightarrow> rows_kept l l''"
  unfolding rows_kept_def by metis

lemma rows_kept_step: "rows_kept l (ledger_step op l)"
  unfolding rows_kept_def
proof (intro allI impI)
  fix key r d res assume row: "l key = Some (r, d, res)"
  show "\<exists>res'. ledger_step op l key = Some (r, d, res') \<and> (res \<noteq> None \<longrightarrow> res' = res)"
  proof (cases res)
    case None
    with ledger_step_claimed [of l key r d res op] row show ?thesis by simp
  next
    case (Some j)
    with ledger_step_done [of l key r d j op] row show ?thesis by simp
  qed
qed

abbreviation kept :: "hub \<Rightarrow> hub \<Rightarrow> bool" where
  "kept h h' \<equiv> rows_kept (ledger_of (hb_store h)) (ledger_of (hb_store h'))"

lemma rows_kept_runs: "runs_from sha A st st' \<Longrightarrow> rows_kept (ledger_of st) (ledger_of st')"
proof -
  assume "runs_from sha A st st'"
  then obtain ops where st': "st' = run_steps (store_step sha) ops st" by (auto simp: runs_from_def)
  show ?thesis unfolding st'
  proof (induction ops arbitrary: st)
    case (Cons op ops)
    have "rows_kept (ledger_of st) (ledger_of (store_step sha op st))"
      using rows_kept_step by (simp add: request_ledger.view_step)
    with Cons.IH show ?case by (auto intro: rows_kept_trans)
  qed simp
qed

lemma rows_kept_relay_session: "rows_kept (ledger_of st) (ledger_of (snd (relay_session stale t c inst st)))"
  by (rule rows_kept_runs [where A = "\<lambda>_. True"], rule keepsD [OF relay_session_keeps]) simp_all

lemma rows_kept_claim: "rows_kept (ledger_of st) (ledger_of (snd (claim_request c cl k rid tool dg t st)))"
  by (auto simp: rows_kept_def ledger_claim)

lemma rows_kept_complete: "st \<noteq> Pending \<Longrightarrow> kept h (complete_command cm st res t h)"
  by (auto simp: rows_kept_def complete_command_def ledger_complete split: option.split)

section \<open>Every piece of code keeps the rows\<close>

lemma kept_route: "kept h (snd (route_command env c inst h))"
  by (simp add: route_command_def bindH_storeH rows_kept_relay_session split: sum.split option.split prod.split)

lemma kept_claim_command: "kept h (snd (claim_command env identity tool c arguments k row ref h))"
  by (auto simp: claim_command_eq Let_def new_future_frame put_pending_frame hold_guard_frame rows_kept_claim
      split: claim_outcome.split)

lemma kept_device_command: "kept h (snd (device_command env identity tool connector arguments k inst h))"
proof (cases "parse_connector_id (JStr connector)")
  case (Inr c)
  have "kept h (snd (bindH (route_command env c inst) (\<lambda>(row, ref, s).
      bindH (admit_command env identity tool arguments s) (\<lambda>_.
      claim_command env identity tool c arguments k row ref)) h))"
    using kept_route [of h env c inst] rows_kept_trans [OF kept_route [of h env c inst] kept_claim_command]
    by (simp add: bindH_apply admit_command_frame split: sum.split prod.split)
  with Inr show ?thesis by (simp add: device_command_def)
qed (simp add: device_command_def)

lemma kept_fail: "kept h (snd (fail_command failure cm t h))"
  by (simp add: fail_command_def release_command_store rows_kept_complete)

lemma kept_finish: "kept h (snd (finish_command ev t1 t2 cm result h))"
proof -
  have "kept h (complete_command cm st res t (release_command cm h))" if "st \<noteq> Pending" for st res t
    using rows_kept_complete [OF that, of "release_command cm h"] by (simp add: release_command_store)
  then show ?thesis
    by (simp add: finish_command_def Let_def bindH_storeH ledger_audit split: sum.split)
qed

lemma kept_after_write: "kept h (snd (after_write way ev t1 t2 cm h))"
proof -
  have "kept h (snd (fail_command failure cm t (h\<lparr>hb_store := snd (audit_slow_delivery ev t1 cm (hb_store h))\<rparr>)))" for failure t
    using kept_fail [of "h\<lparr>hb_store := snd (audit_slow_delivery ev t1 cm (hb_store h))\<rparr>" failure cm t]
    by (simp add: audit_slow_delivery_def ledger_audit)
  then show ?thesis
    by (cases way)
      (simp_all add: after_write_def Let_def split_beta storeH_def kept_fail release_command_store
        audit_slow_delivery_def ledger_audit)
qed

lemma kept_after_wait: "after_wait way ev t1 t2 cm h = Some (a, h') \<Longrightarrow> kept h h'"
  using kept_fail [of "cancel_future (cm_future cm) h"] kept_fail [of h] kept_finish [of h]
  unfolding after_wait_def
  by (auto simp: release_command_store cancel_future_store dest!: arg_cong [where f = snd]
      split: wait_end.splits option.splits future_state.splits if_splits)

lemma kept_cancel: "kept h (snd (cancel_request stale t c rid h))"
  by (simp add: cancel_request_def bindH_apply liftH_def readH_def storeH_def rows_kept_relay_session
      split: option.split sum.split)

lemma kept_after_cancel: "kept h (snd (after_cancel_write ev t c rid f h))"
  by (simp add: after_cancel_write_def Let_def bindH_storeH ledger_audit split: sum.split)

lemma register_keeps_store: "hb_store (register ref h) = hb_store h"
  by (simp add: register_def fail_pending_def split: option.split)

lemma remove_keeps_store: "hb_store (snd (remove ref h)) = hb_store h"
  by (simp add: remove_def fail_pending_def split: option.split)

lemma receive_keeps_store: "hb_store (snd (receive_response ref m h)) = hb_store h"
  by (simp add: receive_response_def split: option.split sum.split)

lemma rows_kept_heartbeat: "rows_kept (ledger_of st) (ledger_of (snd (service_heartbeat i g e t st)))"
proof -
  have "keeps (runs_from sha (\<lambda>_. True) st) (service_heartbeat i g e t)" for sha
    unfolding service_heartbeat_def by (intro keeps_intro) simp_all
  from rows_kept_runs [OF keepsD [OF this]] show ?thesis by simp
qed

lemma rows_kept_disconnect: "rows_kept (ledger_of st) (ledger_of (snd (disconnect_relay i g t st)))"
proof -
  have "keeps (runs_from sha (\<lambda>_. True) st) (disconnect_relay i g t)" for sha
    unfolding disconnect_relay_def by (intro keeps_intro) simp_all
  from rows_kept_runs [OF keepsD [OF this]] show ?thesis by simp
qed

lemma kept_serve: "kept h (snd (serve_message ref t m h))"
proof -
  have "rows_kept (ledger_of (hb_store h)) (ledger_of st)" if "service_heartbeat i g e t (hb_store h) = (x, st)" for i g e st x
    using rows_kept_heartbeat [of "hb_store h" i g e t] that by simp
  then show ?thesis
    by (auto simp: serve_message_def receive_keeps_store split: option.split sum.split prod.split)
qed

lemma kept_close: "kept h (close_session ref registered t h)"
  using rows_kept_disconnect remove_keeps_store [of ref h]
  by (auto simp: close_session_def split_beta Let_def split: option.split)

lemma kept_step: "sys_step sha edv stale s s' \<Longrightarrow> kept (sy_hub s) (sy_hub s')"
proof (induction rule: sys_step.induct)
  case (start s i env identity tool connector arguments k inst cm frame h')
  then show ?case using kept_device_command [of "sy_hub s" env identity tool connector arguments k inst] by simp
next
  case (answer env identity tool connector arguments k inst s r h')
  then show ?case using kept_device_command [of "sy_hub s" env identity tool connector arguments k inst] by simp
next
  case (written s i cm way ev t1 t2 h')
  then show ?case using kept_after_write [of "sy_hub s" way ev t1 t2 cm] by simp
next
  case (write_ended s i cm way ev t1 t2 e h')
  then show ?case using kept_after_write [of "sy_hub s" way ev t1 t2 cm] by simp
next
  case (wait_ended s i cm way' ev t1 t2 r' h')
  then show ?case using kept_after_wait by simp
next
  case (opened se s ref h')
  then show ?case by (auto simp: register_keeps_store new_session_def)
next
  case (service s sop)
  then show ?case using rows_kept_runs [OF service_step_runs] by simp
qed (simp_all add: kept_cancel kept_after_cancel kept_serve kept_close)

section \<open>A command under way is the request of its row\<close>

definition rows_held :: "sys \<Rightarrow> bool" where
  "rows_held s \<longleftrightarrow> (\<forall>i r. sy_running s i = Some r \<longrightarrow>
     (\<exists>d res. ledger_of (hb_store (sy_hub s)) (command_key (command_of r))
        = Some (cm_request_id (command_of r), d, res)))"

lemma rows_heldD: "rows_held s \<Longrightarrow> sy_running s i = Some r \<Longrightarrow>
    \<exists>d res. ledger_of (hb_store (sy_hub s)) (command_key (command_of r)) = Some (cm_request_id (command_of r), d, res)"
  by (simp add: rows_held_def)

text \<open>A claim that is told to run finds no row, or the row of its own request.\<close>

lemma claim_new_row:
  "fst (claim_request c cl k rid tool dg t st) = New \<Longrightarrow>
   \<exists>d res. ledger_of (snd (claim_request c cl k rid tool dg t st)) (c, cl, k) = Some (rid, d, res)"
  by (auto simp: claim_outcome spec_outcome_New ledger_claim split: option.splits)

lemma started_row:
  assumes "device_command env identity tool connector arguments k inst h = (Inr (Started cm frame), h')"
  shows "\<exists>d res. ledger_of (hb_store h') (command_key cm) = Some (cm_request_id cm, d, res)"
proof -
  from device_command_started [OF assms] obtain c row ref st where
    new: "fst (claim_request c (di_client_id identity) k (cm_request_id cm) tool (cm_request_digest cm)
            (ce_now_claim env) st) = New"
    and key: "command_key cm = (c, di_client_id identity, k)"
    and store: "hb_store h' = snd (claim_request c (di_client_id identity) k (cm_request_id cm) tool
            (cm_request_digest cm) (ce_now_claim env) st)"
    by (auto simp: Let_def put_pending_frame hold_guard_frame new_future_frame started_command_def)
  from claim_new_row [OF new] show ?thesis unfolding key store .
qed

lemma rows_held_frame:
  assumes "rows_held s" and "kept (sy_hub s) (sy_hub s')"
    and "\<And>i r'. sy_running s' i = Some r' \<Longrightarrow> \<exists>r. sy_running s i = Some r \<and> command_of r = command_of r'"
  shows "rows_held s'"
  unfolding rows_held_def
proof (intro allI impI)
  fix i r' assume "sy_running s' i = Some r'"
  then obtain r where "sy_running s i = Some r" and same: "command_of r = command_of r'" using assms(3) by blast
  from rows_heldD [OF assms(1) this(1)] rows_keptD [OF assms(2)]
  show "\<exists>d res. ledger_of (hb_store (sy_hub s')) (command_key (command_of r'))
      = Some (cm_request_id (command_of r'), d, res)" unfolding same by blast
qed

lemma rows_held_step:
  assumes "sys_step sha edv stale s s'" and "rows_held s"
  shows "rows_held s'"
  using assms(1)
proof (cases rule: sys_step.cases)
  case (start i env identity tool connector arguments k inst cm frame h')
  have "kept (sy_hub s) h'" using kept_step [OF assms(1)] start(1) by simp
  then have "rows_held (s\<lparr>sy_hub := h'\<rparr>)" by (intro rows_held_frame [OF assms(2)]) simp_all
  then show ?thesis using started_row [OF start(3)] unfolding start(1) rows_held_def by simp
next
  case (written i cm way ev t1 t2 h')
  then show ?thesis using kept_step [OF assms(1)] by (intro rows_held_frame [OF assms(2)]) (auto split: if_splits)
next
  case (write_ended i cm way ev t1 t2 e h')
  then show ?thesis using kept_step [OF assms(1)] by (intro rows_held_frame [OF assms(2)]) (auto split: if_splits)
next
  case (wait_ended i cm way' ev t1 t2 r' h')
  then show ?thesis using kept_step [OF assms(1)] by (intro rows_held_frame [OF assms(2)]) (auto split: if_splits)
qed (use kept_step [OF assms(1)] in \<open>auto intro!: rows_held_frame [OF assms(2)]\<close>)

lemma rows_held_reachable: "reachable sha edv stale st0 s \<Longrightarrow> rows_held s"
proof (induction rule: reachable.induct)
  case init
  show ?case by (simp add: rows_held_def sys_start_def)
qed (rule rows_held_step)

section \<open>How a command ends\<close>

text \<open>
  The two suspension points at which a command under way can end, the answer its caller gets
  (\<open>Inl\<close> an exception) and the shared state it leaves.
\<close>

inductive ends_with :: "sys \<Rightarrow> nat \<Rightarrow> command \<Rightarrow> fields res \<Rightarrow> hub \<Rightarrow> bool" for s i where
  at_write: "sy_running s i = Some (Writing cm) \<Longrightarrow> after_write way ev t1 t2 cm (sy_hub s) = (Some e, h') \<Longrightarrow>
     ends_with s i cm (Inl e) h'"
| at_wait: "sy_running s i = Some (Waiting cm) \<Longrightarrow> after_wait way' ev t1 t2 cm (sy_hub s) = Some (a, h') \<Longrightarrow>
     ends_with s i cm a h'"

lemma ends_with_step:
  "ends_with s i cm a h' \<Longrightarrow>
   sys_step sha edv stale s (s\<lparr>sy_hub := h', sy_running := (sy_running s)(i := None)\<rparr>)"
  by (erule ends_with.cases) (blast intro: sys_step.write_ended sys_step.wait_ended)+

text \<open>The result a row gets from a command that ends with this answer, if it had none.\<close>

definition result_left :: "hub \<Rightarrow> command \<Rightarrow> fields res \<Rightarrow> json option \<Rightarrow> bool" where
  "result_left h cm a res \<longleftrightarrow>
     (case a of
        Inr result \<Rightarrow> res = Some (json_sorted (JObj result))
      | Inl (AgentError failure) \<Rightarrow> res = Some (JObj [(''code'', JStr failure)])
      | Inl CancelledError \<Rightarrow> res = None
      | Inl _ \<Rightarrow> (\<exists>result. hb_futures h (cm_future cm) = Some (FResult result)
                        \<and> res = Some (json_sorted (JObj result))))"

lemma complete_command_row:
  assumes "ledger_of (hb_store h) (command_key cm) = Some (r, d, res)" and "st \<noteq> Pending"
  shows "ledger_of (hb_store (complete_command cm st result t h)) (command_key cm)
     = Some (r, d, Some (case res of None \<Rightarrow> json_sorted (JObj result) | Some j \<Rightarrow> j))"
  using assms by (auto simp: complete_command_def ledger_complete simp del: json_sorted.simps split: option.split)

text \<open>What a piece that ends a command with \<open>p\<close> does to the row of the command.\<close>

definition settles :: "hub \<Rightarrow> command \<Rightarrow> fields res \<times> hub \<Rightarrow> bool" where
  "settles h cm p \<longleftrightarrow> (\<forall>r d res. ledger_of (hb_store h) (command_key cm) = Some (r, d, res) \<longrightarrow>
     (\<exists>res'. ledger_of (hb_store (snd p)) (command_key cm) = Some (r, d, res')
        \<and> (res \<noteq> None \<longrightarrow> res' = res) \<and> (res = None \<longrightarrow> result_left h cm (fst p) res')))"

lemma settles_cancelled: "hb_store h' = hb_store h \<Longrightarrow> settles h cm (Inl CancelledError, h')"
  by (simp add: settles_def result_left_def)

lemma settles_fail:
  assumes "ledger_of (hb_store g) = ledger_of (hb_store h)"
  shows "settles h cm (fail_command failure cm t g)"
  unfolding settles_def
proof (intro allI impI)
  fix r d res assume "ledger_of (hb_store h) (command_key cm) = Some (r, d, res)"
  then have "ledger_of (hb_store g) (command_key cm) = Some (r, d, res)" by (simp add: assms)
  from complete_command_row [OF this, of Failed "[(''code'', JStr failure)]" t]
  show "\<exists>res'. ledger_of (hb_store (snd (fail_command failure cm t g))) (command_key cm) = Some (r, d, res')
      \<and> (res \<noteq> None \<longrightarrow> res' = res) \<and> (res = None \<longrightarrow> result_left h cm (fst (fail_command failure cm t g)) res')"
    by (auto simp: fail_command_def release_command_store result_left_def split: option.splits)
qed

lemma settles_finish:
  assumes result: "hb_futures h (cm_future cm) = Some (FResult result)"
  shows "settles h cm (finish_command ev t1 t2 cm result h)"
proof (cases "RESULT_MAX_BYTES < int (length (utf8_encode (dumps False (JObj result))))")
  case True
  then have fin: "finish_command ev t1 t2 cm result h
      = (Inl (AgentError ''result_too_large''),
         complete_command cm Failed [(''code'', JStr ''result_too_large'')] t1 (release_command cm h))"
    by (simp add: finish_command_def)
  show ?thesis unfolding fin settles_def
    using complete_command_row [of "release_command cm h" cm _ _ _ Failed "[(''code'', JStr ''result_too_large'')]" t1]
    by (auto simp: release_command_store result_left_def split: option.splits)
next
  case False
  let ?done = "complete_command cm Completed result t1 (release_command cm h)"
  let ?audit = "append_audit ev (''mcp.'' @ cm_tool cm)
     (if truthy (fld result ''code'') then py_str (fld result ''code'') else ''ok'')
     (Some (cm_client_id cm)) (Some (cm_connector_id cm)) (Some (cm_request_id cm)) [] t2 (hb_store ?done)"
  have fin: "finish_command ev t1 t2 cm result h = (case fst ?audit of Inl e \<Rightarrow> (Inl e, ?done\<lparr>hb_store := snd ?audit\<rparr>)
                | Inr _ \<Rightarrow> (Inr result, ?done\<lparr>hb_store := snd ?audit\<rparr>))"
    using False unfolding finish_command_def Let_def bindH_storeH by (simp del: dumps.simps split: sum.split)
  have err: "fst ?audit = Inl e \<Longrightarrow> e = IntegrityError" for e
    by (auto simp: append_audit_def split: if_splits)
  have left: "result_left h cm (fst (finish_command ev t1 t2 cm result h)) (Some (json_sorted (JObj result)))"
    unfolding fin using err result by (auto simp: result_left_def simp del: json_sorted.simps split: sum.split)
  have store: "ledger_of (hb_store (snd (finish_command ev t1 t2 cm result h))) = ledger_of (hb_store ?done)"
    unfolding fin by (simp add: ledger_audit split: sum.split)
  show ?thesis unfolding settles_def store
    using complete_command_row [of "release_command cm h" cm _ _ _ Completed result t1] left
    by (auto simp: release_command_store simp del: json_sorted.simps split: option.splits)
qed

lemma settles_write:
  assumes "after_write way ev t1 t2 cm h = (Some e, h')"
  shows "settles h cm (Inl e, h')"
proof -
  have failed: "settles h cm (Inl e, h')"
    if "ledger_of (hb_store g) = ledger_of (hb_store h)" "ended (fail_command failure cm t2 g) = (Some e, h')"
    for failure g
  proof -
    have "fail_command failure cm t2 g = (Inl e, h')"
      using that(2) by (auto simp: ended_def fail_command_def)
    with settles_fail [OF that(1)] show ?thesis by metis
  qed
  show ?thesis
  proof (cases way)
    case (Written slow)
    let ?g = "h\<lparr>hb_store := snd (audit_slow_delivery ev t1 cm (hb_store h))\<rparr>"
    have "ended (fail_command ''device_offline'' cm t2 ?g) = (Some e, h')"
      using assms Written by (auto simp: after_write_def storeH_def split: if_splits)
    then show ?thesis by (rule failed [rotated]) (simp add: audit_slow_delivery_def ledger_audit)
  next
    case WriteCancelled
    then show ?thesis using assms by (auto simp: after_write_def release_command_store intro!: settles_cancelled)
  qed (use assms failed [OF refl] in \<open>simp_all add: after_write_def\<close>)
qed

lemma settles_wait:
  assumes "after_wait way ev t1 t2 cm h = Some (a, h')"
  shows "settles h cm (a, h')"
proof (cases way)
  case WindowPassed
  then have "(a, h') = fail_command ''device_timeout'' cm t1 (cancel_future (cm_future cm) h)"
    using assms by (simp add: after_wait_def split: if_splits)
  then show ?thesis by (metis settles_fail cancel_future_store)
next
  case TaskCancelled
  then have "a = Inl CancelledError" "h' = release_command cm (cancel_future (cm_future cm) h)"
    using assms by (simp_all add: after_wait_def)
  then show ?thesis by (simp add: settles_cancelled release_command_store cancel_future_store)
next
  case FutureDone
  then obtain fs where fs: "hb_futures h (cm_future cm) = Some fs"
    using assms by (cases "hb_futures h (cm_future cm)") (simp_all add: after_wait_def)
  show ?thesis
  proof (cases fs)
    case (FResult result)
    then have "finish_command ev t1 t2 cm result h = (a, h')"
      using assms FutureDone fs by (simp add: after_wait_def)
    with settles_finish [of h cm result] fs FResult show ?thesis by metis
  next
    case (FError e)
    then have "fail_command ''device_offline'' cm t1 h = (a, h')"
      using assms FutureDone fs by (simp add: after_wait_def)
    with settles_fail [OF refl] show ?thesis by metis
  qed (use assms FutureDone fs settles_cancelled release_command_store in \<open>auto simp: after_wait_def\<close>)
qed

lemma ends_with_settles: "ends_with s i cm a h' \<Longrightarrow> settles (sy_hub s) cm (a, h')"
  by (erule ends_with.cases) (simp_all add: settles_write settles_wait)

section \<open>Properties\<close>

text \<open>
  C15. Every command under way ends in the ledger. In every reachable state its row carries its
  request id; and however it ends, at the write of its frame or in its wait, the row then has a
  result: the one it had already, or the command's own (the result of the device, or the code of
  the failure), which is what another request that retries the same intent is replayed. A
  cancelled task is the one exception: it leaves the row as it was. A command that the collision
  guard refuses has never been under way; guard_refusal_strands_claim says what it leaves.
\<close>

theorem ended_command_settled:
  assumes "reachable sha edv stale st0 s" and "ends_with s i cm a h'"
  shows "\<exists>dg res res'.
       ledger_of (hb_store (sy_hub s)) (cm_connector_id cm, cm_client_id cm, cm_idempotency_key cm)
         = Some (cm_request_id cm, dg, res)
     \<and> ledger_of (hb_store h') (cm_connector_id cm, cm_client_id cm, cm_idempotency_key cm)
         = Some (cm_request_id cm, dg, res')
     \<and> (if res \<noteq> None then res' = res else result_left (sy_hub s) cm a res')
     \<and> (rid \<noteq> cm_request_id cm \<longrightarrow>
          fst (claim_request (cm_connector_id cm) (cm_client_id cm) (cm_idempotency_key cm) rid tool dg t (hb_store h'))
            = (case res' of Some j \<Rightarrow> Replay j | None \<Rightarrow> PendingClaim))"
proof -
  have "\<exists>r. sy_running s i = Some r \<and> command_of r = cm"
    using assms(2) by (cases rule: ends_with.cases) auto
  then obtain dg res where row: "ledger_of (hb_store (sy_hub s)) (command_key cm) = Some (cm_request_id cm, dg, res)"
    using rows_heldD [OF rows_held_reachable [OF assms(1)]] by blast
  from ends_with_settles [OF assms(2), unfolded settles_def, rule_format, OF row] obtain res' where
    after: "ledger_of (hb_store h') (command_key cm) = Some (cm_request_id cm, dg, res')"
    and res': "res \<noteq> None \<longrightarrow> res' = res" "res = None \<longrightarrow> result_left (sy_hub s) cm a res'"
    by auto
  have "rid \<noteq> cm_request_id cm \<Longrightarrow>
      fst (claim_request (cm_connector_id cm) (cm_client_id cm) (cm_idempotency_key cm) rid tool dg t (hb_store h'))
        = (case res' of Some j \<Rightarrow> Replay j | None \<Rightarrow> PendingClaim)"
    using after by (simp add: claim_outcome)
  with row after res' show ?thesis by (intro exI [where x = dg] exI [where x = res] exI [where x = res']) simp
qed

theorem ended_command_settled_witness:
  "\<exists>h'. ends_with demo_busy 0 demo_cm (Inl (AgentError ''device_timeout'')) h'
     \<and> fst (claim_request (cm_connector_id demo_cm) (cm_client_id demo_cm) (cm_idempotency_key demo_cm) ''r-2''
          ''files.write'' (cm_request_digest demo_cm) 9 (hb_store h')) = Replay (JObj [(''code'', JStr ''device_timeout'')])"
proof -
  obtain cm frame h0 where go: "demo_command = (Inr (Started cm frame), h0)"
    using is_startedE [OF demo_command_started] by blast
  have cm: "demo_cm = cm" and h0: "sy_hub demo_busy = h0"
    by (simp_all only: demo_cm_def demo_busy_def sys.select_convs go prod.sel sum.case start.case)
  obtain e h' where sent: "after_write WriteTimedOut ''ev-9'' (seconds 130) (seconds 130) demo_cm (sy_hub demo_busy) = (Some e, h')"
    by (simp add: after_write_def fail_command_def ended_def)
  then have e: "e = AgentError ''device_timeout''" by (simp add: after_write_def fail_command_def ended_def)
  have "sy_running demo_busy 0 = Some (Writing demo_cm)" by (simp add: demo_busy_def)
  from ends_with.at_write [OF this sent] e
  have ends: "ends_with demo_busy 0 demo_cm (Inl (AgentError ''device_timeout'')) h'" by simp
  from device_command_started [OF go [unfolded demo_command_def]] obtain row st where
    new: "fst (claim_request (cm_connector_id cm) (cm_client_id cm) (cm_idempotency_key cm) (cm_request_id cm)
            ''files.write'' (cm_request_digest cm) (ce_now_claim demo_env) st) = New"
    and st: "st = snd (relay_session (ce_stale_seconds demo_env) (ce_now_route demo_env) (cm_connector_id cm) None (hb_store demo_hub))"
    and store: "hb_store h0 = snd (claim_request (cm_connector_id cm) (cm_client_id cm) (cm_idempotency_key cm) (cm_request_id cm)
            ''files.write'' (cm_request_digest cm) (ce_now_claim demo_env) st)"
    by (auto simp: Let_def put_pending_frame hold_guard_frame new_future_frame started_command_def)
  have "requests demo_live = []" by code_simp
  moreover have "requests (snd (mark_stale_instances t demo_live)) = requests demo_live" for t
    by (rule requests_unchanged)
  ultimately have "requests st = []"
    by (simp add: st relay_session_def latest_online_instance_def demo_hub_store Let_def split_beta)
  then have "ledger_of st (command_key cm) = None" by (simp add: ledger_of_def)
  then have row: "ledger_of (hb_store (sy_hub demo_busy)) (command_key demo_cm)
      = Some (cm_request_id demo_cm, cm_request_digest demo_cm, None)"
    by (simp add: h0 cm store ledger_claim)
  have "''r-2'' \<noteq> cm_request_id demo_cm" by (simp add: demo_busy_hub)
  with ended_command_settled [OF demo_busy_reachable ends, of "''r-2''" "''files.write''" 9] row
  have "fst (claim_request (cm_connector_id demo_cm) (cm_client_id demo_cm) (cm_idempotency_key demo_cm) ''r-2''
        ''files.write'' (cm_request_digest demo_cm) 9 (hb_store h')) = Replay (JObj [(''code'', JStr ''device_timeout'')])"
    by (auto simp: result_left_def)
  with ends show ?thesis by blast
qed

end
