(* ===== verification/Onboarding.thy ===== *)
theory Onboarding
  imports Handshake
begin

text \<open>
  The whole way of a device that follows the protocol: the operator issues a token, the relay
  offers a challenge, the device enrols, is offered a second challenge, authenticates, and is the
  instance a command for it is routed to. The operations are those of \<open>Service\<close>; the soundness
  theorems of \<open>Handshake\<close> say who is refused, this one that an honest device is not.
\<close>

section \<open>Each operation succeeds\<close>

abbreviation event_unused :: "string \<Rightarrow> store \<Rightarrow> bool" where
  "event_unused ev st \<equiv> tbl_get au_event_id ev (audit st) = None"

lemma append_audit_succeeds:
  assumes "event_unused ev st"
  obtains st' where "append_audit ev a rc pr c rq d t st = (Inr ev, st')" and "devices st' = devices st"
    and "instances st' = instances st" and "tokens st' = tokens st" and "challenges st' = challenges st"
    and "\<forall>ev'. event_unused ev' st' \<longleftrightarrow> event_unused ev' st \<and> ev' \<noteq> ev"
  using assms by (auto simp: append_audit_def split: option.splits)

text \<open>The row of an issued token.\<close>

abbreviation issued_row :: "(bytes \<Rightarrow> string) \<Rightarrow> string \<Rightarrow> string \<Rightarrow> string \<Rightarrow> string \<Rightarrow> int \<Rightarrow> datetime \<Rightarrow> token_row" where
  "issued_row sha raw c profile label n t \<equiv>
     \<lparr>tk_token_hash = hash_opaque sha raw, tk_connector_id = c, tk_capability_profile = profile,
      tk_display_label = label, tk_expires_at = as_timestamp (t + seconds n), tk_consumed_at = None,
      tk_created_at = as_timestamp t\<rparr>"

lemma issue_token_succeeds:
  assumes "tbl_get tk_token_hash (hash_opaque sha raw) (tokens st) = None" and "event_unused ev st"
  obtains st' where "issue_token sha raw ev c profile label n t t' st = (Inr (raw, n), st')"
    and "devices st' = devices st" and "instances st' = instances st" and "challenges st' = challenges st"
    and "tbl_get tk_token_hash (hash_opaque sha raw) (tokens st') = Some (issued_row sha raw c profile label n t)"
    and "tbl_ok tk_token_hash (tokens st) \<longrightarrow> tbl_ok tk_token_hash (tokens st')"
    and "\<forall>ev'. event_unused ev' st' \<longleftrightarrow> event_unused ev' st \<and> ev' \<noteq> ev"
proof -
  let ?st1 = "st\<lparr>tokens := tbl_insert (issued_row sha raw c profile label n t) (tokens st)\<rparr>"
  have "event_unused ev ?st1" using assms(2) by simp
  then obtain st' where au: "append_audit ev ''operator.enrollment_token_issued'' ''ok'' None (Some c) None
      [(''capability_profile'', JStr profile), (''expires_in_seconds'', JInt n)] t' ?st1 = (Inr ev, st')"
    and st': "devices st' = devices ?st1" "instances st' = instances ?st1" "tokens st' = tokens ?st1"
      "challenges st' = challenges ?st1" "\<forall>ev'. event_unused ev' st' \<longleftrightarrow> event_unused ev' ?st1 \<and> ev' \<noteq> ev"
    by (rule append_audit_succeeds) blast
  have "issue_token sha raw ev c profile label n t t' st = (Inr (raw, n), st')"
    using assms(1) au by (simp add: issue_token_def issue_enrollment_token_def bindA_apply Let_def)
  then show thesis using st' assms(1) by (intro that [of st']) simp_all
qed

lemma issue_challenge_succeeds:
  assumes "tbl_get ch_challenge_id i (challenges st) = None"
  obtains frame st' where "issue_relay_challenge sha i ch t st = (Inr frame, st')"
    and "devices st' = devices st" and "instances st' = instances st" and "tokens st' = tokens st" and "audit st' = audit st"
    and "\<forall>now. as_timestamp now < as_timestamp (t + seconds 120) \<longrightarrow> usable_challenge sha i ch now st'"
    and "\<forall>i'. tbl_get ch_challenge_id i' (challenges st') = None \<longleftrightarrow> tbl_get ch_challenge_id i' (challenges st) = None \<and> i' \<noteq> i"
  using assms by (auto simp: issue_relay_challenge_def create_challenge_def Let_def bindA_apply usable_challenge_def
      split: option.splits)

lemma challenge_keys_kept:
  "tbl_get ch_challenge_id i' (challenges (snd (consume_challenge sha i ch now st))) = None \<longleftrightarrow>
   tbl_get ch_challenge_id i' (challenges st) = None"
  by (auto simp: consume_challenge_def Let_def challenge_upd.get_update split: option.split)

lemma register_device_succeeds:
  assumes "get_device c st = None" and "capabilities_for_profile (tk_capability_profile tok) = Inr caps"
    and "parse_public_key (JStr key) = Inr pk" and "event_unused ev st"
  obtains r st' where "register_device sha ev now c key pf tok st = (Inr r, st')"
    and "get_device c st' = Some (enrolled_row c key tok caps pf (as_timestamp now))"
    and "instances st' = instances st" and "challenges st' = challenges st"
    and "\<forall>ev'. event_unused ev' st' \<longleftrightarrow> event_unused ev' st \<and> ev' \<noteq> ev"
proof -
  let ?st1 = "st\<lparr>devices := tbl_insert (enrolled_row c key tok caps pf (as_timestamp now)) (devices st)\<rparr>"
  have "event_unused ev ?st1" using assms(4) by simp
  then obtain st' where au: "append_audit ev ''device.enrolled'' ''ok'' None (Some c) None
      [(''capability_profile'', JStr (tk_capability_profile tok)), (''public_key_fingerprint'', JStr (take 16 (sha pk)))]
      now ?st1 = (Inr ev, st')"
    and st': "devices st' = devices ?st1" "instances st' = instances ?st1" "tokens st' = tokens ?st1"
      "challenges st' = challenges ?st1" "\<forall>ev'. event_unused ev' st' \<longleftrightarrow> event_unused ev' ?st1 \<and> ev' \<noteq> ev"
    by (rule append_audit_succeeds) blast
  have "get_device c st' = Some (enrolled_row c key tok caps pf (as_timestamp now))"
    using assms(1) st'(1) by (simp add: get_device_def enrolled_row_def)
  moreover have "register_device sha ev now c key pf tok st
      = (Inr \<lparr>er_connector_id = c, er_capability_profile = tk_capability_profile tok, er_capabilities = caps\<rparr>, st')"
    using assms au by (simp add: register_device_eq Let_def public_key_fingerprint_def)
  ultimately show thesis using st' by (intro that) simp_all
qed


lemma complete_enrollment_succeeds:
  assumes ok: "tbl_ok tk_token_hash (tokens st)" and ids: "parse_connector_id (JStr c) = Inr c" "validate_platform (JStr pf) = Inr pf'"
    and tok: "usable_token sha token c now tok st" and ch: "usable_challenge sha i ch now st"
    and payload: "enrollment_payload i ch c token key = Inr payload" and sig: "verify_ed25519 edv key payload sig = Inr ()"
    and reg: "get_device c st = None" "capabilities_for_profile (tk_capability_profile tok) = Inr caps"
      "parse_public_key (JStr key) = Inr pk" "event_unused ev st"
  obtains r st' where "complete_enrollment sha edv ev now i ch c token key sig pf st = (Inr r, st')"
    and "get_device c st' = Some (enrolled_row c key tok caps pf' (as_timestamp now))" and "instances st' = instances st"
    and "\<forall>i'. tbl_get ch_challenge_id i' (challenges st') = None \<longleftrightarrow> tbl_get ch_challenge_id i' (challenges st) = None"
    and "\<forall>ev'. event_unused ev' st' \<longleftrightarrow> event_unused ev' st \<and> ev' \<noteq> ev"
proof -
  let ?tk = "consume_enrollment_token_detailed sha token c now st" and ?sp = "spent_store sha token c i ch now st"
  have acc: "fst ?tk = (''accepted'', Some tok)"
    using tok ok by (auto simp: usable_token_def consume_token_cases)
  have "usable_challenge sha i ch now (snd ?tk)"
    using ch usable_challenge_cong [of "snd ?tk" st] by (simp add: challenges_unchanged)
  then have run: "complete_enrollment sha edv ev now i ch c token key sig pf st = register_device sha ev now c key pf' tok ?sp"
    using ids acc payload sig
    by (simp add: complete_enrollment_def split_beta spent_store_def token_error_def consume_challenge_iff)
  have "get_device c ?sp = None" and unused: "\<And>e. event_unused e ?sp = event_unused e st"
    using reg(1) by (simp_all add: get_device_def spent_store_devices spent_store_tables)
  from register_device_succeeds [OF this(1) reg(2,3), of ev sha now pf'] reg(4) obtain r st' where
    go: "register_device sha ev now c key pf' tok ?sp = (Inr r, st')"
      "get_device c st' = Some (enrolled_row c key tok caps pf' (as_timestamp now))"
      "instances st' = instances ?sp" "challenges st' = challenges ?sp"
      "\<forall>ev'. event_unused ev' st' \<longleftrightarrow> event_unused ev' ?sp \<and> ev' \<noteq> ev"
    unfolding unused by blast
  have "\<forall>i'. tbl_get ch_challenge_id i' (challenges st') = None \<longleftrightarrow> tbl_get ch_challenge_id i' (challenges st) = None"
    unfolding go(4) by (simp add: spent_store_def challenge_keys_kept challenges_unchanged)
  then show thesis
    using go(2-3,5) by (intro that [of r st']) (simp_all add: run go(1) spent_store_tables)
qed

lemma authenticate_relay_succeeds:
  assumes ids: "parse_connector_id (JStr c) = Inr c" "parse_instance_id (JStr n) = Inr n"
    and ch: "usable_challenge sha i ch now st"
    and dev: "get_device c st = Some d" "dv_enrollment_state d = Enrolled" "capabilities_for_profile (dv_capability_profile d) = Inr caps"
    and payload: "relay_auth_payload i ch c n e = Inr payload" and sig: "verify_ed25519 edv (dv_public_key d) payload sig = Inr ()"
    and epoch: "0 \<le> e" "fits_sqlite e" and ev: "event_unused ev st"
  obtains r st' where "authenticate_relay sha edv ev now i ch c n e sig g [] st = (Inr r, st')"
    and "instances st' = (if tbl_get in_instance_id n (instances st) = None
         then tbl_insert (presence_row c n g e (as_timestamp now)) (instances st)
         else tbl_update (\<lambda>r. in_instance_id r = n) (set_presence c g e (as_timestamp now)) (instances st))"
proof -
  let ?st1 = "snd (consume_challenge sha i ch now st)"
  let ?up = "upsert_presence c n g e [] now ?st1"
  have same: "get_device c ?st1 = Some d" using dev(1) by (simp add: get_device_def devices_unchanged)
  then have up: "fst ?up = Inr True" using dev epoch by (auto simp: upsert_presence_accepted)
  have "event_unused ev (snd ?up)" using ev by (simp add: audit_unchanged)
  then obtain st' where au: "append_audit ev ''device.online'' ''ok'' None (Some c) None [(''instance_id'', JStr n)] now
      (snd ?up) = (Inr ev, st')" "instances st' = instances (snd ?up)"
    by (rule append_audit_succeeds)
  have "authenticate_relay sha edv ev now i ch c n e sig g [] st
      = (Inr \<lparr>ri_connector_id = c, ri_instance_id = n, ri_context_epoch = e, ri_connection_generation = g, ri_capabilities = []\<rparr>, st')"
    using ids ch same dev(2) payload sig up au(1)
    by (simp add: authenticate_relay_def consume_challenge_iff bindA_apply [of "upsert_presence _ _ _ _ _ _"]
        bindA_apply [of "append_audit _ _ _ _ _ _ _ _"])
  moreover have "instances st' = (if tbl_get in_instance_id n (instances st) = None
      then tbl_insert (presence_row c n g e (as_timestamp now)) (instances st)
      else tbl_update (\<lambda>r. in_instance_id r = n) (set_presence c g e (as_timestamp now)) (instances st))"
    unfolding au(2) upsert_presence_writes [OF up] by (simp add: instances_unchanged cong: if_cong)
  ultimately show thesis by (rule that)
qed

text \<open>An instance row that is the only one of its connector is the one a command is routed to.\<close>

lemma only_instance_routed:
  assumes "row \<in> set (instances st)" and "is_live c (as_timestamp t) row"
    and "\<And>r. r \<in> set (instances st) \<Longrightarrow> in_connector_id r = c \<Longrightarrow> r = row"
  shows "fst (latest_online_instance c t st) = Some row"
proof -
  have "row \<in> set (instances (snd (mark_stale_instances t st)))" using live_after_sweep assms(1,2) by blast
  then have "fst (latest_online_instance c t st) \<noteq> None"
    using assms(2) by (auto simp: fst_latest filter_empty_conv)
  then obtain r where r: "fst (latest_online_instance c t st) = Some r" by blast
  from latest_live [OF this] assms(3) have "r = row" by (auto simp: is_live_def)
  with r show ?thesis by simp
qed


section \<open>The journey\<close>

text \<open>
  What the parties choose: the operator the token, the relay the two challenges, the device its
  key, instance and signatures, and the times and uuids of the calls.
\<close>

record journey =
  jo_connector :: string
  jo_profile :: string
  jo_label :: string
  jo_token :: string
  jo_key :: string
  jo_platform :: string
  jo_instance :: string
  jo_epoch :: int
  jo_generation :: string
  jo_challenges :: "(string \<times> string) \<times> (string \<times> string)"
  jo_signatures :: "string \<times> string"
  jo_events :: "string \<times> string \<times> string"
  jo_issued :: datetime
  jo_offered :: "datetime \<times> datetime"
  jo_enrolled :: datetime
  jo_online :: datetime

text \<open>The calls in their order, and the session a command at \<open>now\<close> is routed to.\<close>

definition enrol_device ::
    "(bytes \<Rightarrow> string) \<Rightarrow> (bytes \<Rightarrow> bytes \<Rightarrow> bytes \<Rightarrow> bool) \<Rightarrow> journey \<Rightarrow> enrollment_reply act" where
  "enrol_device sha edv j =
     (let ((i, ch), _) = jo_challenges j; (ev1, ev2, _) = jo_events j; c = jo_connector j
      in bindA (issue_token sha (jo_token j) ev1 c (jo_profile j) (jo_label j) 600 (jo_issued j) (jo_issued j)) (\<lambda>_.
         bindA (issue_relay_challenge sha i ch (fst (jo_offered j))) (\<lambda>_.
         complete_enrollment sha edv ev2 (jo_enrolled j) i ch c (jo_token j) (jo_key j) (fst (jo_signatures j))
           (jo_platform j))))"

definition connect_device ::
    "(bytes \<Rightarrow> string) \<Rightarrow> (bytes \<Rightarrow> bytes \<Rightarrow> bytes \<Rightarrow> bool) \<Rightarrow> int \<Rightarrow> datetime \<Rightarrow> journey \<Rightarrow> instance_row option act" where
  "connect_device sha edv stale_seconds now j =
     (let (_, (i, ch)) = jo_challenges j; (_, _, ev) = jo_events j; c = jo_connector j
      in bindA (issue_relay_challenge sha i ch (snd (jo_offered j))) (\<lambda>_.
         bindA (authenticate_relay sha edv ev (jo_online j) i ch c (jo_instance j) (jo_epoch j) (snd (jo_signatures j))
           (jo_generation j) []) (\<lambda>_.
         relay_session stale_seconds now c None)))"

definition come_online ::
    "(bytes \<Rightarrow> string) \<Rightarrow> (bytes \<Rightarrow> bytes \<Rightarrow> bytes \<Rightarrow> bool) \<Rightarrow> int \<Rightarrow> datetime \<Rightarrow> journey \<Rightarrow> instance_row option act" where
  "come_online sha edv stale_seconds now j =
     bindA (enrol_device sha edv j) (\<lambda>_. connect_device sha edv stale_seconds now j)"

text \<open>
  The device follows the protocol: its fields are well formed, it signs the two texts, and it is
  in time; what is drawn at random is unused.
\<close>

definition well_formed :: "journey \<Rightarrow> bool" where
  "well_formed j \<longleftrightarrow>
     parse_connector_id (JStr (jo_connector j)) = Inr (jo_connector j)
     \<and> parse_instance_id (JStr (jo_instance j)) = Inr (jo_instance j)
     \<and> \<not> isl (validate_platform (JStr (jo_platform j))) \<and> \<not> isl (capabilities_for_profile (jo_profile j))
     \<and> \<not> isl (parse_public_key (JStr (jo_key j))) \<and> 0 \<le> jo_epoch j \<and> fits_sqlite (jo_epoch j)"

definition signs :: "(bytes \<Rightarrow> bytes \<Rightarrow> bytes \<Rightarrow> bool) \<Rightarrow> journey \<Rightarrow> bool" where
  "signs edv j \<longleftrightarrow>
     (case enrollment_payload (fst (fst (jo_challenges j))) (snd (fst (jo_challenges j))) (jo_connector j) (jo_token j) (jo_key j) of
        Inl _ \<Rightarrow> False | Inr p \<Rightarrow> verify_ed25519 edv (jo_key j) p (fst (jo_signatures j)) = Inr ())
     \<and> (case relay_auth_payload (fst (snd (jo_challenges j))) (snd (snd (jo_challenges j))) (jo_connector j) (jo_instance j) (jo_epoch j) of
        Inl _ \<Rightarrow> False | Inr p \<Rightarrow> verify_ed25519 edv (jo_key j) p (snd (jo_signatures j)) = Inr ())"

definition in_time :: "int \<Rightarrow> datetime \<Rightarrow> journey \<Rightarrow> bool" where
  "in_time stale_seconds now j \<longleftrightarrow>
     as_timestamp (jo_enrolled j) < as_timestamp (jo_issued j + seconds 600)
     \<and> as_timestamp (jo_enrolled j) < as_timestamp (fst (jo_offered j) + seconds 120)
     \<and> as_timestamp (jo_online j) < as_timestamp (snd (jo_offered j) + seconds 120)
     \<and> as_timestamp (fresh_after stale_seconds now) < as_timestamp (jo_online j)"

definition unused :: "(bytes \<Rightarrow> string) \<Rightarrow> journey \<Rightarrow> store \<Rightarrow> bool" where
  "unused sha j st \<longleftrightarrow>
     get_device (jo_connector j) st = None \<and> tbl_get tk_token_hash (hash_opaque sha (jo_token j)) (tokens st) = None
     \<and> (case jo_challenges j of ((i1, _), (i2, _)) \<Rightarrow>
          i1 \<noteq> i2 \<and> tbl_get ch_challenge_id i1 (challenges st) = None \<and> tbl_get ch_challenge_id i2 (challenges st) = None)
     \<and> (case jo_events j of (ev1, ev2, ev3) \<Rightarrow>
          distinct [ev1, ev2, ev3] \<and> list_all (\<lambda>ev. event_unused ev st) [ev1, ev2, ev3])"


text \<open>What the first half leaves for the second.\<close>

definition enrolled_as :: "journey \<Rightarrow> store \<Rightarrow> bool" where
  "enrolled_as j st \<longleftrightarrow>
     (\<exists>d. get_device (jo_connector j) st = Some d \<and> dv_enrollment_state d = Enrolled \<and> dv_public_key d = jo_key j
        \<and> dv_capability_profile d = jo_profile j)
     \<and> tbl_get ch_challenge_id (fst (snd (jo_challenges j))) (challenges st) = None
     \<and> event_unused (snd (snd (jo_events j))) st"

lemma enrol_device_succeeds:
  assumes ok: "tbl_ok tk_token_hash (tokens st)" and wf: "well_formed j" and signs: "signs edv j"
    and time: "in_time stale now j" and unused: "unused sha j st"
  obtains r st' where "enrol_device sha edv j st = (Inr r, st')" and "enrolled_as j st'" and "instances st' = instances st"
proof -
  let ?c = "jo_connector j" and ?raw = "jo_token j"
  let ?row = "issued_row sha ?raw ?c (jo_profile j) (jo_label j) 600 (jo_issued j)"
  obtain i1 ch1 i2 ch2 ev1 ev2 ev3 where ch: "jo_challenges j = ((i1, ch1), (i2, ch2))" and ev: "jo_events j = (ev1, ev2, ev3)"
    by (metis prod.exhaust)
  from wf obtain pf caps pk where c: "parse_connector_id (JStr ?c) = Inr ?c"
    and pf: "validate_platform (JStr (jo_platform j)) = Inr pf" and caps: "capabilities_for_profile (jo_profile j) = Inr caps"
    and pk: "parse_public_key (JStr (jo_key j)) = Inr pk"
    unfolding well_formed_def isl_def by (metis sumE)
  from signs ch obtain p where p: "enrollment_payload i1 ch1 ?c ?raw (jo_key j) = Inr p"
    "verify_ed25519 edv (jo_key j) p (fst (jo_signatures j)) = Inr ()"
    by (auto simp: signs_def split: sum.splits)
  note free = unused [unfolded unused_def ch ev, simplified]
  obtain st1 where st1: "issue_token sha ?raw ev1 ?c (jo_profile j) (jo_label j) 600 (jo_issued j) (jo_issued j) st = (Inr (?raw, 600), st1)"
    "devices st1 = devices st" "instances st1 = instances st" "challenges st1 = challenges st"
    "tbl_get tk_token_hash (hash_opaque sha ?raw) (tokens st1) = Some ?row"
    "tbl_ok tk_token_hash (tokens st) \<longrightarrow> tbl_ok tk_token_hash (tokens st1)"
    "\<forall>ev'. event_unused ev' st1 \<longleftrightarrow> event_unused ev' st \<and> ev' \<noteq> ev1"
    by (rule issue_token_succeeds [of sha ?raw st ev1]) (use free in blast)+
  have "tbl_get ch_challenge_id i1 (challenges st1) = None" using free st1(4) by simp
  then obtain f2 st2 where st2: "issue_relay_challenge sha i1 ch1 (fst (jo_offered j)) st1 = (Inr f2, st2)"
    "devices st2 = devices st1" "instances st2 = instances st1" "tokens st2 = tokens st1" "audit st2 = audit st1"
    "\<forall>now. as_timestamp now < as_timestamp (fst (jo_offered j) + seconds 120) \<longrightarrow> usable_challenge sha i1 ch1 now st2"
    "\<forall>i'. tbl_get ch_challenge_id i' (challenges st2) = None \<longleftrightarrow> tbl_get ch_challenge_id i' (challenges st1) = None \<and> i' \<noteq> i1"
    by (rule issue_challenge_succeeds) blast
  have tok: "usable_token sha ?raw ?c (jo_enrolled j) ?row st2" and usable: "usable_challenge sha i1 ch1 (jo_enrolled j) st2"
    using st1(5) st2(4,6) time by (simp_all add: usable_token_def in_time_def)
  have ok: "tbl_ok tk_token_hash (tokens st2)" and new: "get_device ?c st2 = None" and ev2: "event_unused ev2 st2"
    using ok free st1(2,6,7) st2(2,4,5) by (auto simp: get_device_def)
  obtain r st' where st': "complete_enrollment sha edv ev2 (jo_enrolled j) i1 ch1 ?c ?raw (jo_key j) (fst (jo_signatures j)) (jo_platform j) st2 = (Inr r, st')"
    "get_device ?c st' = Some (enrolled_row ?c (jo_key j) ?row caps pf (as_timestamp (jo_enrolled j)))" "instances st' = instances st2"
    "\<forall>i'. tbl_get ch_challenge_id i' (challenges st') = None \<longleftrightarrow> tbl_get ch_challenge_id i' (challenges st2) = None"
    "\<forall>ev'. event_unused ev' st' \<longleftrightarrow> event_unused ev' st2 \<and> ev' \<noteq> ev2"
    by (rule complete_enrollment_succeeds [OF ok c pf tok usable p new _ pk ev2]) (use caps in simp, blast)
  have "enrolled_as j st'"
    using st'(2,4,5) free st1(4,7) st2(5,7) by (auto simp: enrolled_as_def ch ev enrolled_row_def)
  moreover have "enrol_device sha edv j st = (Inr r, st')"
    using st1(1) st2(1) st'(1) by (simp add: enrol_device_def ch ev bindA_apply Let_def)
  ultimately show thesis using st'(3) st2(3) st1(3) by (intro that [of r st']) simp_all
qed

lemma connect_device_succeeds:
  assumes keys: "tbl_ok in_instance_id (instances st)" and none: "jo_connector j \<notin> in_connector_id ` set (instances st)"
    and wf: "well_formed j" and signs: "signs edv j" and time: "in_time stale now j" and enrolled: "enrolled_as j st"
  shows "fst (connect_device sha edv stale now j st)
     = Inr (Some (presence_row (jo_connector j) (jo_instance j) (jo_generation j) (jo_epoch j) (as_timestamp (jo_online j))))"
proof -
  let ?c = "jo_connector j" and ?n = "jo_instance j" and ?t = "as_timestamp (jo_online j)"
  let ?row = "presence_row ?c ?n (jo_generation j) (jo_epoch j) ?t"
  obtain i1 ch1 i2 ch2 ev1 ev2 ev3 where ch: "jo_challenges j = ((i1, ch1), (i2, ch2))" and ev: "jo_events j = (ev1, ev2, ev3)"
    by (metis prod.exhaust)
  from wf obtain caps where c: "parse_connector_id (JStr ?c) = Inr ?c" and n: "parse_instance_id (JStr ?n) = Inr ?n"
    and caps: "capabilities_for_profile (jo_profile j) = Inr caps" and epoch: "0 \<le> jo_epoch j" "fits_sqlite (jo_epoch j)"
    unfolding well_formed_def isl_def by (metis sumE)
  from signs ch obtain p where p: "relay_auth_payload i2 ch2 ?c ?n (jo_epoch j) = Inr p"
    "verify_ed25519 edv (jo_key j) p (snd (jo_signatures j)) = Inr ()"
    by (auto simp: signs_def split: sum.splits)
  from enrolled obtain d where d: "get_device ?c st = Some d" "dv_enrollment_state d = Enrolled" "dv_public_key d = jo_key j"
    "dv_capability_profile d = jo_profile j" and "tbl_get ch_challenge_id i2 (challenges st) = None" and ev3: "event_unused ev3 st"
    by (auto simp: enrolled_as_def ch ev)
  from this(5) obtain f st1 where st1: "issue_relay_challenge sha i2 ch2 (snd (jo_offered j)) st = (Inr f, st1)"
    "devices st1 = devices st" "instances st1 = instances st" "audit st1 = audit st"
    "\<forall>now. as_timestamp now < as_timestamp (snd (jo_offered j) + seconds 120) \<longrightarrow> usable_challenge sha i2 ch2 now st1"
    by (rule issue_challenge_succeeds) blast
  have usable: "usable_challenge sha i2 ch2 (jo_online j) st1" using st1(5) time by (simp add: in_time_def)
  have dev: "get_device ?c st1 = Some d" and ev3': "event_unused ev3 st1" using d(1) ev3 st1(2,4) by (simp_all add: get_device_def)
  obtain r st2 where st2: "authenticate_relay sha edv ev3 (jo_online j) i2 ch2 ?c ?n (jo_epoch j) (snd (jo_signatures j)) (jo_generation j) [] st1 = (Inr r, st2)"
    "instances st2 = (if tbl_get in_instance_id ?n (instances st1) = None then tbl_insert ?row (instances st1)
       else tbl_update (\<lambda>r. in_instance_id r = ?n) (set_presence ?c (jo_generation j) (jo_epoch j) ?t) (instances st1))"
    by (rule authenticate_relay_succeeds [OF c n usable dev d(2) _ p(1) _ epoch ev3']) (use caps d p(2) in simp_all)
  have rows: "r \<in> set (instances st2) \<Longrightarrow> in_connector_id r = ?c \<Longrightarrow> r = ?row" for r
    using none unfolding st2(2) st1(3)
    by (auto simp: set_tbl_update presence_row_def set_presence_def image_iff split: if_splits)
  have "?row \<in> set (instances st2)"
  proof (cases "tbl_get in_instance_id ?n (instances st)")
    case None
    then show ?thesis unfolding st2(2) st1(3) by simp
  next
    case (Some old)
    then have "old \<in> set (instances st)" "in_instance_id old = ?n" by (auto dest: tbl_get_SomeD)
    moreover from this have "?row = set_presence ?c (jo_generation j) (jo_epoch j) ?t old"
      by (simp add: presence_row_def set_presence_def)
    ultimately show ?thesis unfolding st2(2) st1(3) using Some by (auto simp: set_tbl_update image_iff)
  qed
  moreover have "is_live ?c (as_timestamp (fresh_after stale now)) ?row"
    using time by (simp add: is_live_def presence_row_def in_time_def)
  ultimately have "fst (latest_online_instance ?c (fresh_after stale now) st2) = Some ?row"
    using rows by (rule only_instance_routed) simp_all
  then show ?thesis
    using st1(1) st2(1) by (simp add: connect_device_def ch ev bindA_apply relay_session_def Let_def)
qed

text \<open>
  C10. A device that follows the protocol comes online: whatever the store holds, with an unused
  connector id the issue of the token, the enrolment and the authentication all succeed, in this
  order and with the challenges in between, and the next command for the device is routed to
  exactly the session it has just opened.
\<close>

theorem honest_device_comes_online:
  assumes inv: "store_inv st" and wf: "well_formed j" and signs: "signs edv j" and time: "in_time stale now j"
    and unused: "unused sha j st"
  shows "fst (come_online sha edv stale now j st)
     = Inr (Some (presence_row (jo_connector j) (jo_instance j) (jo_generation j) (jo_epoch j) (as_timestamp (jo_online j))))"
proof -
  have tok: "tbl_ok tk_token_hash (tokens st)" and inst: "tbl_ok in_instance_id (instances st)"
    using inv by (simp_all add: store_inv_def keys_ok_def)
  have "get_device (jo_connector j) st = None" using unused by (simp add: unused_def)
  then have none: "jo_connector j \<notin> in_connector_id ` set (instances st)"
    using inv by (auto simp: store_inv_def instance_ok_def get_device_def)
  obtain r st' where enrol: "enrol_device sha edv j st = (Inr r, st')" "enrolled_as j st'" "instances st' = instances st"
    using enrol_device_succeeds [OF tok wf signs time unused] by blast
  then show ?thesis
    using connect_device_succeeds [OF _ _ wf signs time, of st'] inst none by (simp add: come_online_def bindA_apply)
qed


definition demo_journey :: journey where
  "demo_journey = \<lparr>jo_connector = ''dev-2'', jo_profile = ''read_only'', jo_label = ''Desk'', jo_token = ''tok'',
     jo_key = demo_key, jo_platform = ''linux'', jo_instance = ''i-1'', jo_epoch = 0, jo_generation = ''gen-1'',
     jo_challenges = ((demo_uuid, ''ch-1''), (''11234567-89ab-cdef-0123-456789abcdef'', ''ch-2'')),
     jo_signatures = (demo_sig, demo_sig), jo_events = (''ev-1'', ''ev-2'', ''ev-3''), jo_issued = seconds 100,
     jo_offered = (seconds 110, seconds 120), jo_enrolled = seconds 115, jo_online = seconds 125\<rparr>"

lemma demo_verified: "verify_ed25519 (\<lambda>_ _ _. True) demo_key payload demo_sig = Inr ()"
proof -
  have "\<not> isl (parse_public_key (JStr demo_key))" "\<not> isl (parse_signature (JStr demo_sig))" by code_simp+
  then show ?thesis
    by (cases "parse_public_key (JStr demo_key)"; cases "parse_signature (JStr demo_sig)") (simp_all add: verify_ed25519_def)
qed

lemma demo_signs: "signs (\<lambda>_ _ _. True) demo_journey"
proof -
  have "\<not> isl (enrollment_payload demo_uuid ''ch-1'' ''dev-2'' ''tok'' demo_key)"
    "\<not> isl (relay_auth_payload ''11234567-89ab-cdef-0123-456789abcdef'' ''ch-2'' ''dev-2'' ''i-1'' 0)" by code_simp+
  then show ?thesis
    by (auto simp: signs_def demo_journey_def demo_verified split: sum.split)
qed

theorem honest_device_comes_online_witness:
  "fst (come_online demo_sha (\<lambda>_ _ _. True) 75 (seconds 130) demo_journey empty_store)
     = Inr (Some (presence_row ''dev-2'' ''i-1'' ''gen-1'' 0 125))"
proof -
  have "well_formed demo_journey" "in_time 75 (seconds 130) demo_journey" "unused demo_sha demo_journey empty_store"
    by code_simp+
  from honest_device_comes_online [OF store_inv_empty this(1) demo_signs this(2,3)]
  show ?thesis by (simp add: demo_journey_def as_timestamp_def seconds_def)
qed

end
