(* ===== verification/AppAssertion.thy ===== *)
theory AppAssertion
  imports Protocol
begin

text \<open>
  \<open>remote_agent_connector/app_assertion.py\<close>: the device-side verifier of keysets and of
  per-request app assertions. The clock is an argument of every call, the reading already
  truncated by \<open>int(self.clock())\<close>; \<open>edv\<close> is Ed25519 verification and
  \<open>loads\<close> the JSON reader. The ordered dictionary \<open>_seen\<close> is the list of its items.
\<close>

section \<open>State\<close>

definition KEYSET_SCHEMA_VERSION :: string where
  "KEYSET_SCHEMA_VERSION = ''business-mcp-remote-agent-app-keyset-v1''"

definition KEYSET_MAX_LIFETIME_SECONDS :: int where
  "KEYSET_MAX_LIFETIME_SECONDS = 24 * 60 * 60"

definition DEFAULT_CLOCK_SKEW_SECONDS :: int where
  "DEFAULT_CLOCK_SKEW_SECONDS = 5"

definition USABLE_KEY_STATUSES :: "string list" where
  "USABLE_KEY_STATUSES = [''active'', ''retiring'']"

definition unverified :: exn where
  "unverified = AppAssertionError ''app_assertion_unverified''"

definition identity_mismatch :: exn where
  "identity_mismatch = AppAssertionError ''app_identity_mismatch''"

record trust_anchor =
  root_key_id :: string
  root_public_key :: string

text \<open>An assertion id is kept as the JSON value it is: a UUID text, or a number printed as one.\<close>

record verifier =
  vf_anchor :: trust_anchor
  vf_connector_id :: string
  vf_clock_skew :: int
  vf_seen_limit :: nat
  vf_seen :: "(json \<times> int) list"

record verified_app_assertion =
  va_app_id :: json
  va_client_id :: json
  va_connector_id :: json
  va_scopes :: json
  va_key_id :: json
  va_request_id :: json
  va_assertion_id :: json
  va_expires_at :: int

text \<open>\<open>TrustAnchor(root_key_id, root_public_key)\<close> and \<open>AppAssertionVerifier(anchor=...)\<close>.\<close>

definition make_anchor :: "string \<Rightarrow> string \<Rightarrow> trust_anchor res" where
  "make_anchor kid pk =
     bindR (requireR (py_strip kid \<noteq> []) ValueError) (\<lambda>_.
     bindR (parse_public_key (JStr pk)) (\<lambda>_.
     Inr \<lparr>root_key_id = kid, root_public_key = pk\<rparr>))"

definition make_verifier :: "trust_anchor \<Rightarrow> string \<Rightarrow> int \<Rightarrow> int \<Rightarrow> verifier" where
  "make_verifier anchor connector_id clock_skew_seconds seen_limit =
     \<lparr>vf_anchor = anchor, vf_connector_id = connector_id, vf_clock_skew = max 0 clock_skew_seconds,
      vf_seen_limit = nat (max 1 seen_limit), vf_seen = []\<rparr>"

section \<open>Keysets\<close>

text \<open>Key and signature errors, and a signature that does not verify, are one error.\<close>

definition verify_signature ::
    "(bytes \<Rightarrow> bytes \<Rightarrow> bytes \<Rightarrow> bool) \<Rightarrow> json \<Rightarrow> bytes \<Rightarrow> json \<Rightarrow> unit res" where
  "verify_signature edv public_key_b64 payload signature_b64 =
     (case (parse_public_key public_key_b64, parse_signature signature_b64) of
        (Inr pk, Inr sig) \<Rightarrow> if edv pk payload sig then Inr () else Inl unverified
      | _ \<Rightarrow> Inl unverified)"

definition without_signature :: "fields \<Rightarrow> fields" where
  "without_signature d = filter (\<lambda>(k, v). k \<noteq> ''signature'') d"

text \<open>\<open>isinstance(value, int)\<close>: a truth value is an integer.\<close>

definition as_int :: "json \<Rightarrow> int option" where
  "as_int v = (case v of JInt i \<Rightarrow> Some i | JBool b \<Rightarrow> Some (if b then 1 else 0) | _ \<Rightarrow> None)"

definition keyset_times_ok :: "int \<Rightarrow> int \<Rightarrow> json \<Rightarrow> json \<Rightarrow> bool" where
  "keyset_times_ok skew current issued expires = (case (as_int issued, as_int expires) of
       (Some i, Some e) \<Rightarrow>
         i < e \<and> e - i \<le> KEYSET_MAX_LIFETIME_SECONDS \<and> i - skew \<le> current
     | _ \<Rightarrow> False)"

definition KEYSET_ITEM_FIELDS :: "string list" where
  "KEYSET_ITEM_FIELDS = [''key_id'', ''public_key'', ''not_before'', ''not_after'', ''status'']"

primrec add_keys :: "json list \<Rightarrow> (string \<times> fields) list \<Rightarrow> (string \<times> fields) list res" where
  "add_keys [] ks = Inr ks"
| "add_keys (item # items) ks = (case item of
      JObj d \<Rightarrow>
        bindR (requireR (keys d = set KEYSET_ITEM_FIELDS) unverified) (\<lambda>_.
        bindR (requireR (py_str (fld d ''key_id'') \<notin> fst ` set ks) unverified) (\<lambda>_.
        bindR (parse_public_key (fld d ''public_key'')) (\<lambda>_.
        add_keys items (ks @ [(py_str (fld d ''key_id''), d)]))))
    | _ \<Rightarrow> Inl unverified)"

definition verify_keyset ::
    "(bytes \<Rightarrow> bytes \<Rightarrow> bytes \<Rightarrow> bool) \<Rightarrow> int \<Rightarrow> verifier \<Rightarrow> json \<Rightarrow> (string \<times> fields) list res" where
  "verify_keyset edv current vf keyset = (case keyset of
       JObj d \<Rightarrow>
         bindR (requireR (fld d ''schema_version'' = JStr KEYSET_SCHEMA_VERSION) unverified) (\<lambda>_.
         bindR (requireR (fld d ''root_key_id'' = JStr (root_key_id (vf_anchor vf))) unverified) (\<lambda>_.
         let unsigned = without_signature d in
         bindR (verify_signature edv (JStr (root_public_key (vf_anchor vf))) (canonical_json_bytes unsigned)
                  (JStr (or_empty (fld d ''signature'')))) (\<lambda>_.
         bindR (requireR (keyset_times_ok (vf_clock_skew vf) current (fld unsigned ''issued_at'')
                            (fld unsigned ''expires_at'')) unverified) (\<lambda>_.
         case fld unsigned ''keys'' of
           JList raw \<Rightarrow> if raw = [] then Inl unverified else add_keys raw []
         | _ \<Rightarrow> Inl unverified))))
     | _ \<Rightarrow> Inl unverified)"

definition NEXT_ROOT_FIELDS :: "string list" where
  "NEXT_ROOT_FIELDS = [''key_id'', ''public_key'', ''not_before'', ''not_after'']"

text \<open>\<open>later\<close> is the second reading of the clock.\<close>

definition pending_root ::
    "(bytes \<Rightarrow> bytes \<Rightarrow> bytes \<Rightarrow> bool) \<Rightarrow> int \<Rightarrow> int \<Rightarrow> verifier \<Rightarrow> json \<Rightarrow> fields option res" where
  "pending_root edv current later vf keyset =
     bindR (verify_keyset edv current vf keyset) (\<lambda>_.
     case (case keyset of JObj d \<Rightarrow> fld d ''next_root'' | _ \<Rightarrow> JNull) of
       JNull \<Rightarrow> Inr None
     | JObj c \<Rightarrow>
         bindR (requireR (keys c = set NEXT_ROOT_FIELDS) unverified) (\<lambda>_.
         bindR (parse_public_key (fld c ''public_key'')) (\<lambda>_.
         bindR (requireR (case (as_int (fld c ''not_before''), as_int (fld c ''not_after'')) of
                            (Some b, Some a) \<Rightarrow> b < a \<and> later < a
                          | _ \<Rightarrow> False) unverified) (\<lambda>_.
         Inr (Some c))))
     | _ \<Rightarrow> Inl unverified)"

section \<open>Replay\<close>

text \<open>
  \<open>_reject_replay\<close>: drop what has expired, refuse a known id, remember the new one and drop
  the oldest entries over the limit.
\<close>

definition reject_replay :: "int \<Rightarrow> json \<Rightarrow> int \<Rightarrow> verifier \<Rightarrow> unit res \<times> verifier" where
  "reject_replay current assertion_id expires_at vf =
     (let live = filter (\<lambda>(i, e). current < e) (vf_seen vf)
      in if assertion_id \<in> fst ` set live
         then (Inl (AppAssertionError ''app_assertion_replayed''), vf\<lparr>vf_seen := live\<rparr>)
         else (let seen = live @ [(assertion_id, expires_at)]
               in (Inr (), vf\<lparr>vf_seen := drop (length seen - vf_seen_limit vf) seen\<rparr>)))"

section \<open>Assertions\<close>

text \<open>
  The values of a published key are not typed by \<open>verify_keyset\<close>: looking a list up in a set,
  or comparing a text with a number, raises \<open>TypeError\<close>.
\<close>

definition item_get :: "fields \<Rightarrow> string \<Rightarrow> json res" where
  "item_get d k = (case map_of d k of Some v \<Rightarrow> Inr v | None \<Rightarrow> Inl KeyError)"

definition status_usable :: "json \<Rightarrow> bool res" where
  "status_usable v = (case v of
       JStr s \<Rightarrow> Inr (s \<in> set USABLE_KEY_STATUSES)
     | JList _ \<Rightarrow> Inl TypeError
     | JObj _ \<Rightarrow> Inl TypeError
     | _ \<Rightarrow> Inr False)"

definition number :: "json \<Rightarrow> rat res" where
  "number v = (case num_value v of Some q \<Rightarrow> Inr q | None \<Rightarrow> Inl TypeError)"

definition key_usable :: "int \<Rightarrow> int \<Rightarrow> fields \<Rightarrow> bool res" where
  "key_usable skew current key =
     bindR (bindR (item_get key ''status'') status_usable) (\<lambda>usable.
     if \<not> usable then Inr False else
     bindR (bindR (item_get key ''not_before'') number) (\<lambda>not_before.
     if of_int current < not_before - of_int skew then Inr False else
     bindR (bindR (item_get key ''not_after'') number) (\<lambda>not_after.
     Inr (of_int current < not_after))))"

text \<open>The parser's own errors come out under their text, as an \<open>AppAssertionError\<close>.\<close>

definition parsed_assertion :: "(bytes \<Rightarrow> json option) \<Rightarrow> json \<Rightarrow> fields res" where
  "parsed_assertion loads assertion = (case parse_app_assertion loads assertion of
       Inl (ProtocolError m) \<Rightarrow> Inl (AppAssertionError m)
     | r \<Rightarrow> r)"

text \<open>Everything \<open>verify\<close> checks before it looks at the ids it has seen.\<close>

definition check_assertion ::
    "(bytes \<Rightarrow> bytes \<Rightarrow> bytes \<Rightarrow> bool) \<Rightarrow> int \<Rightarrow> int \<Rightarrow> string \<Rightarrow> (string \<times> fields) list \<Rightarrow> string
     \<Rightarrow> string \<Rightarrow> string \<Rightarrow> string list \<Rightarrow> fields \<Rightarrow> int res" where
  "check_assertion edv current skew connector_id keyset request_id client_id app_id scopes parsed =
     (case (as_int (fld parsed ''issued_at''), as_int (fld parsed ''expires_at'')) of
        (Some issued_at, Some expires_at) \<Rightarrow>
          bindR (requireR (current < expires_at) (AppAssertionError ''app_assertion_expired'')) (\<lambda>_.
          bindR (requireR (issued_at \<le> current + skew) unverified) (\<lambda>_.
          bindR (requireR (expires_at - issued_at \<le> APP_ASSERTION_MAX_TTL_SECONDS) unverified) (\<lambda>_.
          case map_of keyset (py_str (fld parsed ''key_id'')) of
            None \<Rightarrow> Inl unverified
          | Some key \<Rightarrow>
              bindR (key_usable skew current key) (\<lambda>usable.
              bindR (requireR usable unverified) (\<lambda>_.
              bindR (item_get key ''public_key'') (\<lambda>pk.
              bindR (verify_signature edv pk (canonical_json_bytes (without_signature parsed))
                       (fld parsed ''signature'')) (\<lambda>_.
              bindR (requireR (fld parsed ''schema_version'' = JStr APP_ASSERTION_SCHEMA_VERSION
                       \<and> fld parsed ''issuer'' = JStr APP_ASSERTION_ISSUER
                       \<and> fld parsed ''audience'' = JStr APP_ASSERTION_AUDIENCE) unverified) (\<lambda>_.
              bindR (requireR (fld parsed ''connector_id'' = JStr connector_id) identity_mismatch) (\<lambda>_.
              bindR (requireR (fld parsed ''client_id'' = JStr client_id
                       \<and> fld parsed ''app_id'' = JStr app_id) identity_mismatch) (\<lambda>_.
              bindR (requireR (fld parsed ''scopes'' = JList (map JStr (sort scopes))) identity_mismatch) (\<lambda>_.
              bindR (requireR (fld parsed ''request_id'' = JStr request_id) identity_mismatch) (\<lambda>_.
              Inr expires_at))))))))))))
      | _ \<Rightarrow> Inl TypeError)"

definition verified_of :: "fields \<Rightarrow> int \<Rightarrow> verified_app_assertion" where
  "verified_of parsed expires_at =
     \<lparr>va_app_id = fld parsed ''app_id'', va_client_id = fld parsed ''client_id'',
      va_connector_id = fld parsed ''connector_id'', va_scopes = fld parsed ''scopes'',
      va_key_id = fld parsed ''key_id'', va_request_id = fld parsed ''request_id'',
      va_assertion_id = fld parsed ''assertion_id'', va_expires_at = expires_at\<rparr>"

text \<open>One call of \<open>verify\<close>; \<open>later\<close> is the reading of the clock in \<open>_reject_replay\<close>.\<close>

record verify_call =
  vc_assertion :: json
  vc_keys :: "(string \<times> fields) list"
  vc_request_id :: string
  vc_client_id :: string
  vc_app_id :: string
  vc_scopes :: "string list"
  vc_current :: int
  vc_later :: int

definition verify ::
    "(bytes \<Rightarrow> bytes \<Rightarrow> bytes \<Rightarrow> bool) \<Rightarrow> (bytes \<Rightarrow> json option) \<Rightarrow> verify_call \<Rightarrow> verifier
     \<Rightarrow> verified_app_assertion res \<times> verifier" where
  "verify edv loads c vf =
     (case parsed_assertion loads (vc_assertion c) of
        Inl e \<Rightarrow> (Inl e, vf)
      | Inr parsed \<Rightarrow>
          (case check_assertion edv (vc_current c) (vf_clock_skew vf) (vf_connector_id vf) (vc_keys c)
                  (vc_request_id c) (vc_client_id c) (vc_app_id c) (vc_scopes c) parsed of
             Inl e \<Rightarrow> (Inl e, vf)
           | Inr expires_at \<Rightarrow>
               (case reject_replay (vc_later c) (fld parsed ''assertion_id'') expires_at vf of
                  (Inl e, vf') \<Rightarrow> (Inl e, vf')
                | (Inr _, vf') \<Rightarrow> (Inr (verified_of parsed expires_at), vf'))))"

section \<open>What a published keyset is trusted for\<close>

text \<open>A signature check that passes is Ed25519 on the decoded key and signature.\<close>

definition signed_by :: "(bytes \<Rightarrow> bytes \<Rightarrow> bytes \<Rightarrow> bool) \<Rightarrow> json \<Rightarrow> bytes \<Rightarrow> json \<Rightarrow> bool" where
  "signed_by edv public_key payload signature \<longleftrightarrow>
     (\<exists>pk sig. parse_public_key public_key = Inr pk \<and> parse_signature signature = Inr sig
        \<and> edv pk payload sig)"

lemma verify_signature_iff [simp]:
  "verify_signature edv pk payload sig = Inr u \<longleftrightarrow> signed_by edv pk payload sig"
  by (auto simp: verify_signature_def signed_by_def split: sum.split)

definition keyset_item_ok :: "string \<times> fields \<Rightarrow> bool" where
  "keyset_item_ok kd \<longleftrightarrow> keys (snd kd) = set KEYSET_ITEM_FIELDS
     \<and> fst kd = py_str (fld (snd kd) ''key_id'')
     \<and> \<not> isl (parse_public_key (fld (snd kd) ''public_key''))"

lemma add_keys_Inr:
  assumes "add_keys items ks = Inr ks'"
  shows "\<exists>new. ks' = ks @ new \<and> map (JObj \<circ> snd) new = items \<and> list_all keyset_item_ok new
    \<and> (distinct (map fst ks) \<longrightarrow> distinct (map fst ks'))"
  using assms
proof (induction items arbitrary: ks)
  case Nil
  then show ?case by simp
next
  case (Cons item items)
  from Cons.prems obtain d pk where d: "item = JObj d" "keys d = set KEYSET_ITEM_FIELDS"
    "py_str (fld d ''key_id'') \<notin> fst ` set ks" "parse_public_key (fld d ''public_key'') = Inr pk"
    and rest: "add_keys items (ks @ [(py_str (fld d ''key_id''), d)]) = Inr ks'"
    by (cases item) auto
  from Cons.IH [OF rest] obtain new where
    new: "ks' = (ks @ [(py_str (fld d ''key_id''), d)]) @ new" "map (JObj \<circ> snd) new = items"
    "list_all keyset_item_ok new"
    "distinct (map fst (ks @ [(py_str (fld d ''key_id''), d)])) \<longrightarrow> distinct (map fst ks')"
    by blast
  have "keyset_item_ok (py_str (fld d ''key_id''), d)" using d by (simp add: keyset_item_ok_def)
  with new d show ?case
    by (intro exI [of _ "(py_str (fld d ''key_id''), d) # new"]) auto
qed

text \<open>What \<open>verify_keyset\<close> establishes about the envelope, whatever the time.\<close>

definition root_signed :: "(bytes \<Rightarrow> bytes \<Rightarrow> bytes \<Rightarrow> bool) \<Rightarrow> trust_anchor \<Rightarrow> fields \<Rightarrow> bool" where
  "root_signed edv anchor d \<longleftrightarrow>
     fld d ''schema_version'' = JStr KEYSET_SCHEMA_VERSION
     \<and> fld d ''root_key_id'' = JStr (root_key_id anchor)
     \<and> signed_by edv (JStr (root_public_key anchor)) (canonical_json_bytes (without_signature d))
         (JStr (or_empty (fld d ''signature'')))"

lemma verify_keyset_elim:
  assumes "verify_keyset edv current vf keyset = Inr ks"
  obtains d raw where "keyset = JObj d" "root_signed edv (vf_anchor vf) d"
    "keyset_times_ok (vf_clock_skew vf) current (fld (without_signature d) ''issued_at'')
       (fld (without_signature d) ''expires_at'')"
    "fld (without_signature d) ''keys'' = JList raw" "raw \<noteq> []" "add_keys raw [] = Inr ks"
  using assms unfolding verify_keyset_def root_signed_def
  by (auto simp: Let_def split: json.splits if_splits)

lemma keyset_times_ok_iff:
  "keyset_times_ok skew current issued expires \<longleftrightarrow>
     (\<exists>i e. as_int issued = Some i \<and> as_int expires = Some e \<and> i < e
        \<and> e - i \<le> KEYSET_MAX_LIFETIME_SECONDS \<and> i - skew \<le> current)"
  by (auto simp: keyset_times_ok_def split: option.splits)

text \<open>
  The keys a device trusts come from one envelope that the pinned root signed, under the
  pinned root id, with a lifetime of at most a day and not issued in the future. They are exactly
  the listed items: each has the five fields and a well-formed public key, and no two have the
  same id.
\<close>

theorem verify_keyset_sound:
  assumes "verify_keyset edv current vf keyset = Inr ks"
  shows "\<exists>d i e. keyset = JObj d \<and> root_signed edv (vf_anchor vf) d
    \<and> as_int (fld (without_signature d) ''issued_at'') = Some i
    \<and> as_int (fld (without_signature d) ''expires_at'') = Some e
    \<and> i < e \<and> e - i \<le> KEYSET_MAX_LIFETIME_SECONDS \<and> i - vf_clock_skew vf \<le> current
    \<and> fld (without_signature d) ''keys'' = JList (map (JObj \<circ> snd) ks) \<and> ks \<noteq> []
    \<and> list_all keyset_item_ok ks \<and> distinct (map fst ks)"
proof -
  from assms obtain d raw where d: "keyset = JObj d" "root_signed edv (vf_anchor vf) d"
    "keyset_times_ok (vf_clock_skew vf) current (fld (without_signature d) ''issued_at'')
       (fld (without_signature d) ''expires_at'')"
    "fld (without_signature d) ''keys'' = JList raw" "raw \<noteq> []" "add_keys raw [] = Inr ks"
    by (rule verify_keyset_elim)
  from add_keys_Inr [OF d(6)]
  have ks: "map (JObj \<circ> snd) ks = raw" "list_all keyset_item_ok ks" "distinct (map fst ks)" by auto
  with d(1-5) show ?thesis unfolding keyset_times_ok_iff by auto
qed

text \<open>
  The time only guards the start of the lifetime: a keyset accepted once is accepted at every
  later time, so its \<open>expires_at\<close> never retires it.
\<close>

lemma keyset_never_expires:
  assumes "verify_keyset edv current vf keyset = Inr ks" and "current \<le> current'"
  shows "verify_keyset edv current' vf keyset = Inr ks"
proof -
  have "keyset_times_ok s current i e \<Longrightarrow> keyset_times_ok s current' i e" for s i e
    using assms(2) by (auto simp: keyset_times_ok_iff)
  with assms(1) show ?thesis
    unfolding verify_keyset_def Let_def by (auto split: json.splits)
qed

text \<open>
  A replacement root is only ever reported from an envelope the pinned root signed, has
  exactly the four fields, a well-formed public key and a window that has not closed.
\<close>

theorem pending_root_sound:
  assumes "pending_root edv current later vf keyset = Inr (Some c)"
  shows "\<exists>d b a. keyset = JObj d \<and> root_signed edv (vf_anchor vf) d \<and> fld d ''next_root'' = JObj c
    \<and> keys c = set NEXT_ROOT_FIELDS \<and> \<not> isl (parse_public_key (fld c ''public_key''))
    \<and> as_int (fld c ''not_before'') = Some b \<and> as_int (fld c ''not_after'') = Some a \<and> b < a \<and> later < a"
proof -
  from assms obtain ks where ks: "verify_keyset edv current vf keyset = Inr ks"
    by (auto simp: pending_root_def)
  then obtain d where d: "keyset = JObj d" "root_signed edv (vf_anchor vf) d" by (rule verify_keyset_elim)
  with assms ks show ?thesis
    unfolding pending_root_def by (auto split: json.splits option.splits)
qed

section \<open>What an accepted assertion is\<close>

lemma key_usable_True:
  "key_usable skew current key = Inr True \<longleftrightarrow>
     (\<exists>s b a. map_of key ''status'' = Some (JStr s) \<and> s \<in> set USABLE_KEY_STATUSES
        \<and> Option.bind (map_of key ''not_before'') num_value = Some b
        \<and> Option.bind (map_of key ''not_after'') num_value = Some a
        \<and> b - of_int skew \<le> of_int current \<and> of_int current < a)"
  by (auto simp: key_usable_def item_get_def status_usable_def number_def not_less
      split: option.splits json.splits if_splits)

text \<open>An assertion's binding to this device and to the request it came with.\<close>

definition bound_to :: "verify_call \<Rightarrow> string \<Rightarrow> fields \<Rightarrow> bool" where
  "bound_to c connector_id a \<longleftrightarrow>
     fld a ''connector_id'' = JStr connector_id \<and> fld a ''client_id'' = JStr (vc_client_id c)
     \<and> fld a ''app_id'' = JStr (vc_app_id c) \<and> fld a ''scopes'' = JList (map JStr (sort (vc_scopes c)))
     \<and> fld a ''request_id'' = JStr (vc_request_id c)"

lemma check_assertion_Inr:
  assumes "check_assertion edv current skew conn ks rid cid app scopes a = Inr e"
  shows "\<exists>i key pk. as_int (fld a ''issued_at'') = Some i \<and> as_int (fld a ''expires_at'') = Some e
    \<and> current < e \<and> i \<le> current + skew \<and> e - i \<le> APP_ASSERTION_MAX_TTL_SECONDS
    \<and> map_of ks (py_str (fld a ''key_id'')) = Some key \<and> key_usable skew current key = Inr True
    \<and> map_of key ''public_key'' = Some pk
    \<and> signed_by edv pk (canonical_json_bytes (without_signature a)) (fld a ''signature'')"
    and "fld a ''connector_id'' = JStr conn" and "fld a ''client_id'' = JStr cid"
    and "fld a ''app_id'' = JStr app" and "fld a ''scopes'' = JList (map JStr (sort scopes))"
    and "fld a ''request_id'' = JStr rid"
proof -
  from assms obtain i where i: "as_int (fld a ''issued_at'') = Some i" and e: "as_int (fld a ''expires_at'') = Some e"
    unfolding check_assertion_def by (auto split: option.splits)
  from assms i e obtain key where key: "map_of ks (py_str (fld a ''key_id'')) = Some key"
    unfolding check_assertion_def by (auto split: option.splits)
  show "\<exists>i key pk. as_int (fld a ''issued_at'') = Some i \<and> as_int (fld a ''expires_at'') = Some e
    \<and> current < e \<and> i \<le> current + skew \<and> e - i \<le> APP_ASSERTION_MAX_TTL_SECONDS
    \<and> map_of ks (py_str (fld a ''key_id'')) = Some key \<and> key_usable skew current key = Inr True
    \<and> map_of key ''public_key'' = Some pk
    \<and> signed_by edv pk (canonical_json_bytes (without_signature a)) (fld a ''signature'')"
    using assms i e key unfolding check_assertion_def
    by (auto simp: item_get_def split: option.splits)
  show "fld a ''connector_id'' = JStr conn" "fld a ''client_id'' = JStr cid" "fld a ''app_id'' = JStr app"
    "fld a ''scopes'' = JList (map JStr (sort scopes))" "fld a ''request_id'' = JStr rid"
    using assms i e key unfolding check_assertion_def by auto
qed

lemma reject_replay_accepts:
  "fst (reject_replay now i e vf) = Inr u \<longleftrightarrow> (\<forall>x. (i, x) \<in> set (vf_seen vf) \<longrightarrow> x \<le> now)"
proof -
  have "i \<in> fst ` set (filter (\<lambda>(i, e). now < e) (vf_seen vf)) \<longleftrightarrow> (\<exists>x. (i, x) \<in> set (vf_seen vf) \<and> now < x)"
    by force
  then show ?thesis by (auto simp: reject_replay_def Let_def not_less)
qed

lemma parsed_assertion_Inr [simp]:
  "parsed_assertion loads a = Inr d \<longleftrightarrow> parse_app_assertion loads a = Inr d"
  by (auto simp: parsed_assertion_def split: sum.splits exn.splits)

text \<open>An accepted call, taken apart: the parse, the checks, and an id not seen before.\<close>

lemma verify_accepted:
  assumes "fst (verify edv loads c vf) = Inr r"
  obtains a e where "parse_app_assertion loads (vc_assertion c) = Inr a"
    "check_assertion edv (vc_current c) (vf_clock_skew vf) (vf_connector_id vf) (vc_keys c)
       (vc_request_id c) (vc_client_id c) (vc_app_id c) (vc_scopes c) a = Inr e"
    "r = verified_of a e" "fst (reject_replay (vc_later c) (fld a ''assertion_id'') e vf) = Inr ()"
    "snd (verify edv loads c vf) = snd (reject_replay (vc_later c) (fld a ''assertion_id'') e vf)"
  using assms unfolding verify_def by (auto split: sum.splits prod.splits)

text \<open>
  C23. An accepted assertion parses, is within its lifetime of at most five minutes, was signed
  over all its other members by a trusted key that is active or retiring and inside its window,
  names this device and the very client, application, scopes and request it was checked for,
  and its id is not among those seen and still alive.
\<close>

theorem verify_sound:
  assumes "fst (verify edv loads c vf) = Inr r"
  shows "\<exists>a i e key pk. parse_app_assertion loads (vc_assertion c) = Inr a \<and> r = verified_of a e
    \<and> bound_to c (vf_connector_id vf) a
    \<and> as_int (fld a ''issued_at'') = Some i \<and> as_int (fld a ''expires_at'') = Some e
    \<and> vc_current c < e \<and> i \<le> vc_current c + vf_clock_skew vf \<and> e - i \<le> 300
    \<and> map_of (vc_keys c) (py_str (fld a ''key_id'')) = Some key
    \<and> key_usable (vf_clock_skew vf) (vc_current c) key = Inr True \<and> map_of key ''public_key'' = Some pk
    \<and> signed_by edv pk (canonical_json_bytes (without_signature a)) (fld a ''signature'')
    \<and> (\<forall>x. (fld a ''assertion_id'', x) \<in> set (vf_seen vf) \<longrightarrow> x \<le> vc_later c)"
proof -
  from assms obtain a e where a: "parse_app_assertion loads (vc_assertion c) = Inr a" "r = verified_of a e"
    and chk: "check_assertion edv (vc_current c) (vf_clock_skew vf) (vf_connector_id vf) (vc_keys c)
       (vc_request_id c) (vc_client_id c) (vc_app_id c) (vc_scopes c) a = Inr e"
    and fresh: "fst (reject_replay (vc_later c) (fld a ''assertion_id'') e vf) = Inr ()"
    by (rule verify_accepted)
  have "\<forall>x. (fld a ''assertion_id'', x) \<in> set (vf_seen vf) \<longrightarrow> x \<le> vc_later c"
    using fresh by (simp add: reject_replay_accepts)
  moreover have "bound_to c (vf_connector_id vf) a"
    using check_assertion_Inr(2-6) [OF chk] by (simp add: bound_to_def)
  ultimately show ?thesis
    using check_assertion_Inr(1) [OF chk] a unfolding APP_ASSERTION_MAX_TTL_SECONDS_def by blast
qed

section \<open>Replay over a run of verifications\<close>

definition verify_step ::
    "(bytes \<Rightarrow> bytes \<Rightarrow> bytes \<Rightarrow> bool) \<Rightarrow> (bytes \<Rightarrow> json option) \<Rightarrow> verify_call \<Rightarrow> verifier \<Rightarrow> verifier" where
  "verify_step edv loads c vf = snd (verify edv loads c vf)"

definition accepts ::
    "(bytes \<Rightarrow> bytes \<Rightarrow> bytes \<Rightarrow> bool) \<Rightarrow> (bytes \<Rightarrow> json option) \<Rightarrow> verify_call \<Rightarrow> verifier \<Rightarrow> bool" where
  "accepts edv loads c vf = (\<not> isl (fst (verify edv loads c vf)))"

text \<open>What a call does to the remembered ids: nothing, a purge, or a purge and one entry.\<close>

definition live_seen :: "int \<Rightarrow> verifier \<Rightarrow> (json \<times> int) list" where
  "live_seen now vf = filter (\<lambda>(i, e). now < e) (vf_seen vf)"

lemma verify_step_cases:
  obtains (kept) "\<not> accepts edv loads c vf" "verify_step edv loads c vf = vf"
  | (purged) "\<not> accepts edv loads c vf"
      "verify_step edv loads c vf = vf\<lparr>vf_seen := live_seen (vc_later c) vf\<rparr>"
  | (added) i e where "accepts edv loads c vf" "i \<notin> fst ` set (live_seen (vc_later c) vf)"
      "verify_step edv loads c vf = vf\<lparr>vf_seen :=
         drop (Suc (length (live_seen (vc_later c) vf)) - vf_seen_limit vf) (live_seen (vc_later c) vf @ [(i, e)])\<rparr>"
proof -
  consider (refused) "\<not> accepts edv loads c vf" "verify_step edv loads c vf = vf"
    | (reached) i e where
      "verify_step edv loads c vf = snd (reject_replay (vc_later c) i e vf)"
      "accepts edv loads c vf \<longleftrightarrow> \<not> isl (fst (reject_replay (vc_later c) i e vf))"
  proof (cases "parsed_assertion loads (vc_assertion c)")
    case (Inl x)
    then show thesis using refused
      by (simp add: accepts_def verify_step_def verify_def del: parsed_assertion_Inr)
  next
    case (Inr a)
    show thesis
    proof (cases "check_assertion edv (vc_current c) (vf_clock_skew vf) (vf_connector_id vf) (vc_keys c)
        (vc_request_id c) (vc_client_id c) (vc_app_id c) (vc_scopes c) a")
      case (Inl x)
      with Inr show thesis using refused
      by (simp add: accepts_def verify_step_def verify_def del: parsed_assertion_Inr)
    next
      case checked: (Inr e)
      with Inr show thesis using reached [of "fld a ''assertion_id''" e]
        by (simp add: accepts_def verify_step_def verify_def del: parsed_assertion_Inr split: prod.splits sum.splits)
    qed
  qed
  then show thesis
  proof cases
    case refused
    then show thesis by (rule kept)
  next
    case (reached i e)
    then show thesis
      using purged added [of i e]
      by (cases "i \<in> fst ` set (live_seen (vc_later c) vf)")
         (simp_all add: reject_replay_def Let_def live_seen_def)
  qed
qed

lemma seen_limit_kept [simp]: "vf_seen_limit (verify_step edv loads c vf) = vf_seen_limit vf"
  by (cases rule: verify_step_cases [of edv loads c vf]) simp_all

text \<open>The table of seen ids: no id twice, never more entries than its limit.\<close>

definition seen_ok :: "verifier \<Rightarrow> bool" where
  "seen_ok vf \<longleftrightarrow> distinct (map fst (vf_seen vf)) \<and> length (vf_seen vf) \<le> vf_seen_limit vf"

lemma seen_ok_live:
  "seen_ok vf \<Longrightarrow> distinct (map fst (live_seen now vf)) \<and> length (live_seen now vf) \<le> vf_seen_limit vf"
  by (auto simp: seen_ok_def live_seen_def distinct_map_filter intro: le_trans [OF length_filter_le])

interpretation seen: invariant_machine "verify_step edv loads" "\<lambda>_. True" seen_ok
proof
  fix c vf assume "seen_ok vf"
  from seen_ok_live [OF this] have live: "distinct (map fst (live_seen now vf))"
    "length (live_seen now vf) \<le> vf_seen_limit vf" for now by auto
  show "seen_ok (verify_step edv loads c vf)"
  proof (cases rule: verify_step_cases [of edv loads c vf])
    case kept
    with \<open>seen_ok vf\<close> show ?thesis by simp
  next
    case purged
    with live show ?thesis by (simp add: seen_ok_def)
  next
    case (added i e)
    then have "distinct (map fst (live_seen (vc_later c) vf @ [(i, e)]))" using live by simp
    then have "distinct (map fst (drop n (live_seen (vc_later c) vf @ [(i, e)])))" for n
      by (metis distinct_drop drop_map)
    with added show ?thesis by (simp add: seen_ok_def del: drop_append)
  qed
qed

text \<open>
  C25. A verifier never remembers more ids than its limit, and never one id twice, however many
  assertions it has seen.
\<close>

theorem seen_table_bounded:
  "length (vf_seen (run_steps (verify_step edv loads) cs (make_verifier anchor conn skew limit)))
       \<le> nat (max 1 limit)
   \<and> distinct (map fst (vf_seen (run_steps (verify_step edv loads) cs (make_verifier anchor conn skew limit))))"
proof -
  let ?v = "make_verifier anchor conn skew limit"
  have limit: "vf_seen_limit (run_steps (verify_step edv loads) cs v) = vf_seen_limit v" for v
    by (induction cs arbitrary: v) simp_all
  have "seen_ok ?v" by (simp add: seen_ok_def make_verifier_def)
  then have "seen_ok (run_steps (verify_step edv loads) cs ?v)" by (rule seen.run_inv [rotated]) simp
  then show ?thesis by (simp add: seen_ok_def limit) (simp add: make_verifier_def)
qed

text \<open>An accepted id is somewhere in the table with at most \<open>n\<close> entries after it.\<close>

definition recent :: "json \<Rightarrow> int \<Rightarrow> nat \<Rightarrow> verifier \<Rightarrow> bool" where
  "recent i e n vf \<longleftrightarrow> (\<exists>xs ys. vf_seen vf = xs @ (i, e) # ys \<and> length ys \<le> n)"

lemma recent_step:
  assumes "recent i e n vf" and "vc_later c < e" and "n + (if accepts edv loads c vf then 1 else 0) < vf_seen_limit vf"
  shows "recent i e (n + (if accepts edv loads c vf then 1 else 0)) (verify_step edv loads c vf)"
proof -
  from assms(1) obtain xs ys where xy: "vf_seen vf = xs @ (i, e) # ys" "length ys \<le> n"
    by (auto simp: recent_def)
  define p where "p = (\<lambda>(i::json, e). vc_later c < e)"
  have live: "live_seen (vc_later c) vf = filter p xs @ (i, e) # filter p ys"
    using xy(1) assms(2) by (simp add: live_seen_def p_def)
  have len: "length (filter p ys) \<le> n" using xy(2) by (rule order.trans [OF length_filter_le])
  show ?thesis
  proof (cases rule: verify_step_cases [of edv loads c vf])
    case kept
    with assms(1) show ?thesis by simp
  next
    case purged
    with live len show ?thesis by (auto simp: recent_def)
  next
    case (added j x)
    let ?k = "Suc (length (live_seen (vc_later c) vf)) - vf_seen_limit vf"
    have "?k \<le> length (filter p xs)" using added(1) assms(3) len by (simp add: live)
    then have "vf_seen (verify_step edv loads c vf)
        = drop ?k (filter p xs) @ (i, e) # (filter p ys @ [(j, x)])"
      using added(3) by (simp add: live)
    moreover have "length (filter p ys @ [(j, x)]) \<le> Suc n" using len by simp
    ultimately have "recent i e (Suc n) (verify_step edv loads c vf)" unfolding recent_def by blast
    with added(1) show ?thesis by simp
  qed
qed

lemma recent_run:
  assumes "recent i e n vf" and "\<forall>c \<in> set cs. vc_later c < e"
    and "n + count_steps (verify_step edv loads) (accepts edv loads) cs vf < vf_seen_limit vf"
  shows "\<exists>m. recent i e m (run_steps (verify_step edv loads) cs vf)"
  using assms
proof (induction cs arbitrary: n vf)
  case Nil
  then show ?case by auto
next
  case (Cons c cs)
  let ?n = "n + (if accepts edv loads c vf then 1 else 0)"
  have "recent i e ?n (verify_step edv loads c vf)"
    by (rule recent_step) (use Cons.prems in auto)
  then show ?case using Cons.IH [of ?n "verify_step edv loads c vf"] Cons.prems by simp
qed

text \<open>
  C24. Once an assertion is accepted, no assertion with the same id is accepted before it
  expires, whatever is verified in between, as long as fewer assertions than the table's limit
  are accepted meanwhile.
\<close>

theorem accepted_assertion_not_replayable:
  assumes "fst (verify edv loads c vf) = Inr r" and "0 < vf_seen_limit vf"
    and "\<forall>d \<in> set ds. vc_later d < va_expires_at r"
    and "count_steps (verify_step edv loads) (accepts edv loads) ds (verify_step edv loads c vf) < vf_seen_limit vf"
    and "vc_later c' < va_expires_at r" and "parse_app_assertion loads (vc_assertion c') = Inr a"
    and "fld a ''assertion_id'' = va_assertion_id r"
  shows "\<not> accepts edv loads c' (run_steps (verify_step edv loads) ds (verify_step edv loads c vf))"
proof
  let ?v = "verify_step edv loads c vf"
  let ?w = "run_steps (verify_step edv loads) ds ?v"
  from assms(1) obtain b e where b: "r = verified_of b e"
    "fst (reject_replay (vc_later c) (fld b ''assertion_id'') e vf) = Inr ()"
    "snd (verify edv loads c vf) = snd (reject_replay (vc_later c) (fld b ''assertion_id'') e vf)"
    by (rule verify_accepted)
  then have "recent (va_assertion_id r) (va_expires_at r) 0 ?v"
    using assms(2) by (auto simp: verify_step_def reject_replay_def Let_def recent_def verified_of_def split: if_splits)
  then have "\<exists>m. recent (va_assertion_id r) (va_expires_at r) m ?w"
    by (rule recent_run) (use assms(3,4) in simp_all)
  then have known: "(va_assertion_id r, va_expires_at r) \<in> set (vf_seen ?w)" by (auto simp: recent_def)
  assume "accepts edv loads c' ?w"
  then obtain r' where "fst (verify edv loads c' ?w) = Inr r'"
    unfolding accepts_def by (metis isl_def sum.exhaust)
  then obtain a' e' where "parse_app_assertion loads (vc_assertion c') = Inr a'"
    "fst (reject_replay (vc_later c') (fld a' ''assertion_id'') e' ?w) = Inr ()"
    by (rule verify_accepted)
  with assms(6,7) known have "va_expires_at r \<le> vc_later c'"
    by (auto simp: reject_replay_accepts)
  with assms(5) show False by simp
qed

text \<open>
  The limit is real: with the table full of ids that are all alive, accepting one more forgets
  the oldest, which is then accepted a second time although it has not expired.
\<close>

theorem full_table_forgets_a_live_id:
  assumes "vf_seen vf = (i, e) # rest" and "length (vf_seen vf) = vf_seen_limit vf" and "seen_ok vf"
    and "\<forall>(j, x) \<in> set (vf_seen vf). now < x" and "j \<notin> fst ` set (vf_seen vf)"
  shows "fst (reject_replay now i e vf) = Inl (AppAssertionError ''app_assertion_replayed'')
    \<and> fst (reject_replay now i e (snd (reject_replay now j x vf))) = Inr ()"
proof -
  have live: "filter (\<lambda>(i, e). now < e) (vf_seen vf) = vf_seen vf"
    using assms(4) by (auto simp: filter_id_conv)
  have "snd (reject_replay now j x vf) = vf\<lparr>vf_seen := rest @ [(j, x)]\<rparr>"
    unfolding reject_replay_def Let_def live using assms(1,2,5) by simp
  moreover have "(i, y) \<notin> set (rest @ [(j, x)])" for y
    using assms(1,3,5) by (auto simp: seen_ok_def image_iff)
  ultimately have "fst (reject_replay now i e (snd (reject_replay now j x vf))) = Inr ()"
    by (auto simp: reject_replay_accepts)
  moreover have "fst (reject_replay now i e vf) = Inl (AppAssertionError ''app_assertion_replayed'')"
    unfolding reject_replay_def Let_def live using assms(1) by simp
  ultimately show ?thesis by simp
qed

section \<open>The facts at concrete inputs\<close>

definition sample_key :: string where
  "sample_key = replicate 43 (CHR ''A'')"

definition sample_signature :: string where
  "sample_signature = replicate 86 (CHR ''A'')"

definition sample_verifier :: verifier where
  "sample_verifier = make_verifier \<lparr>root_key_id = ''root'', root_public_key = sample_key\<rparr> ''dev-1'' 5 2"

definition sample_item :: fields where
  "sample_item = [(''key_id'', JStr ''k1''), (''public_key'', JStr sample_key), (''not_before'', JInt 0),
     (''not_after'', JInt 500), (''status'', JStr ''active'')]"

definition sample_root :: fields where
  "sample_root = [(''key_id'', JStr ''r2''), (''public_key'', JStr sample_key), (''not_before'', JInt 0),
     (''not_after'', JInt 500)]"

definition sample_keyset :: json where
  "sample_keyset = JObj [(''schema_version'', JStr KEYSET_SCHEMA_VERSION), (''root_key_id'', JStr ''root''),
     (''issued_at'', JInt 0), (''expires_at'', JInt 100), (''keys'', JList [JObj sample_item]),
     (''next_root'', JObj sample_root), (''signature'', JStr sample_signature)]"

definition sample_assertion :: json where
  "sample_assertion = JObj [(''schema_version'', JStr APP_ASSERTION_SCHEMA_VERSION),
     (''issuer'', JStr APP_ASSERTION_ISSUER), (''audience'', JStr APP_ASSERTION_AUDIENCE),
     (''key_id'', JStr ''k1''), (''client_id'', JStr ''hub''), (''app_id'', JStr ''app''),
     (''connector_id'', JStr ''dev-1''), (''scopes'', JList [JStr ''agent:read'']),
     (''issued_at'', JInt 10), (''expires_at'', JInt 60), (''nonce'', JStr ''abcdefghijklmnopqrst''),
     (''request_id'', JStr ''12345678-1234-5678-1234-567812345678''),
     (''assertion_id'', JStr ''12345678-1234-5678-1234-567812345679''),
     (''signature'', JStr sample_signature)]"

definition sample_call :: verify_call where
  "sample_call = \<lparr>vc_assertion = sample_assertion, vc_keys = [(''k1'', sample_item)],
     vc_request_id = ''12345678-1234-5678-1234-567812345678'', vc_client_id = ''hub'', vc_app_id = ''app'',
     vc_scopes = [''agent:read''], vc_current = 20, vc_later = 20\<rparr>"

lemma sample_keyset_accepted: "\<not> isl (verify_keyset (\<lambda>_ _ _. True) 20 sample_verifier sample_keyset)"
  by code_simp

lemma sample_accepted: "accepts (\<lambda>_ _ _. True) (\<lambda>_. None) sample_call sample_verifier"
  by code_simp

theorem verify_keyset_sound_witness:
  "\<exists>ks. verify_keyset (\<lambda>_ _ _. True) 20 sample_verifier sample_keyset = Inr ks \<and> ks \<noteq> []
     \<and> distinct (map fst ks) \<and> list_all keyset_item_ok ks"
proof -
  from sample_keyset_accepted obtain ks where
    ks: "verify_keyset (\<lambda>_ _ _. True) 20 sample_verifier sample_keyset = Inr ks"
    by (metis isl_def sum.exhaust)
  from verify_keyset_sound [OF ks] ks show ?thesis by blast
qed

theorem pending_root_sound_witness:
  "pending_root (\<lambda>_ _ _. True) 20 20 sample_verifier sample_keyset = Inr (Some sample_root)
   \<and> keys sample_root = set NEXT_ROOT_FIELDS"
proof -
  from sample_keyset_accepted obtain ks where
    ks: "verify_keyset (\<lambda>_ _ _. True) 20 sample_verifier sample_keyset = Inr ks"
    by (metis isl_def sum.exhaust)
  have "\<not> isl (parse_public_key (JStr sample_key))" by code_simp
  then obtain pk where "parse_public_key (JStr sample_key) = Inr pk" by (metis isl_def sum.exhaust)
  moreover have "keys sample_root = set NEXT_ROOT_FIELDS"
    by (simp add: keys_def sample_root_def NEXT_ROOT_FIELDS_def)
  ultimately have "pending_root (\<lambda>_ _ _. True) 20 20 sample_verifier sample_keyset = Inr (Some sample_root)"
    unfolding pending_root_def ks by (simp add: sample_keyset_def fld_def sample_root_def as_int_def)
  with pending_root_sound [OF this] show ?thesis by blast
qed

theorem verify_sound_witness:
  "\<exists>r a. fst (verify (\<lambda>_ _ _. True) (\<lambda>_. None) sample_call sample_verifier) = Inr r
     \<and> parse_app_assertion (\<lambda>_. None) (vc_assertion sample_call) = Inr a \<and> bound_to sample_call ''dev-1'' a"
proof -
  from sample_accepted obtain r where
    r: "fst (verify (\<lambda>_ _ _. True) (\<lambda>_. None) sample_call sample_verifier) = Inr r"
    unfolding accepts_def by (metis isl_def sum.exhaust)
  have "vf_connector_id sample_verifier = ''dev-1''" by (simp add: sample_verifier_def make_verifier_def)
  with verify_sound [OF r] r show ?thesis by auto
qed

theorem accepted_assertion_not_replayable_witness:
  "accepts (\<lambda>_ _ _. True) (\<lambda>_. None) sample_call sample_verifier
   \<and> \<not> accepts (\<lambda>_ _ _. True) (\<lambda>_. None) sample_call
        (verify_step (\<lambda>_ _ _. True) (\<lambda>_. None) sample_call sample_verifier)"
proof -
  from sample_accepted obtain r where
    r: "fst (verify (\<lambda>_ _ _. True) (\<lambda>_. None) sample_call sample_verifier) = Inr r"
    unfolding accepts_def by (metis isl_def sum.exhaust)
  then obtain a e where a: "parse_app_assertion (\<lambda>_. None) (vc_assertion sample_call) = Inr a"
    and chk: "check_assertion (\<lambda>_ _ _. True) (vc_current sample_call) (vf_clock_skew sample_verifier)
       (vf_connector_id sample_verifier) (vc_keys sample_call) (vc_request_id sample_call)
       (vc_client_id sample_call) (vc_app_id sample_call) (vc_scopes sample_call) a = Inr e"
    and ve: "r = verified_of a e"
    by (rule verify_accepted)
  have "vc_later sample_call < va_expires_at r"
    using check_assertion_Inr(1) [OF chk] ve by (auto simp: sample_call_def verified_of_def)
  moreover have "fld a ''assertion_id'' = va_assertion_id r" by (simp add: ve verified_of_def)
  moreover have "0 < vf_seen_limit sample_verifier" by (simp add: sample_verifier_def make_verifier_def)
  ultimately show ?thesis
    using accepted_assertion_not_replayable [OF r, of "[]" sample_call a] a sample_accepted by simp
qed

theorem full_table_forgets_a_live_id_witness:
  "fst (reject_replay 20 (JStr ''a'') 50 (snd (reject_replay 20 (JStr ''b'') 60
     (sample_verifier\<lparr>vf_seen_limit := 1, vf_seen := [(JStr ''a'', 50)]\<rparr>)))) = Inr ()"
  using full_table_forgets_a_live_id
    [of "sample_verifier\<lparr>vf_seen_limit := 1, vf_seen := [(JStr ''a'', 50)]\<rparr>" "JStr ''a''" 50 "[]" 20 "JStr ''b''" 60]
  by (simp add: seen_ok_def)

end
