(* ===== verification/Tools.thy ===== *)
theory Tools
  imports Routing
begin

text \<open>
  The MCP side of \<open>remote_agent_connector/server.py\<close>: the bearer token of the Hub, the identity
  read off a request, the published tools, and how a tool call becomes a command. FastMCP checks
  the types of the arguments and fills in the defaults before a tool runs, so a tool is a
  function of typed arguments; an optional argument that is absent is \<open>None\<close>.
\<close>

section \<open>Bearer tokens\<close>

text \<open>\<open>hmac.compare_digest\<close> of two texts: it raises \<open>TypeError\<close> unless both are ASCII.\<close>

definition compare_digest :: "string \<Rightarrow> string \<Rightarrow> bool res" where
  "compare_digest a b =
     (if list_all (\<lambda>c. code c < 128) a \<and> list_all (\<lambda>c. code c < 128) b then Inr (a = b) else Inl TypeError)"

record access_token =
  at_client_id :: string
  at_scopes :: "string list"

definition verify_token :: "string \<Rightarrow> string option \<Rightarrow> access_token option res" where
  "verify_token expected token =
     bindR (compare_digest (case token of None \<Rightarrow> [] | Some s \<Rightarrow> s) expected) (\<lambda>equal.
     Inr (if equal then Some \<lparr>at_client_id = ''business-mcp-hub'', at_scopes = [''mcp'']\<rparr> else None))"

section \<open>The identity of a request\<close>

text \<open>What the server needs to check a delegation: its secret, its audience, the clock in seconds.\<close>

record delegation_check =
  dc_hmac :: "bytes \<Rightarrow> bytes \<Rightarrow> string"
  dc_loads :: "bytes \<Rightarrow> json option"
  dc_secret :: string
  dc_audience :: string
  dc_now :: int
  dc_require_assertion :: bool

definition MAX_DELEGATION_AGE_SECONDS :: int where
  "MAX_DELEGATION_AGE_SECONDS = 90"

definition identity_of_request :: "delegation_check \<Rightarrow> (string \<Rightarrow> string option) \<Rightarrow> delegated_identity res" where
  "identity_of_request dc headers =
     (case verify_delegation_headers (dc_hmac dc) (dc_loads dc) headers (dc_secret dc) (dc_audience dc) (dc_now dc)
             MAX_DELEGATION_AGE_SECONDS (dc_require_assertion dc) of
        Inl _ \<Rightarrow> Inl (ToolError ''delegation_invalid'')
      | Inr identity \<Rightarrow> Inr identity)"

text \<open>\<open>except AgentError as exc: raise ToolError(exc.code)\<close>.\<close>

definition tool_exn :: "exn \<Rightarrow> exn" where
  "tool_exn e = (case e of AgentError c \<Rightarrow> ToolError c | _ \<Rightarrow> e)"

definition tool_result :: "'a res \<times> hub \<Rightarrow> 'a res \<times> hub" where
  "tool_result p = (case p of (Inl e, h) \<Rightarrow> (Inl (tool_exn e), h) | (Inr x, h) \<Rightarrow> (Inr x, h))"

section \<open>The published tools\<close>

record tool_annotations =
  ta_read_only :: bool
  ta_destructive :: bool

definition READ_ONLY :: tool_annotations where "READ_ONLY = \<lparr>ta_read_only = True, ta_destructive = False\<rparr>"
definition WRITE :: tool_annotations where "WRITE = \<lparr>ta_read_only = False, ta_destructive = False\<rparr>"
definition CONTROL :: tool_annotations where "CONTROL = \<lparr>ta_read_only = False, ta_destructive = False\<rparr>"

text \<open>What a tool passes to \<open>call_agent\<close>, with its annotations.\<close>

record tool_request =
  tr_annotations :: tool_annotations
  tr_tool :: string
  tr_connector_id :: string
  tr_arguments :: fields
  tr_idempotency_key :: string
  tr_instance_id :: "string option"

definition make_request ::
    "tool_annotations \<Rightarrow> string \<Rightarrow> string \<Rightarrow> string \<Rightarrow> string option \<Rightarrow> fields \<Rightarrow> tool_request" where
  "make_request annotations tool connector_id idempotency_key instance_id arguments =
     \<lparr>tr_annotations = annotations, tr_tool = tool, tr_connector_id = connector_id, tr_arguments = arguments,
      tr_idempotency_key = idempotency_key, tr_instance_id = instance_id\<rparr>"

definition opt_text :: "string option \<Rightarrow> json" where
  "opt_text v = (case v of None \<Rightarrow> JNull | Some s \<Rightarrow> JStr s)"

definition opt_int :: "int option \<Rightarrow> json" where
  "opt_int v = (case v of None \<Rightarrow> JNull | Some i \<Rightarrow> JInt i)"

definition object_or_empty :: "fields option \<Rightarrow> json" where
  "object_or_empty v = JObj (case v of None \<Rightarrow> [] | Some d \<Rightarrow> d)"

definition connector_health ::
    "string \<Rightarrow> string \<Rightarrow> string option \<Rightarrow> tool_request" where
  "connector_health profile_id idempotency_key instance_id =
     make_request READ_ONLY ''connector.health'' profile_id idempotency_key instance_id
        []"

definition files_list ::
    "string \<Rightarrow> string \<Rightarrow> string \<Rightarrow> string \<Rightarrow> string option \<Rightarrow> string option \<Rightarrow> tool_request" where
  "files_list profile_id idempotency_key vroot path pattern instance_id =
     make_request READ_ONLY ''files.list'' profile_id idempotency_key instance_id
        [(''root'', JStr vroot), (''path'', JStr path), (''pattern'', opt_text pattern)]"

definition files_stat ::
    "string \<Rightarrow> string \<Rightarrow> string \<Rightarrow> string \<Rightarrow> string option \<Rightarrow> tool_request" where
  "files_stat profile_id idempotency_key vroot path instance_id =
     make_request READ_ONLY ''files.stat'' profile_id idempotency_key instance_id
        [(''root'', JStr vroot), (''path'', JStr path)]"

definition files_search ::
    "string \<Rightarrow> string \<Rightarrow> string \<Rightarrow> string \<Rightarrow> string \<Rightarrow> int \<Rightarrow> string option \<Rightarrow> tool_request" where
  "files_search profile_id idempotency_key vroot path query limit instance_id =
     make_request READ_ONLY ''files.search'' profile_id idempotency_key instance_id
        [(''root'', JStr vroot), (''path'', JStr path), (''query'', JStr query), (''limit'', JInt limit)]"

definition files_read ::
    "string \<Rightarrow> string \<Rightarrow> string \<Rightarrow> string \<Rightarrow> int \<Rightarrow> int option \<Rightarrow> string \<Rightarrow> string option \<Rightarrow> tool_request" where
  "files_read profile_id idempotency_key vroot path offset len encoding instance_id =
     make_request READ_ONLY ''files.read'' profile_id idempotency_key instance_id
        [(''root'', JStr vroot), (''path'', JStr path), (''offset'', JInt offset),
         (''length'', opt_int len), (''encoding'', JStr encoding)]"

definition files_write ::
    "string \<Rightarrow> string \<Rightarrow> string \<Rightarrow> string \<Rightarrow> string \<Rightarrow> string \<Rightarrow> string option \<Rightarrow> tool_request" where
  "files_write profile_id idempotency_key vroot path content encoding instance_id =
     make_request WRITE ''files.write'' profile_id idempotency_key instance_id
        [(''root'', JStr vroot), (''path'', JStr path), (''content'', JStr content),
         (''encoding'', JStr encoding)]"

definition files_delete ::
    "string \<Rightarrow> string \<Rightarrow> string \<Rightarrow> string \<Rightarrow> string option \<Rightarrow> tool_request" where
  "files_delete profile_id idempotency_key vroot path instance_id =
     make_request WRITE ''files.delete'' profile_id idempotency_key instance_id
        [(''root'', JStr vroot), (''path'', JStr path)]"

definition files_move ::
    "string \<Rightarrow> string \<Rightarrow> string \<Rightarrow> string \<Rightarrow> string \<Rightarrow> string option \<Rightarrow> tool_request" where
  "files_move profile_id idempotency_key vroot path destination instance_id =
     make_request WRITE ''files.move'' profile_id idempotency_key instance_id
        [(''root'', JStr vroot), (''path'', JStr path), (''destination'', JStr destination)]"

definition files_mkdir ::
    "string \<Rightarrow> string \<Rightarrow> string \<Rightarrow> string \<Rightarrow> string option \<Rightarrow> tool_request" where
  "files_mkdir profile_id idempotency_key vroot path instance_id =
     make_request WRITE ''files.mkdir'' profile_id idempotency_key instance_id
        [(''root'', JStr vroot), (''path'', JStr path)]"

definition files_upload ::
    "string \<Rightarrow> string \<Rightarrow> string \<Rightarrow> string \<Rightarrow> string \<Rightarrow> string option \<Rightarrow> tool_request" where
  "files_upload profile_id idempotency_key vroot path content_base64 instance_id =
     make_request WRITE ''files.upload'' profile_id idempotency_key instance_id
        [(''root'', JStr vroot), (''path'', JStr path), (''content_base64'', JStr content_base64)]"

definition files_download ::
    "string \<Rightarrow> string \<Rightarrow> string \<Rightarrow> string \<Rightarrow> string option \<Rightarrow> tool_request" where
  "files_download profile_id idempotency_key vroot path instance_id =
     make_request READ_ONLY ''files.download'' profile_id idempotency_key instance_id
        [(''root'', JStr vroot), (''path'', JStr path)]"

definition terminal_execute ::
    "string \<Rightarrow> string \<Rightarrow> string \<Rightarrow> string option \<Rightarrow> int option \<Rightarrow> string option \<Rightarrow> string option \<Rightarrow> tool_request" where
  "terminal_execute profile_id idempotency_key command vroot timeout_s cwd instance_id =
     make_request CONTROL ''terminal.execute'' profile_id idempotency_key instance_id
        ([(''command'', JStr command), (''cwd'', opt_text cwd)]
         @ (case timeout_s of None \<Rightarrow> [] | Some t \<Rightarrow> [(''timeout_s'', JInt t)])
         @ (case vroot of None \<Rightarrow> [] | Some r \<Rightarrow> [(''root'', JStr r)]))"

definition ssh_execute ::
    "string \<Rightarrow> string \<Rightarrow> string \<Rightarrow> string \<Rightarrow> string option \<Rightarrow> int option \<Rightarrow> string option \<Rightarrow> tool_request" where
  "ssh_execute profile_id idempotency_key host command vroot timeout_s instance_id =
     make_request CONTROL ''ssh.execute'' profile_id idempotency_key instance_id
        ([(''root'', opt_text vroot), (''host'', JStr host), (''command'', JStr command)]
         @ (case timeout_s of None \<Rightarrow> [] | Some t \<Rightarrow> [(''timeout_s'', JInt t)]))"

definition ssh_list_profiles ::
    "string \<Rightarrow> string \<Rightarrow> string option \<Rightarrow> tool_request" where
  "ssh_list_profiles profile_id idempotency_key instance_id =
     make_request READ_ONLY ''ssh.list_profiles'' profile_id idempotency_key instance_id
        []"

definition skills_list ::
    "string \<Rightarrow> string \<Rightarrow> string option \<Rightarrow> tool_request" where
  "skills_list profile_id idempotency_key instance_id =
     make_request READ_ONLY ''skills.list'' profile_id idempotency_key instance_id
        []"

definition skills_materialize ::
    "string \<Rightarrow> string \<Rightarrow> string \<Rightarrow> string \<Rightarrow> string option \<Rightarrow> tool_request" where
  "skills_materialize profile_id idempotency_key skill_id target_root instance_id =
     make_request WRITE ''skills.materialize'' profile_id idempotency_key instance_id
        [(''skill_id'', JStr skill_id), (''target_root'', JStr target_root)]"

definition skills_execute ::
    "string \<Rightarrow> string \<Rightarrow> string \<Rightarrow> fields option \<Rightarrow> string option \<Rightarrow> tool_request" where
  "skills_execute profile_id idempotency_key skill_id arguments instance_id =
     make_request CONTROL ''skills.execute'' profile_id idempotency_key instance_id
        [(''skill_id'', JStr skill_id), (''arguments'', object_or_empty arguments)]"

definition mcp_list_servers ::
    "string \<Rightarrow> string \<Rightarrow> string option \<Rightarrow> tool_request" where
  "mcp_list_servers profile_id idempotency_key instance_id =
     make_request READ_ONLY ''mcp.list_servers'' profile_id idempotency_key instance_id
        []"

definition mcp_call ::
    "string \<Rightarrow> string \<Rightarrow> string \<Rightarrow> string \<Rightarrow> fields option \<Rightarrow> string option \<Rightarrow> tool_request" where
  "mcp_call profile_id idempotency_key server_id tool_name arguments instance_id =
     make_request CONTROL ''mcp.call'' profile_id idempotency_key instance_id
        [(''server_id'', JStr server_id), (''tool_name'', JStr tool_name),
         (''arguments'', object_or_empty arguments)]"

definition mcp_health ::
    "string \<Rightarrow> string \<Rightarrow> string option \<Rightarrow> string option \<Rightarrow> tool_request" where
  "mcp_health profile_id idempotency_key server_id instance_id =
     make_request READ_ONLY ''mcp.health'' profile_id idempotency_key instance_id
        [(''server_id'', opt_text server_id)]"

definition skills_health ::
    "string \<Rightarrow> string \<Rightarrow> string option \<Rightarrow> tool_request" where
  "skills_health profile_id idempotency_key instance_id =
     make_request READ_ONLY ''skills.health'' profile_id idempotency_key instance_id
        []"

text \<open>The requests the tool server can make: one rule per registered tool.\<close>

inductive published :: "tool_request \<Rightarrow> bool" where
  "published (connector_health p k i)"
| "published (files_list p k xa xb xc i)"
| "published (files_stat p k xa xb i)"
| "published (files_search p k xa xb xc xd i)"
| "published (files_read p k xa xb xc xd xe i)"
| "published (files_write p k xa xb xc xd i)"
| "published (files_delete p k xa xb i)"
| "published (files_move p k xa xb xc i)"
| "published (files_mkdir p k xa xb i)"
| "published (files_upload p k xa xb xc i)"
| "published (files_download p k xa xb i)"
| "published (terminal_execute p k xa xb xc xd i)"
| "published (ssh_execute p k xa xb xc xd i)"
| "published (ssh_list_profiles p k i)"
| "published (skills_list p k i)"
| "published (skills_materialize p k xa xb i)"
| "published (skills_execute p k xa xb i)"
| "published (mcp_list_servers p k i)"
| "published (mcp_call p k xa xb xc i)"
| "published (mcp_health p k xa i)"
| "published (skills_health p k i)"

section \<open>A tool call\<close>

text \<open>
  A call up to the point where its frame is written: the identity is checked before
  \<open>call_agent\<close> is entered. The later ends of the command (\<open>after_write\<close>, \<open>after_wait\<close>) go
  through \<^const>\<open>tool_result\<close> as well.
\<close>

definition call_agent :: "command_env \<Rightarrow> delegated_identity \<Rightarrow> tool_request \<Rightarrow> start hact" where
  "call_agent env identity r h =
     tool_result (device_command env identity (tr_tool r) (tr_connector_id r) (tr_arguments r)
                    (tr_idempotency_key r) (tr_instance_id r) h)"

definition call_tool ::
    "delegation_check \<Rightarrow> (string \<Rightarrow> string option) \<Rightarrow> command_env \<Rightarrow> tool_request \<Rightarrow> start hact" where
  "call_tool dc headers env r =
     bindH (liftH (identity_of_request dc headers)) (\<lambda>identity. call_agent env identity r)"

section \<open>Tools and capabilities\<close>

lemmas tool_defs = connector_health_def files_list_def files_stat_def files_search_def files_read_def files_write_def files_delete_def files_move_def files_mkdir_def files_upload_def files_download_def terminal_execute_def ssh_execute_def ssh_list_profiles_def skills_list_def skills_materialize_def skills_execute_def mcp_list_servers_def mcp_call_def mcp_health_def skills_health_def

definition published_list :: "(string \<times> bool) list" where
  "published_list =
     [(''connector.health'', True), (''files.list'', True), (''files.stat'', True), (''files.search'', True),
      (''files.read'', True), (''files.download'', True), (''ssh.list_profiles'', True), (''skills.list'', True),
      (''skills.health'', True), (''mcp.list_servers'', True), (''mcp.health'', True),
      (''files.write'', False), (''files.delete'', False), (''files.move'', False), (''files.mkdir'', False),
      (''files.upload'', False), (''skills.materialize'', False), (''terminal.execute'', False),
      (''ssh.execute'', False), (''skills.execute'', False), (''mcp.call'', False)]"

abbreviation tool_kind :: "tool_request \<Rightarrow> string \<times> bool" where
  "tool_kind r \<equiv> (tr_tool r, ta_read_only (tr_annotations r))"

lemmas annotation_defs = make_request_def READ_ONLY_def WRITE_def CONTROL_def

lemma published_in_list: "published r \<Longrightarrow> tool_kind r \<in> set published_list"
  by (induction rule: published.induct) (simp_all add: tool_defs annotation_defs published_list_def)

lemmas published_images = published.intros
  [THEN CollectI [of published], THEN imageI [of _ _ tool_kind],
   unfolded tool_defs annotation_defs tool_request.simps tool_annotations.simps]

lemma published_kinds: "tool_kind ` {r. published r} = set published_list"
proof
  show "tool_kind ` {r. published r} \<subseteq> set published_list" using published_in_list by blast
  show "set published_list \<subseteq> tool_kind ` {r. published r}"
    unfolding published_list_def list.set insert_subset by (intro conjI empty_subsetI published_images)
qed

text \<open>
  C37. The published tools, the capability ceilings and the mutation guard are three views of one
  list: the tools not hinted read-only are exactly those the collision guard treats as mutating,
  and the capabilities of the published tools are exactly those of the widest profile. No
  capability can be granted that no tool uses, and no tool exists that no profile covers.
\<close>

theorem published_tools_match_capabilities:
  "{tr_tool r | r. published r \<and> \<not> ta_read_only (tr_annotations r)} = set MUTATING_RELAY_TOOLS
   \<and> {tr_tool r | r. published r \<and> ta_read_only (tr_annotations r)} \<inter> set MUTATING_RELAY_TOOLS = {}
   \<and> {tool_capability (tr_tool r) | r. published r} = set FULL_AGENT_CAPABILITIES"
proof -
  have kinds: "{f (tr_tool r) | r. published r \<and> P (ta_read_only (tr_annotations r))}
      = set (map (\<lambda>(t, b). f t) (filter (\<lambda>(t, b). P b) published_list))" for f :: "string \<Rightarrow> string" and P
    unfolding set_map set_filter published_kinds [symmetric] by (auto simp: image_iff)
  have eval: "set (map (\<lambda>(t, b). t) (filter (\<lambda>(t, b). \<not> b) published_list)) = set MUTATING_RELAY_TOOLS"
    "set (map (\<lambda>(t, b). t) (filter (\<lambda>(t, b). b) published_list)) \<inter> set MUTATING_RELAY_TOOLS = {}"
    "set (map (\<lambda>(t, b). tool_capability t) (filter (\<lambda>(t, b). True) published_list)) = set FULL_AGENT_CAPABILITIES"
    by code_simp+
  from eval show ?thesis
    using kinds [of "\<lambda>t. t" "\<lambda>b. \<not> b"] kinds [of "\<lambda>t. t" "\<lambda>b. b"] kinds [of tool_capability "\<lambda>b. True"] by simp
qed

section \<open>Calls end to end\<close>

lemma call_tool_Started:
  assumes "call_tool dc headers env r h = (Inr x, h')"
  obtains identity where "identity_of_request dc headers = Inr identity"
    and "device_command env identity (tr_tool r) (tr_connector_id r) (tr_arguments r)
           (tr_idempotency_key r) (tr_instance_id r) h = (Inr x, h')"
  using assms that
  by (cases "identity_of_request dc headers")
     (auto simp: call_tool_def call_agent_def tool_result_def split: prod.splits sum.splits)

lemma identity_of_request_Inl: "identity_of_request dc headers = Inl e \<longleftrightarrow>
    e = ToolError ''delegation_invalid'' \<and> isl (verify_delegation_headers (dc_hmac dc) (dc_loads dc) headers
      (dc_secret dc) (dc_audience dc) (dc_now dc) MAX_DELEGATION_AGE_SECONDS (dc_require_assertion dc))"
  by (auto simp: identity_of_request_def split: sum.splits)

lemma profile_tools:
  assumes "published r"
  shows "tool_capability (tr_tool r) \<in> set READ_ONLY_CAPABILITIES \<Longrightarrow>
      ta_read_only (tr_annotations r) \<and> tr_tool r \<notin> set MUTATING_RELAY_TOOLS"
    and "tool_capability (tr_tool r) \<in> set READ_WRITE_CAPABILITIES \<Longrightarrow>
      tr_tool r \<notin> {''terminal.execute'', ''ssh.execute'', ''skills.execute'', ''mcp.call''}"
proof -
  have "list_all (\<lambda>(t, b). (tool_capability t \<in> set READ_ONLY_CAPABILITIES \<longrightarrow> b \<and> t \<notin> set MUTATING_RELAY_TOOLS)
      \<and> (tool_capability t \<in> set READ_WRITE_CAPABILITIES \<longrightarrow>
           t \<notin> {''terminal.execute'', ''ssh.execute'', ''skills.execute'', ''mcp.call''})) published_list"
    by code_simp
  with published_in_list [OF assms]
  show "tool_capability (tr_tool r) \<in> set READ_ONLY_CAPABILITIES \<Longrightarrow>
      ta_read_only (tr_annotations r) \<and> tr_tool r \<notin> set MUTATING_RELAY_TOOLS"
    and "tool_capability (tr_tool r) \<in> set READ_WRITE_CAPABILITIES \<Longrightarrow>
      tr_tool r \<notin> {''terminal.execute'', ''ssh.execute'', ''skills.execute'', ''mcp.call''}"
    by (fastforce simp: list_all_iff)+
qed

text \<open>
  C3. In every reachable state of the relay, a tool call that gets as far as its device carries
  headers the Hub signed, is recorded under the client those headers name, and is sent to the
  session registered for that connector with exactly the tool and the arguments of the request;
  a device paired read-only is never sent a tool that is not hinted read-only, and a read-write
  device never a control tool.
\<close>

theorem tool_call_within_profile:
  assumes "reachable sha edv stale st0 s" and "published r"
    and "call_tool dc headers env r (sy_hub s) = (Inr (Started cm frame), h')"
  shows "\<exists>identity c ref se.
     verify_delegation_headers (dc_hmac dc) (dc_loads dc) headers (dc_secret dc) (dc_audience dc) (dc_now dc)
       MAX_DELEGATION_AGE_SECONDS (dc_require_assertion dc) = Inr identity
     \<and> cm_client_id cm = di_client_id identity \<and> parse_connector_id (JStr (tr_connector_id r)) = Inr c
     \<and> hb_sessions (sy_hub s) c = Some ref \<and> hb_heap (sy_hub s) ref = Some se \<and> cm_session cm = ref
     \<and> se_connector_id se = c
     \<and> frame = request_frame identity (cm_request_id cm) (tr_tool r) c (tr_arguments r) (tr_idempotency_key r)
     \<and> (se_capability_profile se = ''read_only'' \<longrightarrow>
          ta_read_only (tr_annotations r) \<and> tr_tool r \<notin> set MUTATING_RELAY_TOOLS)
     \<and> (se_capability_profile se = ''read_write'' \<longrightarrow>
          tr_tool r \<notin> {''terminal.execute'', ''ssh.execute'', ''skills.execute'', ''mcp.call''})"
proof -
  obtain identity where id: "identity_of_request dc headers = Inr identity"
    and go: "device_command env identity (tr_tool r) (tr_connector_id r) (tr_arguments r)
           (tr_idempotency_key r) (tr_instance_id r) (sy_hub s) = (Inr (Started cm frame), h')"
    using call_tool_Started [OF assms(3)] .
  from device_command_started [OF go] obtain c row ref se where
    c: "parse_connector_id (JStr (tr_connector_id r)) = Inr c"
    and found: "get_exact c (in_instance_id row) (sy_hub s) = Some ref" "hb_heap (sy_hub s) ref = Some se"
    and admit: "fst (admit_command env identity (tr_tool r) (tr_arguments r) se (sy_hub s)) = Inr ()"
    and cm: "cm = started_command env identity (tr_tool r) c (tr_arguments r) (tr_idempotency_key r) row ref
        (hb_next_future (sy_hub s))"
    and frame: "frame = request_frame identity (cm_request_id cm) (tr_tool r) c (tr_arguments r) (tr_idempotency_key r)"
    by (auto simp: Let_def)
  have sess: "hb_sessions (sy_hub s) c = Some ref"
    using found by (auto simp: get_exact_def split: option.splits if_splits)
  from routing_ok_reachable [OF assms(1)] have wf: "hub_wf (sy_hub s)" by (simp add: routing_ok_def)
  with found sess have conn: "se_connector_id se = c"
    and caps: "capabilities_for_profile (se_capability_profile se) = Inr (se_capabilities se)"
    unfolding hub_wf_def session_ok_def by fastforce+
  from admit have cap: "tool_capability (tr_tool r) \<in> set (se_capabilities se)"
    by (simp add: admit_command_Inr has_capability_def)
  have granted: "set (se_capabilities se) = set caps"
    if "map_of CAPABILITIES_BY_PROFILE (se_capability_profile se) = Some caps" for caps
    using caps that unfolding capabilities_for_profile_def by (metis option.simps(5) set_remdups set_sort sum.inject(2))
  have "set (se_capabilities se) = set READ_ONLY_CAPABILITIES" if "se_capability_profile se = ''read_only''"
    by (rule granted) (simp add: that CAPABILITIES_BY_PROFILE_def)
  moreover have "set (se_capabilities se) = set READ_WRITE_CAPABILITIES" if "se_capability_profile se = ''read_write''"
    by (rule granted) (simp add: that CAPABILITIES_BY_PROFILE_def)
  moreover have "verify_delegation_headers (dc_hmac dc) (dc_loads dc) headers (dc_secret dc) (dc_audience dc)
      (dc_now dc) MAX_DELEGATION_AGE_SECONDS (dc_require_assertion dc) = Inr identity"
    using id by (simp add: identity_of_request_def split: sum.splits)
  ultimately show ?thesis
    using c sess found conn frame cap profile_tools [OF assms(2)] by (auto simp: cm started_command_def)
qed


definition demo_check :: delegation_check where
  "demo_check = \<lparr>dc_hmac = (\<lambda>_ _. replicate 64 (CHR ''0'')), dc_loads = (\<lambda>_. None), dc_secret = ''secret'',
     dc_audience = ''aud'', dc_now = 1010, dc_require_assertion = False\<rparr>"

definition demo_request :: tool_request where
  "demo_request = connector_health ''dev-1'' ''k-1'' None"

lemma demo_call_started: "is_started (fst (call_tool demo_check sample_headers demo_env demo_request demo_hub))"
  by code_simp

theorem tool_call_within_profile_witness:
  "\<exists>identity. verify_delegation_headers (dc_hmac demo_check) (dc_loads demo_check) sample_headers
       (dc_secret demo_check) (dc_audience demo_check) (dc_now demo_check) MAX_DELEGATION_AGE_SECONDS False = Inr identity
     \<and> (\<exists>c. parse_connector_id (JStr (tr_connector_id demo_request)) = Inr c \<and> hb_sessions demo_hub c \<noteq> None)"
proof -
  obtain cm frame h' where "call_tool demo_check sample_headers demo_env demo_request demo_hub
      = (Inr (Started cm frame), h')"
    using is_startedE [OF demo_call_started] by blast
  then have go: "call_tool demo_check sample_headers demo_env demo_request (sy_hub demo_open)
      = (Inr (Started cm frame), h')"
    by (simp add: demo_open_def)
  have "published demo_request" unfolding demo_request_def by (rule published.intros)
  from tool_call_within_profile [OF demo_open_reachable this go]
  show ?thesis by (auto simp: demo_check_def demo_open_def)
qed

text \<open>Without a valid delegation a call is refused with one code, whatever is wrong with it, and changes nothing.\<close>

lemma call_tool_undelegated:
  assumes "isl (identity_of_request dc headers)"
  shows "call_tool dc headers env r h = (Inl (ToolError ''delegation_invalid''), h)"
proof -
  from assms obtain e where e: "identity_of_request dc headers = Inl e" by (metis isl_def)
  then have "e = ToolError ''delegation_invalid''" by (simp add: identity_of_request_Inl)
  with e show ?thesis by (simp add: call_tool_def)
qed

end
