(* ===== verification/PyNet.thy ===== *)
theory PyNet
  imports PyCodec
begin

text \<open>
  \<open>urllib.parse\<close> and \<open>ipaddress\<close> of Python's standard library as the program uses them:
  \<open>urlsplit\<close>, \<open>urlparse\<close>, the host, port and user of the result, and the addresses
  \<open>ip_address\<close> accepts. The NFKC check of a host name is left out: no character below 256
  normalises to one of the delimiters it looks for.
\<close>

section \<open>Partitioning\<close>

text \<open>\<open>s.partition(c)\<close>; the middle component says whether \<open>c\<close> was found.\<close>

definition py_partition :: "char \<Rightarrow> string \<Rightarrow> string \<times> bool \<times> string" where
  "py_partition c s = (let a = takeWhile (\<lambda>x. x \<noteq> c) s in (a, c \<in> set s, drop (Suc (length a)) s))"

definition py_rpartition :: "char \<Rightarrow> string \<Rightarrow> string \<times> bool \<times> string" where
  "py_rpartition c s =
     (if c \<in> set s then (case py_partition c (rev s) of (a, _, b) \<Rightarrow> (rev b, True, rev a))
      else ([], False, s))"

section \<open>IP addresses\<close>

datatype ip = IPv4 int | IPv6 int "string option"

definition parse_octet :: "string \<Rightarrow> int option" where
  "parse_octet s =
     (if s = [] \<or> \<not> list_all is_digit s \<or> 3 < length s \<or> (s \<noteq> ''0'' \<and> hd s = CHR ''0'')
         \<or> 255 < digits_value 10 s
      then None else Some (digits_value 10 s))"

fun those_of :: "('a \<Rightarrow> 'b option) \<Rightarrow> 'a list \<Rightarrow> 'b list option" where
  "those_of f [] = Some []"
| "those_of f (x # xs) = (case f x of None \<Rightarrow> None | Some y \<Rightarrow> map_option (Cons y) (those_of f xs))"

definition positional :: "int \<Rightarrow> int list \<Rightarrow> int" where
  "positional base ds = foldl (\<lambda>a d. a * base + d) 0 ds"

definition parse_ipv4 :: "string \<Rightarrow> int option" where
  "parse_ipv4 s =
     (let octets = py_split (CHR ''.'') s
      in if CHR ''/'' \<in> set s \<or> length octets \<noteq> 4 then None
         else map_option (positional 256) (those_of parse_octet octets))"

definition is_hex :: "char \<Rightarrow> bool" where
  "is_hex c = (digit_val c < 16)"

definition parse_hextet :: "string \<Rightarrow> int option" where
  "parse_hextet s =
     (if s = [] \<or> \<not> list_all is_hex s \<or> 4 < length s then None else Some (digits_value 16 s))"

text \<open>
  The value of the parts, where the part at \<open>skip\<close>, if any, stands for the missing zeros.
\<close>

definition ipv6_value :: "string list \<Rightarrow> nat option \<Rightarrow> int option" where
  "ipv6_value parts skip =
     (case skip of
        None \<Rightarrow>
          if length parts \<noteq> 8 then None else map_option (positional 65536) (those_of parse_hextet parts)
      | Some i \<Rightarrow>
          (let hi0 = i; lo0 = length parts - i - 1;
               hi = (if hd parts = [] then hi0 - 1 else hi0);
               lo = (if last parts = [] then lo0 - 1 else lo0)
           in if (hd parts = [] \<and> 0 < hi) \<or> (last parts = [] \<and> 0 < lo) \<or> 8 < hi + lo + 1 then None
              else (case (those_of parse_hextet (take hi parts),
                          those_of parse_hextet (drop (length parts - lo) parts)) of
                      (Some h, Some l) \<Rightarrow>
                        Some (positional 65536 h * 65536 ^ (8 - length h) + positional 65536 l)
                    | _ \<Rightarrow> None)))"

text \<open>
  The parts between the colons; a dotted tail counts as two of them. At most one inner part
  may be empty.
\<close>

definition ipv6_parts :: "string \<Rightarrow> string list option" where
  "ipv6_parts s =
     (let parts = py_split (CHR '':'') s
      in if length parts < 3 then None
         else if CHR ''.'' \<in> set (last parts)
         then map_option (\<lambda>v. butlast parts @ [hex_digits 4 (v div 65536), hex_digits 4 (v mod 65536)])
                (parse_ipv4 (last parts))
         else Some parts)"

definition parse_ipv6_int :: "string \<Rightarrow> int option" where
  "parse_ipv6_int s =
     (case ipv6_parts s of
        None \<Rightarrow> None
      | Some parts \<Rightarrow>
          (let empty = filter (\<lambda>i. parts ! i = []) [1..<length parts - 1]
           in if 9 < length parts \<or> 1 < length empty then None
              else ipv6_value parts (case empty of [] \<Rightarrow> None | i # _ \<Rightarrow> Some i)))"

text \<open>\<open>ip_address(s)\<close>, \<open>None\<close> where it raises \<open>ValueError\<close>.\<close>

definition ip_address :: "string \<Rightarrow> ip option" where
  "ip_address s =
     (case parse_ipv4 s of
        Some v \<Rightarrow> Some (IPv4 v)
      | None \<Rightarrow>
          (case py_partition (CHR ''%'') s of
             (addr, scoped, zone) \<Rightarrow>
               if CHR ''/'' \<in> set s \<or> (scoped \<and> (zone = [] \<or> CHR ''%'' \<in> set zone)) then None
               else map_option (\<lambda>v. IPv6 v (if scoped then Some zone else None)) (parse_ipv6_int addr)))"

section \<open>URLs\<close>

record url =
  u_scheme :: string
  u_netloc :: string
  u_path :: string
  u_query :: string
  u_fragment :: string

definition scheme_char :: "char \<Rightarrow> bool" where
  "scheme_char c = (is_alnum c \<or> c \<in> set ''+-.'')"

text \<open>A host in brackets: a future address (a letter v, hex digits, a dot, text) or an IPv6 address.\<close>

definition bracketed_host_ok :: "string \<Rightarrow> bool" where
  "bracketed_host_ok h =
     (case h of
        c # r \<Rightarrow>
          if c = CHR ''v''
          then (case py_partition (CHR ''.'') r of
                  (digits, dotted, rest) \<Rightarrow> dotted \<and> digits \<noteq> [] \<and> list_all is_hex digits \<and> rest \<noteq> [])
          else (case ip_address h of Some (IPv6 _ _) \<Rightarrow> True | _ \<Rightarrow> False)
      | [] \<Rightarrow> False)"

definition netloc_ok :: "string \<Rightarrow> bool" where
  "netloc_ok n =
     (let opens = CHR ''['' \<in> set n; closes = CHR '']'' \<in> set n
      in opens = closes \<and>
         (opens \<longrightarrow> (case py_partition (CHR ''['') n of
            (_, _, r) \<Rightarrow> (case py_partition (CHR '']'') r of (h, _, _) \<Rightarrow> bracketed_host_ok h))))"

definition split_scheme :: "string \<Rightarrow> string \<times> string" where
  "split_scheme u =
     (case py_partition (CHR '':'') u of
        (pre, found, post) \<Rightarrow>
          if found \<and> pre \<noteq> [] \<and> (is_upper (hd pre) \<or> is_lower (hd pre)) \<and> list_all scheme_char pre
          then (py_lower pre, post) else ([], u))"

text \<open>\<open>urlsplit(value)\<close>, \<open>None\<close> where it raises \<open>ValueError\<close>.\<close>

definition urlsplit :: "string \<Rightarrow> url option" where
  "urlsplit value =
     (let u0 = filter (\<lambda>c. c \<notin> {CHR 0x09, CHR 0x0A, CHR 0x0D}) (dropWhile (\<lambda>c. code c \<le> 32) value);
          (scheme, u1) = split_scheme u0;
          (netloc, u2) = (if take 2 u1 = ''//''
                          then (takeWhile (\<lambda>c. c \<notin> set ''/?#'') (drop 2 u1), dropWhile (\<lambda>c. c \<notin> set ''/?#'') (drop 2 u1))
                          else ([], u1));
          (u3, _, fragment) = py_partition (CHR ''#'') u2;
          (path, _, query) = py_partition (CHR ''?'') u3
      in if netloc_ok netloc
         then Some \<lparr>u_scheme = scheme, u_netloc = netloc, u_path = path, u_query = query, u_fragment = fragment\<rparr>
         else None)"

text \<open>\<open>urlparse\<close> also cuts the parameters off the last segment of the path.\<close>

definition uses_params :: "string list" where
  "uses_params = [[], ''ftp'', ''hdl'', ''prospero'', ''http'', ''imap'', ''https'', ''shttp'', ''rtsp'', ''rtsps'',
     ''rtspu'', ''sip'', ''sips'', ''mms'', ''sftp'', ''tel'']"

definition split_params :: "string \<Rightarrow> string" where
  "split_params path =
     (case py_rpartition (CHR ''/'') path of
        (dir, found, seg) \<Rightarrow>
          (let last_part = fst (py_partition (CHR '';'') seg)
           in if found then dir @ ''/'' @ last_part else last_part))"

definition urlparse :: "string \<Rightarrow> url option" where
  "urlparse value =
     map_option (\<lambda>u. if u_scheme u \<in> set uses_params then u\<lparr>u_path := split_params (u_path u)\<rparr> else u) (urlsplit value)"

subsection \<open>Host, port and user\<close>

definition host_port :: "string \<Rightarrow> string \<times> string" where
  "host_port netloc =
     (case py_rpartition (CHR ''@'') netloc of
        (_, _, hostinfo) \<Rightarrow>
          (case py_partition (CHR ''['') hostinfo of
             (_, opened, bracketed) \<Rightarrow>
               if opened
               then (case py_partition (CHR '']'') bracketed of
                       (hostname, _, r) \<Rightarrow> (case py_partition (CHR '':'') r of (_, _, port) \<Rightarrow> (hostname, port)))
               else (case py_partition (CHR '':'') hostinfo of (hostname, _, port) \<Rightarrow> (hostname, port))))"

text \<open>\<open>parsed.hostname\<close>, empty for \<open>None\<close>; the zone of a scoped address keeps its case.\<close>

definition url_hostname :: "url \<Rightarrow> string" where
  "url_hostname u =
     (case py_partition (CHR ''%'') (fst (host_port (u_netloc u))) of
        (host, scoped, zone) \<Rightarrow> py_lower host @ (if scoped then ''%'' @ zone else []))"

text \<open>\<open>parsed.port\<close>: \<open>None\<close> raises \<open>ValueError\<close>, \<open>Some None\<close> is no port.\<close>

definition url_port :: "url \<Rightarrow> int option option" where
  "url_port u =
     (let port = snd (host_port (u_netloc u))
      in if port = [] then Some None
         else if list_all is_digit port \<and> length port \<le> 4300 \<and> digits_value 10 port \<le> 65535
         then Some (Some (digits_value 10 port)) else None)"

text \<open>\<open>parsed.username\<close>, \<open>parsed.password\<close>: is either of them a non-empty text?\<close>

definition url_has_user :: "url \<Rightarrow> bool" where
  "url_has_user u =
     (case py_rpartition (CHR ''@'') (u_netloc u) of
        (userinfo, found, _) \<Rightarrow>
          found \<and> (case py_partition (CHR '':'') userinfo of (user, _, password) \<Rightarrow> user \<noteq> [] \<or> password \<noteq> []))"

end
