(* ===== verification/Config.thy ===== *)
theory Config
  imports Protocol PyNet
begin

text \<open>
  \<open>remote_agent_connector/config.py\<close>: the configuration read from the environment, its checks in
  the order of the code, and what a configuration that loads guarantees. The environment is a
  partial function from names to texts. A check that fails raises \<open>RuntimeError\<close>; a number that
  does not parse, or a URL that \<open>urlparse\<close> refuses, escapes as \<open>ValueError\<close>.
\<close>

section \<open>Reading the environment\<close>

type_synonym env = "string \<Rightarrow> string option"

definition placeholder_markers :: "string list" where
  "placeholder_markers = [''replace-with'', ''change-me'', ''changeme'', ''example-token'']"

definition AUDIENCE_PATTERN :: "string \<Rightarrow> bool" where
  "AUDIENCE_PATTERN = one_then is_alnum (\<lambda>c. is_alnum c \<or> c \<in> set '':._-'') 95"

definition getenv :: "env \<Rightarrow> string \<Rightarrow> string \<Rightarrow> string" where
  "getenv env name default_value = (case env name of Some v \<Rightarrow> v | None \<Rightarrow> default_value)"

definition env_flag :: "env \<Rightarrow> string \<Rightarrow> bool" where
  "env_flag env name = (case env name of
       None \<Rightarrow> False
     | Some raw \<Rightarrow> py_lower (py_strip raw) \<in> set [''1'', ''true'', ''yes'', ''on''])"

definition secret_ok :: "string \<Rightarrow> bool" where
  "secret_ok v = (32 \<le> length v \<and> \<not> (\<exists>m \<in> set placeholder_markers. occurs_in m (py_lower v)))"

definition required_secret :: "env \<Rightarrow> string \<Rightarrow> string res" where
  "required_secret env name =
     (let v = py_strip (getenv env name []) in if secret_ok v then Inr v else Inl RuntimeError)"

definition required_value :: "env \<Rightarrow> string \<Rightarrow> string res" where
  "required_value env name =
     (let v = py_strip (getenv env name []) in if v = [] then Inl RuntimeError else Inr v)"

definition env_int :: "env \<Rightarrow> string \<Rightarrow> string \<Rightarrow> int res" where
  "env_int env name default_value =
     (case py_int 10 (getenv env name default_value) of Some i \<Rightarrow> Inr i | None \<Rightarrow> Inl ValueError)"

definition bounded_int :: "env \<Rightarrow> string \<Rightarrow> string \<Rightarrow> int \<Rightarrow> int \<Rightarrow> int res" where
  "bounded_int env name default_value lo hi =
     bindR (env_int env name default_value) (\<lambda>i. if lo \<le> i \<and> i \<le> hi then Inr i else Inl RuntimeError)"

section \<open>URLs\<close>

definition rstrip_char :: "char \<Rightarrow> string \<Rightarrow> string" where
  "rstrip_char c s = rev (dropWhile (\<lambda>x. x = c) (rev s))"

definition validate_http_url :: "string \<Rightarrow> bool \<Rightarrow> string res" where
  "validate_http_url value allow_insecure_http =
     (case urlparse value of
        None \<Rightarrow> Inl ValueError
      | Some parsed \<Rightarrow>
          (case url_port parsed of
             None \<Rightarrow> Inl RuntimeError
           | Some port \<Rightarrow>
               if u_scheme parsed \<notin> set [''http'', ''https''] \<or> u_netloc parsed = [] \<or> url_hostname parsed = []
                  \<or> url_has_user parsed \<or> u_query parsed \<noteq> [] \<or> u_fragment parsed \<noteq> []
                  \<or> rstrip_char (CHR ''/'') (u_path parsed) \<noteq> ''/mcp'' \<or> port = Some 0
               then Inl RuntimeError
               else if u_scheme parsed = ''http'' \<and> \<not> allow_insecure_http then Inl RuntimeError
               else Inr value))"

definition validate_database_url :: "string \<Rightarrow> bool \<Rightarrow> string res" where
  "validate_database_url value allow_sqlite_dev =
     (let normalized = py_strip value; lowered = py_lower normalized
      in if starts_with ''postgres://'' lowered \<or> starts_with ''postgresql://'' lowered then Inr normalized
         else if starts_with ''sqlite:///'' lowered
         then (if allow_sqlite_dev then Inr normalized else Inl RuntimeError)
         else Inl RuntimeError)"

section \<open>The configuration\<close>

record config =
  cf_database_url :: string
  cf_mcp_bearer_token :: string
  cf_hub_delegation_secret :: string
  cf_operator_bearer_token :: string
  cf_hub_audience :: string
  cf_private_mcp_url :: string
  cf_bind_host :: string
  cf_bind_port :: int
  cf_allowed_hosts :: "string list"
  cf_allow_insecure_private_mcp :: bool
  cf_trust_proxy_tls :: bool
  cf_request_timeout_seconds :: int
  cf_heartbeat_timeout_seconds :: int
  cf_require_signed_app_assertion :: bool
  cf_relay_handshake_timeout_seconds :: int
  cf_public_ca_cert_path :: "string option"
  cf_ca_private_key_path :: "string option"
  cf_relay_ip :: string
  cf_relay_certificate_validity_days :: int

definition config_stale_seconds :: "config \<Rightarrow> int" where
  "config_stale_seconds c = instance_stale_seconds (cf_heartbeat_timeout_seconds c)"

definition read_allowed_hosts :: "env \<Rightarrow> string list" where
  "read_allowed_hosts env =
     filter (\<lambda>h. h \<noteq> []) (map py_strip (py_split (CHR '','') (getenv env ''REMOTE_AGENT_ALLOWED_HOSTS'' [])))"

definition or_none :: "string \<Rightarrow> string option" where
  "or_none s = (if s = [] then None else Some s)"

definition from_env :: "env \<Rightarrow> config res" where
  "from_env env =
     (let allow_sqlite_dev = env_flag env ''REMOTE_AGENT_ALLOW_SQLITE_DEV'';
          allow_insecure = env_flag env ''REMOTE_AGENT_ALLOW_INSECURE_HTTP'' in
      bindR (bounded_int env ''REMOTE_AGENT_BIND_PORT'' ''3030'' 1 65535) (\<lambda>bind_port.
      bindR (required_value env ''REMOTE_AGENT_HUB_AUDIENCE'') (\<lambda>audience.
      bindR (requireR (AUDIENCE_PATTERN audience) RuntimeError) (\<lambda>_.
      let allowed_hosts = read_allowed_hosts env in
      bindR (requireR (allowed_hosts \<noteq> []) RuntimeError) (\<lambda>_.
      bindR (bounded_int env ''REMOTE_AGENT_REQUEST_TIMEOUT_SECONDS'' ''60'' 1
               CONNECTOR_MAX_REQUEST_TIMEOUT_SECONDS) (\<lambda>timeout.
      bindR (bounded_int env ''REMOTE_AGENT_HEARTBEAT_TIMEOUT_SECONDS'' ''30'' 1 3600) (\<lambda>heartbeat_timeout.
      bindR (bounded_int env ''REMOTE_AGENT_RELAY_HANDSHAKE_TIMEOUT_SECONDS'' ''15'' 1 60) (\<lambda>handshake_timeout.
      bindR (env_int env ''REMOTE_AGENT_RELAY_CERT_VALIDITY_DAYS'' ''90'') (\<lambda>validity_days.
      bindR (required_secret env ''REMOTE_AGENT_MCP_BEARER_TOKEN'') (\<lambda>mcp_token.
      bindR (required_secret env ''REMOTE_AGENT_HUB_DELEGATION_SECRET'') (\<lambda>delegation_secret.
      bindR (required_secret env ''REMOTE_AGENT_OPERATOR_BEARER_TOKEN'') (\<lambda>operator_token.
      bindR (requireR (distinct [mcp_token, delegation_secret, operator_token]) RuntimeError) (\<lambda>_.
      bindR (bindR (required_value env ''REMOTE_AGENT_DATABASE_URL'') (\<lambda>v.
               validate_database_url v allow_sqlite_dev)) (\<lambda>database_url.
      bindR (bindR (required_value env ''REMOTE_AGENT_PRIVATE_MCP_URL'') (\<lambda>v.
               validate_http_url v allow_insecure)) (\<lambda>private_mcp_url.
      Inr \<lparr>cf_database_url = database_url, cf_mcp_bearer_token = mcp_token,
           cf_hub_delegation_secret = delegation_secret, cf_operator_bearer_token = operator_token,
           cf_hub_audience = audience, cf_private_mcp_url = private_mcp_url,
           cf_bind_host = py_strip (getenv env ''REMOTE_AGENT_BIND_HOST'' ''127.0.0.1''),
           cf_bind_port = bind_port, cf_allowed_hosts = allowed_hosts,
           cf_allow_insecure_private_mcp = allow_insecure,
           cf_trust_proxy_tls = env_flag env ''REMOTE_AGENT_TRUST_PROXY_TLS'',
           cf_request_timeout_seconds = timeout, cf_heartbeat_timeout_seconds = heartbeat_timeout,
           cf_require_signed_app_assertion = env_flag env ''REMOTE_AGENT_REQUIRE_SIGNED_ASSERTION'',
           cf_relay_handshake_timeout_seconds = handshake_timeout,
           cf_public_ca_cert_path = or_none (py_strip (getenv env ''REMOTE_AGENT_PUBLIC_CA_CERT_PATH'' [])),
           cf_ca_private_key_path = or_none (py_strip (getenv env ''REMOTE_AGENT_CA_PRIVATE_KEY_PATH'' [])),
           cf_relay_ip = py_strip (getenv env ''REMOTE_AGENT_RELAY_IP'' ''10.21.4.101''),
           cf_relay_certificate_validity_days = validity_days\<rparr>)))))))))))))))"

section \<open>Properties\<close>

lemma bounded_int_Inr: "bounded_int env n d lo hi = Inr i \<Longrightarrow> lo \<le> i \<and> i \<le> hi"
  by (auto simp: bounded_int_def split: if_splits)

lemma required_secret_Inr: "required_secret env n = Inr v \<Longrightarrow> secret_ok v"
  by (auto simp: required_secret_def Let_def split: if_splits)

lemma validate_http_url_Inr:
  "validate_http_url v insecure = Inr w \<Longrightarrow> w = v \<and> (\<exists>u port. urlparse v = Some u \<and> url_port u = Some port
     \<and> u_scheme u \<in> {''http'', ''https''} \<and> (u_scheme u = ''http'' \<longrightarrow> insecure) \<and> url_hostname u \<noteq> []
     \<and> \<not> url_has_user u \<and> u_query u = [] \<and> u_fragment u = [] \<and> rstrip_char (CHR ''/'') (u_path u) = ''/mcp''
     \<and> port \<noteq> Some 0)"
  by (auto simp: validate_http_url_def split: option.splits if_splits)

text \<open>
  The type of a loaded configuration, as a predicate. The validity of relay certificates in days is
  any integer here: the loader does not bound it, \<open>sign_relay_csr\<close> does.
\<close>

definition config_ok :: "config \<Rightarrow> bool" where
  "config_ok c \<longleftrightarrow>
     1 \<le> cf_bind_port c \<and> cf_bind_port c \<le> 65535
     \<and> 1 \<le> cf_request_timeout_seconds c \<and> cf_request_timeout_seconds c \<le> 600
     \<and> 1 \<le> cf_heartbeat_timeout_seconds c \<and> cf_heartbeat_timeout_seconds c \<le> 3600
     \<and> 1 \<le> cf_relay_handshake_timeout_seconds c \<and> cf_relay_handshake_timeout_seconds c \<le> 60
     \<and> secret_ok (cf_mcp_bearer_token c) \<and> secret_ok (cf_hub_delegation_secret c)
     \<and> secret_ok (cf_operator_bearer_token c)
     \<and> distinct [cf_mcp_bearer_token c, cf_hub_delegation_secret c, cf_operator_bearer_token c]
     \<and> AUDIENCE_PATTERN (cf_hub_audience c)
     \<and> cf_allowed_hosts c \<noteq> [] \<and> (\<forall>h \<in> set (cf_allowed_hosts c). h \<noteq> [] \<and> py_strip h = h)
     \<and> (\<exists>u port. urlparse (cf_private_mcp_url c) = Some u \<and> url_port u = Some port \<and> port \<noteq> Some 0
          \<and> (u_scheme u = ''https'' \<or> (u_scheme u = ''http'' \<and> cf_allow_insecure_private_mcp c))
          \<and> url_hostname u \<noteq> [] \<and> \<not> url_has_user u \<and> u_query u = [] \<and> u_fragment u = []
          \<and> rstrip_char (CHR ''/'') (u_path u) = ''/mcp'')"

lemma from_env_config_ok:
  assumes "from_env env = Inr c"
  shows "config_ok c"
proof -
  from assms obtain port audience timeout hb hs days t1 t2 t3 db url v where
    nums: "bounded_int env ''REMOTE_AGENT_BIND_PORT'' ''3030'' 1 65535 = Inr port"
      "bounded_int env ''REMOTE_AGENT_REQUEST_TIMEOUT_SECONDS'' ''60'' 1 CONNECTOR_MAX_REQUEST_TIMEOUT_SECONDS = Inr timeout"
      "bounded_int env ''REMOTE_AGENT_HEARTBEAT_TIMEOUT_SECONDS'' ''30'' 1 3600 = Inr hb"
      "bounded_int env ''REMOTE_AGENT_RELAY_HANDSHAKE_TIMEOUT_SECONDS'' ''15'' 1 60 = Inr hs"
    and secrets: "required_secret env ''REMOTE_AGENT_MCP_BEARER_TOKEN'' = Inr t1"
      "required_secret env ''REMOTE_AGENT_HUB_DELEGATION_SECRET'' = Inr t2"
      "required_secret env ''REMOTE_AGENT_OPERATOR_BEARER_TOKEN'' = Inr t3" "distinct [t1, t2, t3]"
    and hosts: "AUDIENCE_PATTERN audience" "read_allowed_hosts env \<noteq> []"
    and url: "validate_http_url v (env_flag env ''REMOTE_AGENT_ALLOW_INSECURE_HTTP'') = Inr url"
    and c: "cf_bind_port c = port" "cf_request_timeout_seconds c = timeout" "cf_heartbeat_timeout_seconds c = hb"
      "cf_relay_handshake_timeout_seconds c = hs" "cf_mcp_bearer_token c = t1" "cf_hub_delegation_secret c = t2"
      "cf_operator_bearer_token c = t3" "cf_hub_audience c = audience" "cf_allowed_hosts c = read_allowed_hosts env"
      "cf_private_mcp_url c = url" "cf_allow_insecure_private_mcp c = env_flag env ''REMOTE_AGENT_ALLOW_INSECURE_HTTP''"
    unfolding from_env_def Let_def bindR_eq_Inr requireR_eq_Inr sum.inject
    apply (elim exE conjE)
    apply hypsubst
    apply (rule that)
    apply (assumption | simp only: config.simps refl)+
    done
  have items: "\<forall>h \<in> set (read_allowed_hosts env). h \<noteq> [] \<and> py_strip h = h"
    by (auto simp: read_allowed_hosts_def)
  show ?thesis
    unfolding config_ok_def c
    using nums [THEN bounded_int_Inr] secrets(1-3) [THEN required_secret_Inr] secrets(4) hosts items
      validate_http_url_Inr [OF url]
    unfolding CONNECTOR_MAX_REQUEST_TIMEOUT_SECONDS_def by blast
qed

lemma stale_window:
  "config_ok c \<Longrightarrow> 75 \<le> config_stale_seconds c \<and> config_stale_seconds c \<le> 3600"
  by (simp add: config_ok_def config_stale_seconds_def instance_stale_seconds_def
      HEARTBEAT_INTERVAL_SECONDS_def INSTANCE_STALE_MULTIPLIER_def)

text \<open>
  C34. A configuration that loads is well formed: the port and the three timeouts are inside their
  windows, the three secrets are long, are no placeholders and differ pairwise, the audience and
  the host list are usable, and the private URL is an absolute URL of the MCP endpoint without
  credentials, query, fragment or port 0, that uses plain HTTP only where the operator allowed it. The window in which a silent instance
  counts as live is never shorter than five heartbeats, and never longer than an hour.
\<close>

theorem from_env_well_formed:
  assumes "from_env env = Inr c"
  shows "config_ok c \<and> 75 \<le> config_stale_seconds c \<and> config_stale_seconds c \<le> 3600"
  using from_env_config_ok [OF assms] stale_window by blast

text \<open>A complete environment, and what it loads to.\<close>

definition sample_env :: env where
  "sample_env = map_of
     [(''REMOTE_AGENT_HUB_AUDIENCE'', ''hub''), (''REMOTE_AGENT_ALLOWED_HOSTS'', '' relay.example , ''),
      (''REMOTE_AGENT_MCP_BEARER_TOKEN'', replicate 32 (CHR ''a'')),
      (''REMOTE_AGENT_HUB_DELEGATION_SECRET'', replicate 32 (CHR ''b'')),
      (''REMOTE_AGENT_OPERATOR_BEARER_TOKEN'', replicate 32 (CHR ''c'')),
      (''REMOTE_AGENT_DATABASE_URL'', ''postgresql://db/agents''),
      (''REMOTE_AGENT_PRIVATE_MCP_URL'', ''https://relay.example:8443/mcp'')]"

lemma sample_env_loads: "\<not> isl (from_env sample_env)"
  by code_simp

theorem from_env_well_formed_witness:
  "\<exists>c. from_env sample_env = Inr c \<and> config_ok c \<and> 75 \<le> config_stale_seconds c"
proof -
  from sample_env_loads obtain c where c: "from_env sample_env = Inr c" by (metis isl_def sum.exhaust)
  from from_env_well_formed [OF c] c show ?thesis by blast
qed

text \<open>
  The check of the private URL is more generous than its message says: parameters after the
  path and repeated slashes pass it.
\<close>

lemma lenient_mcp_urls:
  "validate_http_url ''https://relay.example/mcp;v=1'' False = Inr ''https://relay.example/mcp;v=1''"
  "validate_http_url ''https://relay.example/mcp///'' False = Inr ''https://relay.example/mcp///''"
  by code_simp+

text \<open>A URL with an unbalanced bracket is not reported as a configuration error but raises.\<close>

lemma bracket_escapes: "validate_http_url ''https://[::1/mcp'' False = Inl ValueError"
  by code_simp

end
