(* ===== verification/PyTime.thy ===== *)
theory PyTime
  imports PyCodec "HOL-Library.Product_Lexorder"
begin

text \<open>
  The UTC part of Python's \<open>datetime\<close>: a time is a number of microseconds since the epoch,
  a date the count of days since 1 January of year 1, and \<open>isoformat\<close> the text the store and
  the certificate reports carry. The theory shows that texts of whole seconds compare as the
  times they name, which is what lets the store compare them as text.
\<close>

section \<open>The calendar\<close>

definition days_before_year :: "int \<Rightarrow> int" where
  "days_before_year y = 365 * (y - 1) + (y - 1) div 4 - (y - 1) div 100 + (y - 1) div 400"

definition is_leap :: "int \<Rightarrow> bool" where
  "is_leap y = (y mod 4 = 0 \<and> (y mod 100 \<noteq> 0 \<or> y mod 400 = 0))"

definition month_lengths :: "bool \<Rightarrow> int list" where
  "month_lengths leap = [31, if leap then 29 else 28, 31, 30, 31, 30, 31, 31, 30, 31, 30, 31]"

lemma div_step:
  assumes "0 < (k::int)"
  shows "y div k = (y - 1) div k + (if y mod k = 0 then 1 else 0)"
proof (cases "y mod k = 0")
  case True
  then obtain q where q: "y = k * q" by (metis mod_0_imp_dvd dvdE)
  have "k * q - 1 = k * (q - 1) + (k - 1)" by (simp add: right_diff_distrib)
  from int_div_pos_eq [OF this] assms True q show ?thesis by simp
next
  case False
  define q r where "q = y div k" and "r = y mod k"
  have r: "0 \<le> r" "r < k" "r \<noteq> 0" using assms False by (simp_all add: r_def)
  have "y = k * q + r" by (simp add: q_def r_def)
  then have "y - 1 = k * q + (r - 1)" by simp
  from int_div_pos_eq [OF this] r have "(y - 1) div k = q" by linarith
  with False show ?thesis by (simp add: q_def)
qed

lemma leap_divisors:
  "(y::int) mod 100 = 0 \<Longrightarrow> y mod 4 = 0" "(y::int) mod 400 = 0 \<Longrightarrow> y mod 100 = 0"
  by (auto simp: mod_eq_0_iff_dvd elim: dvd_trans [rotated])

lemma days_before_year_step: "days_before_year (y + 1) = days_before_year y + (if is_leap y then 366 else 365)"
proof -
  have gen: "365 * y + A - B + C = 365 * (y - 1) + a - b + c + (if p \<and> (\<not> q \<or> r) then 366 else 365)"
    if "A = a + (if p then 1 else 0)" "B = b + (if q then 1 else 0)" "C = c + (if r then 1 else 0)"
      "q \<longrightarrow> p" "r \<longrightarrow> q" for A B C a b c :: int and p q r
    using that by (cases p; cases q; cases r; simp)
  have "365 * y + y div 4 - y div 100 + y div 400
      = 365 * (y - 1) + (y - 1) div 4 - (y - 1) div 100 + (y - 1) div 400 + (if is_leap y then 366 else 365)"
    unfolding is_leap_def
    by (rule gen [OF div_step div_step div_step]) (rule zero_less_numeral impI leap_divisors, assumption?)+
  then show ?thesis by (simp only: days_before_year_def add_diff_cancel_right')
qed

lemma days_before_year_less: "days_before_year y < days_before_year (y + 1)"
  by (simp add: days_before_year_step)

lemma days_before_year_mono: "y \<le> z \<Longrightarrow> days_before_year y \<le> days_before_year z"
proof (induction z rule: int_ge_induct)
  case (step z)
  then show ?case using days_before_year_step [of z] by (simp split: if_splits)
qed simp

text \<open>The year of a day, searched upward from a year that is not too late.\<close>

function year_from :: "int \<Rightarrow> int \<Rightarrow> int" where
  "year_from y n = (if n < days_before_year (y + 1) then y else year_from (y + 1) n)"
  by pat_completeness auto
termination
proof (relation "measure (\<lambda>(y, n). nat (n + 1 - days_before_year y))")
  fix y n assume "\<not> n < days_before_year (y + 1)"
  with days_before_year_less [of y]
  show "((y + 1, n), (y, n)) \<in> measure (\<lambda>(y, n). nat (n + 1 - days_before_year y))" by auto
qed simp

declare year_from.simps [simp del]

fun month_from :: "int \<Rightarrow> int list \<Rightarrow> int \<Rightarrow> int \<times> int" where
  "month_from m [] d = (m, d + 1)"
| "month_from m (len # lens) d = (if d < len then (m, d + 1) else month_from (m + 1) lens (d - len))"

definition ymd_of_day :: "int \<Rightarrow> int \<times> int \<times> int" where
  "ymd_of_day n =
     (let y = year_from (n div 366 + 1) n in (y, month_from 1 (month_lengths (is_leap y)) (n - days_before_year y)))"

section \<open>isoformat\<close>

definition EPOCH_DAY :: int where
  "EPOCH_DAY = 719162"

definition pad :: "nat \<Rightarrow> int \<Rightarrow> string" where
  "pad w i = (let s = show_nat (nat i) in replicate (w - length s) (CHR ''0'') @ s)"

definition date_time_text :: "int \<Rightarrow> string" where
  "date_time_text secs =
     (case ymd_of_day (EPOCH_DAY + secs div 86400) of (y, m, d) \<Rightarrow>
        let r = secs mod 86400 in
        pad 4 y @ ''-'' @ pad 2 m @ ''-'' @ pad 2 d @ ''T'' @
        pad 2 (r div 3600) @ '':'' @ pad 2 (r div 60 mod 60) @ '':'' @ pad 2 (r mod 60))"

text \<open>\<open>isoformat(timespec="seconds")\<close> of a whole number of seconds, and \<open>isoformat()\<close> of a time.\<close>

definition isoformat_seconds :: "int \<Rightarrow> string" where
  "isoformat_seconds secs = date_time_text secs @ ''+00:00''"

definition isoformat :: "int \<Rightarrow> string" where
  "isoformat t =
     (let us = t mod 1000000 in
      date_time_text (t div 1000000) @ (if us = 0 then [] else ''.'' @ pad 6 us) @ ''+00:00'')"

text \<open>The range of Python's \<open>datetime\<close>: years 1 to 9999.\<close>

definition in_range :: "int \<Rightarrow> bool" where
  "in_range secs \<longleftrightarrow> - (EPOCH_DAY * 86400) \<le> secs \<and> secs < (3652059 - EPOCH_DAY) * 86400"

section \<open>Dates in order\<close>

lemma year_from_spec:
  "days_before_year y \<le> n \<Longrightarrow> y \<le> year_from y n \<and> days_before_year (year_from y n) \<le> n
     \<and> n < days_before_year (year_from y n + 1)"
proof (induction y n rule: year_from.induct)
  case (1 y n)
  then show ?case by (cases "n < days_before_year (y + 1)") (auto simp: year_from.simps [of y n])
qed

definition year_of :: "int \<Rightarrow> int" where
  "year_of n = year_from (n div 366 + 1) n"

lemma year_of_spec:
  assumes "0 \<le> n"
  shows "1 \<le> year_of n \<and> days_before_year (year_of n) \<le> n \<and> n < days_before_year (year_of n + 1)"
proof -
  define q where "q = n div 366"
  have q: "0 \<le> q" "366 * q \<le> n" using assms by (simp_all add: q_def)
  have "q div 4 \<le> q" using zdiv_mono2 [of q 1 4] q(1) by simp
  moreover have "q div 400 \<le> q div 100" using q(1) by (intro zdiv_mono2) auto
  moreover have "days_before_year (q + 1) = 365 * q + q div 4 - q div 100 + q div 400"
    by (simp add: days_before_year_def)
  moreover have "365 * q + a - b + c \<le> n" if "a \<le> q" "c \<le> b" for a b c using that q(2) by linarith
  ultimately have "days_before_year (q + 1) \<le> n" by (simp only:)
  from year_from_spec [OF this] q(1) show ?thesis unfolding year_of_def q_def by auto
qed

lemma year_of_mono:
  assumes "0 \<le> n" and "n \<le> n'"
  shows "year_of n \<le> year_of n'"
proof (rule ccontr)
  assume "\<not> year_of n \<le> year_of n'"
  then have "days_before_year (year_of n' + 1) \<le> days_before_year (year_of n)"
    by (intro days_before_year_mono) simp
  with assms year_of_spec [of n] year_of_spec [of n'] show False by linarith
qed

lemma month_from_bounds:
  assumes "0 \<le> d" and "d < sum_list lens" and "\<forall>l \<in> set lens. l \<le> 31"
  shows "m \<le> fst (month_from m lens d) \<and> fst (month_from m lens d) < m + int (length lens)
    \<and> 1 \<le> snd (month_from m lens d) \<and> snd (month_from m lens d) \<le> 31"
  using assms by (induction m lens d rule: month_from.induct) force+

lemma month_from_ge: "m \<le> fst (month_from m lens d)"
  by (induction m lens d rule: month_from.induct) auto

lemma month_from_less: "d < d' \<Longrightarrow> month_from m lens d < month_from m lens d'"
proof (induction m lens d arbitrary: d' rule: month_from.induct)
  case (2 m len lens d)
  show ?case
  proof (cases "d < len")
    case True
    with 2(2) month_from_ge [of "m + 1" lens "d' - len"] show ?thesis
      by (cases "month_from (m + 1) lens (d' - len)") auto
  next
    case False
    with 2(1) [of "d' - len"] 2(2) show ?thesis by simp
  qed
qed simp


lemma sum_month_lengths: "sum_list (month_lengths (is_leap y)) = days_before_year (y + 1) - days_before_year y"
  by (simp add: month_lengths_def days_before_year_step)

lemma ymd_of_day_year: "ymd_of_day n =
  (year_of n, month_from 1 (month_lengths (is_leap (year_of n))) (n - days_before_year (year_of n)))"
  by (simp add: ymd_of_day_def year_of_def Let_def)

lemma ymd_of_day_less: "0 \<le> n \<Longrightarrow> n < n' \<Longrightarrow> ymd_of_day n < ymd_of_day n'"
  using year_of_mono [of n n'] month_from_less [of "n - days_before_year (year_of n)" "n' - days_before_year (year_of n)"]
  by (auto simp: ymd_of_day_year less_le)

lemma ymd_of_day_bounds:
  assumes "0 \<le> n" and "n < 3652059" and "ymd_of_day n = (y, m, d)"
  shows "1 \<le> y \<and> y < 10000 \<and> 1 \<le> m \<and> m < 100 \<and> 1 \<le> d \<and> d < 100"
proof -
  note spec = year_of_spec [OF assms(1)]
  have "year_of n < 10000"
  proof (rule ccontr)
    assume "\<not> year_of n < 10000"
    then have "days_before_year 10000 \<le> days_before_year (year_of n)" by (intro days_before_year_mono) simp
    moreover have "days_before_year 10000 = 3652059" by (simp add: days_before_year_def)
    ultimately show False using spec assms(2) by simp
  qed
  moreover have "n - days_before_year (year_of n) < sum_list (month_lengths (is_leap (year_of n)))"
    using spec by (simp add: sum_month_lengths)
  with spec month_from_bounds [of "n - days_before_year (year_of n)" "month_lengths (is_leap (year_of n))" 1]
  have "1 \<le> m \<and> m < 100 \<and> 1 \<le> d \<and> d < 100"
    using assms(3) by (auto simp: ymd_of_day_year month_lengths_def split: if_splits)
  ultimately show ?thesis using spec assms(3) by (simp add: ymd_of_day_year)
qed

section \<open>Texts in order\<close>

lemma append_less_append:
  fixes u u' v v' :: string
  shows "length u = length u' \<Longrightarrow> u @ v < u' @ v' \<longleftrightarrow> u < u' \<or> u = u' \<and> v < v'"
  by (induction u u' rule: list_induct2) auto

lemma digit_char_less: "d < 10 \<Longrightarrow> e < 10 \<Longrightarrow> digit_char d < digit_char e \<longleftrightarrow> d < e"
  by (simp add: digit_char_def less_char_def)

lemma pad_1: "0 \<le> i \<Longrightarrow> i < 10 \<Longrightarrow> pad 1 i = [digit_char (nat i)]"
  by (simp add: pad_def show_nat.simps)

lemma length_show_nat_le: "n < 10 ^ w \<Longrightarrow> 0 < w \<Longrightarrow> length (show_nat n) \<le> w"
proof (induction n arbitrary: w rule: show_nat.induct)
  case (1 n)
  show ?case
  proof (cases "n < 10")
    case False
    from "1.prems" obtain v where v: "w = Suc v" by (cases w) auto
    with "1.prems" False have "0 < v" "n div 10 < 10 ^ v"
      by (auto intro!: gr0I simp: less_mult_imp_div_less mult.commute)
    note v this
    with "1.IH" False show ?thesis by (subst show_nat.simps) simp
  qed (use "1.prems" in \<open>simp add: show_nat.simps\<close>)
qed

lemma pad_Suc:
  assumes "0 < w" and "0 \<le> i" and "i < 10 ^ Suc w"
  shows "pad (Suc w) i = pad w (i div 10) @ [digit_char (nat (i mod 10))]"
proof (cases "i < 10")
  case True
  with assms have "i div 10 = 0" "i mod 10 = i" "nat i < 10" by simp_all
  moreover have "show_nat 0 = ''0''" by code_simp
  moreover have "replicate (w - Suc 0) c @ [c] = replicate w c" for c :: char
    using assms(1) by (metis Suc_pred replicate_append_same replicate_Suc)
  ultimately show ?thesis using assms(1)
    by (simp add: pad_def show_nat.simps [of "nat i"] del: append_assoc)
next
  case False
  with assms(2) have "show_nat (nat i) = show_nat (nat (i div 10)) @ [digit_char (nat (i mod 10))]"
    by (subst show_nat.simps) (simp add: nat_div_distrib nat_mod_distrib)
  then show ?thesis by (simp add: pad_def Let_def)
qed

lemma div_mod_less:
  assumes "0 < k" and "(a::int) < b"
  shows "a div k < b div k \<or> a div k = b div k \<and> a mod k < b mod k"
proof -
  have "a div k \<le> b div k" using assms by (simp add: zdiv_mono1)
  moreover have "a mod k < b mod k" if "a div k = b div k"
    using assms(2) that by (metis add_less_cancel_left mult_div_mod_eq)
  ultimately show ?thesis by linarith
qed

lemma pad_less:
  "0 < w \<Longrightarrow> 0 \<le> i \<Longrightarrow> i < 10 ^ w \<Longrightarrow> 0 \<le> j \<Longrightarrow> j < 10 ^ w \<Longrightarrow>
   length (pad w i) = w \<and> (pad w i < pad w j \<longleftrightarrow> i < j)"
proof (induction w arbitrary: i j)
  case (Suc w)
  show ?case
  proof (cases "w = 0")
    case True
    with Suc.prems show ?thesis using pad_1 [of i] pad_1 [of j] digit_char_less [of "nat i" "nat j"] by auto
  next
    case False
    have IH: "length (pad w (i div 10)) = w \<and> (pad w (i div 10) < pad w (j div 10) \<longleftrightarrow> i div 10 < j div 10)"
      "length (pad w (j div 10)) = w" "pad w (j div 10) < pad w (i div 10) \<longleftrightarrow> j div 10 < i div 10"
      using Suc.IH [of "i div 10" "j div 10"] Suc.IH [of "j div 10" "i div 10"] Suc.prems False by auto
    have digit: "digit_char (nat (i mod 10)) < digit_char (nat (j mod 10)) \<longleftrightarrow> i mod 10 < j mod 10"
      using digit_char_less [of "nat (i mod 10)" "nat (j mod 10)"] pos_mod_sign [of 10 i] by auto
    have "i < j \<longleftrightarrow> i div 10 < j div 10 \<or> i div 10 = j div 10 \<and> i mod 10 < j mod 10"
      using div_mod_less [of 10 i j] div_mod_less [of 10 j i] by (cases i j rule: linorder_cases) auto
    then show ?thesis
      using IH digit pad_Suc [of w i] pad_Suc [of w j] Suc.prems False
      by (simp add: append_less_append) (metis linorder_neq_iff)
  qed
qed simp


lemma pad_append_less:
  assumes "0 < w" and "0 \<le> i" and "i < 10 ^ w" and "0 \<le> j" and "j < 10 ^ w"
  shows "pad w i @ u < pad w j @ v \<longleftrightarrow> i < j \<or> i = j \<and> u < v"
  using pad_less [OF assms] pad_less [OF assms(1,4,5,2,3)]
  by (simp add: append_less_append) (metis linorder_neq_iff)

lemma div_mod_lex:
  assumes "0 < k" and "0 < l" and "(a::int) < b"
  shows "(a div k div l, a div k mod l, a mod k) < (b div k div l, b div k mod l, b mod k)"
  using div_mod_less [OF assms(1,3)] div_mod_less [OF assms(2), of "a div k" "b div k"] by auto

text \<open>The six numbers of a time, in the order of the text.\<close>

type_synonym clock_fields = "(int \<times> int \<times> int) \<times> int \<times> int \<times> int"

definition clock_fields :: "int \<Rightarrow> clock_fields" where
  "clock_fields secs =
     (let r = secs mod 86400 in
      (ymd_of_day (EPOCH_DAY + secs div 86400), r div 3600, r div 60 mod 60, r mod 60))"

fun fields_text :: "clock_fields \<Rightarrow> string" where
  "fields_text ((y, m, d), h, mi, s) =
     pad 4 y @ ''-'' @ pad 2 m @ ''-'' @ pad 2 d @ ''T'' @ pad 2 h @ '':'' @ pad 2 mi @ '':'' @ pad 2 s"

fun fields_ok :: "clock_fields \<Rightarrow> bool" where
  "fields_ok ((y, m, d), h, mi, s) \<longleftrightarrow> 0 \<le> y \<and> y < 10000 \<and> (\<forall>x \<in> {m, d, h, mi, s}. 0 \<le> x \<and> x < 100)"

lemma date_time_text_fields: "date_time_text secs = fields_text (clock_fields secs)"
  by (simp add: date_time_text_def clock_fields_def Let_def split: prod.split)

lemma fields_text_less: "fields_ok f \<Longrightarrow> fields_ok g \<Longrightarrow> f < g \<Longrightarrow> fields_text f @ u < fields_text g @ v"
  by (cases f rule: fields_ok.cases; cases g rule: fields_ok.cases) (auto simp: pad_append_less)

lemma in_range_day:
  assumes "in_range s"
  shows "0 \<le> EPOCH_DAY + s div 86400 \<and> EPOCH_DAY + s div 86400 < 3652059"
  using assms zdiv_mono1 [of "- 62135596800" s 86400] zdiv_mono1 [of s 253402300799 86400]
  by (simp add: in_range_def EPOCH_DAY_def)

lemma clock_fields_ok:
  assumes "in_range s"
  shows "fields_ok (clock_fields s)"
proof -
  note day = in_range_day [OF assms, THEN conjunct1] in_range_day [OF assms, THEN conjunct2]
  define r where "r = s mod 86400"
  have "0 \<le> r" "r < 86400" by (simp_all add: r_def)
  then have time: "0 \<le> r div 3600" "r div 3600 < 100" "0 \<le> r div 60 mod 60" "r div 60 mod 60 < 100"
    "0 \<le> r mod 60" "r mod 60 < 100"
    by (simp_all add: order.strict_trans [OF pos_mod_bound])
  from time ymd_of_day_bounds [OF day] show ?thesis
    unfolding clock_fields_def Let_def r_def [symmetric]
    by (cases "ymd_of_day (EPOCH_DAY + s div 86400)") auto
qed

lemma clock_fields_less:
  assumes "in_range s" and "s < s'"
  shows "clock_fields s < clock_fields s'"
proof -
  note day = in_range_day [OF assms(1), THEN conjunct1]
  show ?thesis
  proof (cases "s div 86400 = s' div 86400")
    case True
    define r r' where "r = s mod 86400" and "r' = s' mod 86400"
    have "r < r'" using div_mod_less [OF _ assms(2), of 86400] True by (simp add: r_def r'_def)
    then have "(r div 60 div 60, r div 60 mod 60, r mod 60) < (r' div 60 div 60, r' div 60 mod 60, r' mod 60)"
      by (rule div_mod_lex [rotated -1]) simp_all
    moreover have hour: "x div 3600 = x div 60 div 60" for x :: int using zdiv_zmult2_eq [of 60 x 60] by simp
    ultimately show ?thesis
      unfolding clock_fields_def Let_def r_def [symmetric] r'_def [symmetric] True hour less_prod_simp by blast
  next
    case False
    then have "s div 86400 < s' div 86400" using div_mod_less [OF _ assms(2), of 86400] by auto
    with ymd_of_day_less [OF day] show ?thesis unfolding clock_fields_def Let_def less_prod_simp by simp
  qed
qed

lemma date_time_text_less:
  "in_range s \<Longrightarrow> in_range s' \<Longrightarrow> s < s' \<Longrightarrow> date_time_text s @ u < date_time_text s' @ v"
  by (simp add: date_time_text_fields fields_text_less clock_fields_ok clock_fields_less)

lemma isoformat_seconds_less: "in_range s \<Longrightarrow> in_range s' \<Longrightarrow> isoformat_seconds s < isoformat_seconds s' \<longleftrightarrow> s < s'"
  using date_time_text_less [of s s'] date_time_text_less [of s' s]
  unfolding isoformat_seconds_def by (metis linorder_neq_iff order.asym)


lemma isoformat_seconds_inj: "in_range s \<Longrightarrow> in_range s' \<Longrightarrow> isoformat_seconds s = isoformat_seconds s' \<longleftrightarrow> s = s'"
  using isoformat_seconds_less [of s s'] isoformat_seconds_less [of s' s] by (metis less_irrefl linorder_neq_iff)

end
