(* ===== verification/Certificates.thy ===== *)
theory Certificates
  imports Protocol PyNet PyTime "HOL-Library.Code_Target_Nat"
begin

text \<open>
  \<open>remote_agent_connector/tls_publication.py\<close> and \<open>remote_agent_connector/certificate_authority.py\<close>:
  publishing the relay CA certificate, and signing the certificate request of a relay. The
  \<open>cryptography\<close> package is a parameter: a certificate, a request and a key are the records of
  what the code reads off them, and loading, signing and SHA-256 are functions
  (\<open>check_template\<close> stands for the builder's own checks of what it is told). Reading an
  extension gives its value or the exception of \<open>get_extension_for_class\<close>.
\<close>

section \<open>What the code sees of certificates and keys\<close>

datatype key_kind = RsaKey int | EcKey int | EdwardsKey | OtherKey

record public_key =
  pk_kind :: key_kind
  pk_raw :: bytes
  pk_spki :: bytes

record private_key =
  sk_edwards :: bool
  sk_public :: public_key
  sk_secret :: bytes

text \<open>A distinguished name is its list of attributes.\<close>

type_synonym x509_name = "(string \<times> string) list"

record certificate =
  ct_pem :: bytes
  ct_der :: bytes
  ct_subject :: x509_name
  ct_issuer :: x509_name
  ct_not_before :: int
  ct_not_after :: int
  ct_public_key :: public_key
  ct_basic_ca :: "bool res"
  ct_key_cert_sign :: "bool res"
  ct_ip_names :: "ip list res"
  ct_eku :: "string list res"

record csr =
  cr_signature_valid :: bool
  cr_subject :: x509_name
  cr_public_key :: "public_key res"
  cr_ip_names :: "ip list res"
  cr_basic_ca :: "bool res"
  cr_eku :: "string list res"

datatype key_usage_flag =
    DigitalSignature | ContentCommitment | KeyEncipherment | DataEncipherment | KeyAgreement
  | KeyCertSign | CrlSign | EncipherOnly | DecipherOnly

text \<open>What \<open>CertificateBuilder\<close> is told before it signs.\<close>

record template =
  tp_subject :: x509_name
  tp_issuer :: x509_name
  tp_public_key :: public_key
  tp_serial :: int
  tp_not_before :: int
  tp_not_after :: int
  tp_basic_ca :: bool
  tp_key_usage :: "key_usage_flag list"
  tp_eku :: "string list"
  tp_ip_names :: "ip list"

datatype signing_hash_algorithm = SHA256

text \<open>The package, the files of the host, and SHA-256.\<close>

record x509_library =
  read_file :: "string \<Rightarrow> bytes res"
  load_certificate_pem :: "bytes \<Rightarrow> certificate res"
  load_key_pem :: "bytes \<Rightarrow> private_key res"
  load_csr_pem :: "bytes \<Rightarrow> csr res"
  rfc4514 :: "x509_name \<Rightarrow> string"
  sha256 :: "bytes \<Rightarrow> bytes"
  check_template :: "template \<Rightarrow> unit res"
  sign_template :: "template \<Rightarrow> private_key \<Rightarrow> signing_hash_algorithm option \<Rightarrow> certificate res"

definition SERVER_AUTH :: string where "SERVER_AUTH = ''1.3.6.1.5.5.7.3.1''"
definition CLIENT_AUTH :: string where "CLIENT_AUTH = ''1.3.6.1.5.5.7.3.2''"

section \<open>Shared pieces\<close>

text \<open>\<open>except (A, B, ...): raise e\<close>: the exceptions that satisfy \<open>p\<close> become \<open>e\<close>.\<close>

definition catchR :: "(exn \<Rightarrow> bool) \<Rightarrow> exn \<Rightarrow> 'a res \<Rightarrow> 'a res" where
  "catchR p e m = (case m of Inl x \<Rightarrow> if p x then Inl e else Inl x | Inr v \<Rightarrow> Inr v)"

lemma catchR_eq_Inr [simp]: "catchR p e m = Inr v \<longleftrightarrow> m = Inr v"
  by (auto simp: catchR_def split: sum.split)

lemma catchR_eq_Inl: "catchR p e m = Inl x \<longleftrightarrow> (\<exists>y. m = Inl y \<and> x = (if p y then e else y))"
  by (auto simp: catchR_def split: sum.split)

definition hex_upper :: "nat \<Rightarrow> char" where
  "hex_upper d = (if d < 10 then char_of (48 + d) else char_of (55 + d))"

definition fingerprint_sha256 :: "x509_library \<Rightarrow> bytes \<Rightarrow> string" where
  "fingerprint_sha256 lib value =
     py_join '':'' (map (\<lambda>b. [hex_upper (b div 16), hex_upper (b mod 16)]) (sha256 lib value))"

text \<open>\<open>bytes.decode("ascii")\<close> and \<open>str.encode("ascii")\<close>; both raise a \<open>UnicodeError\<close>, a \<open>ValueError\<close>.\<close>

definition ascii_decode :: "bytes \<Rightarrow> string res" where
  "ascii_decode b = (if list_all (\<lambda>x. x < 128) b then Inr (map char_of b) else Inl ValueError)"

definition ascii_encode :: "string \<Rightarrow> bytes res" where
  "ascii_encode s = (if list_all (\<lambda>c. code c < 128) s then Inr (map of_char s) else Inl ValueError)"

text \<open>\<open>bytes.strip()\<close> removes ASCII white space.\<close>

definition bytes_strip :: "bytes \<Rightarrow> bytes" where
  "bytes_strip b = (let ws = (\<lambda>x. x \<in> set [9, 10, 11, 12, 13, 32]) in
     rev (dropWhile ws (rev (dropWhile ws b))))"

definition bytes_of :: "string \<Rightarrow> bytes" where
  "bytes_of s = map of_char s"

section \<open>Publishing the CA certificate\<close>

definition RELAY_CA_PUBLICATION_CONTRACT :: string where
  "RELAY_CA_PUBLICATION_CONTRACT = ''business-mcp-remote-agent-ca-publication-v1''"

definition MAX_PUBLIC_CA_ARTIFACT_BYTES :: int where
  "MAX_PUBLIC_CA_ARTIFACT_BYTES = 128 * 1024"

definition artifact_unconfigured :: exn where
  "artifact_unconfigured =
     RelayCaArtifactError ''relay_ca_artifact_unconfigured'' ''Relay CA publication is not configured.''"

definition artifact_unavailable :: exn where
  "artifact_unavailable =
     RelayCaArtifactError ''relay_ca_artifact_unavailable'' ''Relay CA certificate is not available.''"

definition artifact_invalid :: exn where
  "artifact_invalid =
     RelayCaArtifactError ''relay_ca_artifact_invalid'' ''Relay CA certificate artifact is invalid.''"

definition is_os_or_value_error :: "exn \<Rightarrow> bool" where
  "is_os_or_value_error e = (e = OSError \<or> is_value_error e)"

definition one_artifact :: "bytes \<Rightarrow> bool" where
  "one_artifact raw =
     (int (length raw) \<le> MAX_PUBLIC_CA_ARTIFACT_BYTES
      \<and> count_of (bytes_of ''-----BEGIN CERTIFICATE-----'') raw = 1
      \<and> \<not> occurs_in (bytes_of ''PRIVATE KEY'') raw)"

definition normal_lines :: "bytes \<Rightarrow> bytes" where
  "normal_lines b = bytes_strip (replace_all [13, 10] [10] b)"

definition load_public_ca_artifact :: "x509_library \<Rightarrow> string option \<Rightarrow> fields res" where
  "load_public_ca_artifact lib path =
     (if path = None \<or> path = Some [] then Inl artifact_unconfigured
      else
        bindR (catchR is_os_or_value_error artifact_unavailable (read_file lib (the path))) (\<lambda>raw.
        bindR (requireR (one_artifact raw) artifact_invalid) (\<lambda>_.
        bindR (catchR (\<lambda>e. is_value_error e \<or> e = ExtensionNotFound) artifact_invalid
                 (bindR (load_certificate_pem lib raw) (\<lambda>certificate.
                  bindR (ct_basic_ca certificate) (\<lambda>ca. Inr (certificate, ca))))) (\<lambda>(certificate, ca).
        bindR (requireR (normal_lines raw = normal_lines (ct_pem certificate)) artifact_invalid) (\<lambda>_.
        bindR (requireR ca artifact_invalid) (\<lambda>_.
        bindR (ascii_decode (ct_pem certificate)) (\<lambda>pem.
        Inr [(''contract'', JStr RELAY_CA_PUBLICATION_CONTRACT), (''certificate_pem'', JStr pem),
             (''sha256_fingerprint'', JStr (fingerprint_sha256 lib (ct_der certificate))),
             (''subject'', JStr (rfc4514 lib (ct_subject certificate))),
             (''issuer'', JStr (rfc4514 lib (ct_issuer certificate))),
             (''not_before'', JStr (isoformat (ct_not_before certificate))),
             (''not_after'', JStr (isoformat (ct_not_after certificate))), (''ca'', JBool True)])))))))"

section \<open>The signing material\<close>

definition RELAY_CERT_ISSUANCE_CONTRACT :: string where
  "RELAY_CERT_ISSUANCE_CONTRACT = ''business-mcp-remote-agent-relay-certificate-v1''"

definition MAX_CSR_BYTES :: int where "MAX_CSR_BYTES = 32 * 1024"
definition MIN_LEAF_VALIDITY_DAYS :: int where "MIN_LEAF_VALIDITY_DAYS = 1"
definition MAX_LEAF_VALIDITY_DAYS :: int where "MAX_LEAF_VALIDITY_DAYS = 397"

definition signing_hash :: "private_key \<Rightarrow> signing_hash_algorithm option" where
  "signing_hash k = (if sk_edwards k then None else Some SHA256)"

definition public_bytes :: "public_key \<Rightarrow> bytes" where
  "public_bytes k = (if pk_kind k = EdwardsKey then pk_raw k else pk_spki k)"

definition is_load_error :: "exn \<Rightarrow> bool" where
  "is_load_error e = (e = OSError \<or> is_value_error e \<or> e = TypeError)"

definition signer_invalid :: exn where
  "signer_invalid = RelayCertificateError ''relay_ca_signer_invalid'' ''Relay CA signer material is invalid.''"

definition load_certificate :: "x509_library \<Rightarrow> string option \<Rightarrow> certificate res" where
  "load_certificate lib path =
     (if path = None \<or> path = Some []
      then Inl (RelayCertificateError ''relay_ca_signer_unconfigured'' ''Relay CA certificate is not configured.'')
      else catchR is_load_error
             (RelayCertificateError ''relay_ca_signer_unavailable'' ''Relay CA certificate is not available.'')
             (bindR (read_file lib (the path)) (load_certificate_pem lib)))"

definition load_private_key :: "x509_library \<Rightarrow> string option \<Rightarrow> private_key res" where
  "load_private_key lib path =
     (if path = None \<or> path = Some []
      then Inl (RelayCertificateError ''relay_ca_signer_unconfigured'' ''Relay CA private key is not configured.'')
      else catchR is_load_error
             (RelayCertificateError ''relay_ca_signer_unavailable'' ''Relay CA private key is not available.'')
             (bindR (read_file lib (the path)) (load_key_pem lib)))"

text \<open>\<open>now\<close> is the caller's time, \<open>clock\<close> the reading taken when there is none.\<close>

definition load_signing_material ::
    "x509_library \<Rightarrow> string option \<Rightarrow> string option \<Rightarrow> int option \<Rightarrow> int \<Rightarrow> (certificate \<times> private_key) res" where
  "load_signing_material lib certificate_path private_key_path now clock =
     bindR (load_certificate lib certificate_path) (\<lambda>certificate.
     bindR (load_private_key lib private_key_path) (\<lambda>private_key.
     bindR (catchR (\<lambda>e. e = ExtensionNotFound) signer_invalid
              (bindR (ct_basic_ca certificate) (\<lambda>ca.
               bindR (ct_key_cert_sign certificate) (\<lambda>sign. Inr (ca, sign))))) (\<lambda>(ca, key_cert_sign).
     let current = (case now of Some t \<Rightarrow> t | None \<Rightarrow> clock) in
     if \<not> ca \<or> \<not> key_cert_sign \<or> current < ct_not_before certificate \<or> ct_not_after certificate \<le> current
        \<or> public_bytes (ct_public_key certificate) \<noteq> public_bytes (sk_public private_key)
     then Inl signer_invalid
     else Inr (certificate, private_key))))"

section \<open>Reports\<close>

definition certificate_metadata :: "x509_library \<Rightarrow> certificate \<Rightarrow> fields res" where
  "certificate_metadata lib certificate =
     bindR (ascii_decode (ct_pem certificate)) (\<lambda>pem.
     Inr [(''certificate_pem'', JStr pem),
          (''sha256_fingerprint'', JStr (fingerprint_sha256 lib (ct_der certificate))),
          (''subject'', JStr (rfc4514 lib (ct_subject certificate))),
          (''issuer'', JStr (rfc4514 lib (ct_issuer certificate))),
          (''not_before'', JStr (isoformat (ct_not_before certificate))),
          (''not_after'', JStr (isoformat (ct_not_after certificate)))])"

definition certificate_invalid :: exn where
  "certificate_invalid = RelayCertificateError ''relay_certificate_invalid'' ''Relay certificate is invalid.''"

definition relay_certificate_status :: "x509_library \<Rightarrow> string \<Rightarrow> string \<Rightarrow> string \<Rightarrow> fields res" where
  "relay_certificate_status lib certificate_path certificate_authority_path relay_ip =
     bindR (catchR is_load_error
              (RelayCertificateError ''relay_certificate_unavailable'' ''Relay certificate is not available.'')
              (bindR (bindR (read_file lib certificate_path) (load_certificate_pem lib)) (\<lambda>leaf.
               bindR (load_certificate lib (Some certificate_authority_path)) (\<lambda>authority.
               Inr (leaf, authority))))) (\<lambda>(leaf, authority).
     bindR (catchR (\<lambda>e. e = ExtensionNotFound) certificate_invalid
              (bindR (ct_basic_ca leaf) (\<lambda>ca.
               bindR (ct_ip_names leaf) (\<lambda>names.
               bindR (ct_eku leaf) (\<lambda>eku. Inr (ca, names, eku)))))) (\<lambda>(ca, names, eku).
     bindR (requireR (\<not> ca) certificate_invalid) (\<lambda>_.
     bindR (case ip_address relay_ip of None \<Rightarrow> Inl ValueError | Some ip \<Rightarrow> Inr ip) (\<lambda>ip.
     bindR (requireR (names = [ip] \<and> SERVER_AUTH \<in> set eku \<and> ct_issuer leaf = ct_subject authority)
              certificate_invalid) (\<lambda>_.
     bindR (certificate_metadata lib leaf) (\<lambda>meta.
     Inr (meta @ [(''relay_ip'', JStr relay_ip),
                  (''ca_sha256_fingerprint'', JStr (fingerprint_sha256 lib (ct_der authority))),
                  (''basic_constraints_ca'', JBool False), (''server_auth'', JBool True)])))))))"

section \<open>Signing a request\<close>

definition csr_invalid :: "string \<Rightarrow> exn" where
  "csr_invalid m = RelayCertificateError ''relay_csr_invalid'' m"

definition csr_text_ok :: "string \<Rightarrow> bool" where
  "csr_text_ok encoded =
     (encoded \<noteq> [] \<and> int (length (utf8_encode encoded)) \<le> MAX_CSR_BYTES
      \<and> count_of ''-----BEGIN CERTIFICATE REQUEST-----'' encoded = 1
      \<and> \<not> occurs_in ''PRIVATE KEY'' encoded)"

definition weak_key :: "public_key \<Rightarrow> bool" where
  "weak_key k = (case pk_kind k of RsaKey bits \<Rightarrow> bits < 2048 | EcKey bits \<Rightarrow> bits < 256 | _ \<Rightarrow> False)"

definition leaf_template :: "csr \<Rightarrow> public_key \<Rightarrow> certificate \<Rightarrow> ip \<Rightarrow> int \<Rightarrow> int \<Rightarrow> int \<Rightarrow> template" where
  "leaf_template request public_key authority requested_ip serial validity_days current =
     \<lparr>tp_subject = cr_subject request, tp_issuer = ct_subject authority, tp_public_key = public_key,
      tp_serial = serial, tp_not_before = current - 5 * 60 * 1000000,
      tp_not_after = current + validity_days * 86400 * 1000000, tp_basic_ca = False,
      tp_key_usage = [DigitalSignature, KeyEncipherment], tp_eku = [SERVER_AUTH],
      tp_ip_names = [requested_ip]\<rparr>"

text \<open>
  \<open>clock1\<close> and \<open>clock2\<close> are the two readings of the clock of a caller that gives no time, and
  \<open>serial\<close> the random serial number.
\<close>

definition sign_relay_csr ::
    "x509_library \<Rightarrow> string \<Rightarrow> string option \<Rightarrow> string option \<Rightarrow> string \<Rightarrow> int \<Rightarrow> int option \<Rightarrow> int \<Rightarrow> int \<Rightarrow> int
     \<Rightarrow> fields res" where
  "sign_relay_csr lib csr_pem certificate_path private_key_path relay_ip validity_days now clock1 clock2 serial =
     bindR (requireR (MIN_LEAF_VALIDITY_DAYS \<le> validity_days \<and> validity_days \<le> MAX_LEAF_VALIDITY_DAYS)
              (RelayCertificateError ''relay_certificate_validity_invalid''
                 ''Relay certificate validity is outside the accepted range.'')) (\<lambda>_.
     let encoded = py_strip csr_pem in
     bindR (requireR (csr_text_ok encoded) (csr_invalid ''Relay certificate request is invalid.'')) (\<lambda>_.
     bindR (catchR (\<lambda>e. is_value_error e \<or> e = TypeError) (csr_invalid ''Relay certificate request is invalid.'')
              (bindR (ascii_encode encoded) (load_csr_pem lib))) (\<lambda>request.
     bindR (requireR (cr_signature_valid request)
              (csr_invalid ''Relay certificate request signature is invalid.'')) (\<lambda>_.
     bindR (case ip_address relay_ip of
              None \<Rightarrow> Inl (RelayCertificateError ''relay_certificate_target_invalid'' ''Relay address is invalid.'')
            | Some ip \<Rightarrow> Inr ip) (\<lambda>requested_ip.
     bindR (catchR (\<lambda>e. e = ExtensionNotFound)
              (csr_invalid ''Relay certificate request extensions are incomplete.'')
              (bindR (cr_ip_names request) (\<lambda>names.
               bindR (cr_basic_ca request) (\<lambda>ca.
               bindR (cr_eku request) (\<lambda>eku. Inr (names, ca, eku)))))) (\<lambda>(names, ca, eku).
     bindR (requireR (names = [requested_ip] \<and> \<not> ca \<and> SERVER_AUTH \<in> set eku \<and> CLIENT_AUTH \<notin> set eku)
              (csr_invalid ''Relay certificate request identity or usage is invalid.'')) (\<lambda>_.
     bindR (cr_public_key request) (\<lambda>public_key.
     bindR (requireR (\<not> weak_key public_key)
              (csr_invalid ''Relay certificate request key is too weak.'')) (\<lambda>_.
     bindR (load_signing_material lib certificate_path private_key_path now clock1) (\<lambda>(authority, signing_key).
     let current = (case now of Some t \<Rightarrow> t | None \<Rightarrow> clock2);
         builder = leaf_template request public_key authority requested_ip serial validity_days current in
     bindR (check_template lib builder) (\<lambda>_.
     bindR (catchR (\<lambda>e. is_value_error e \<or> e = TypeError)
              (RelayCertificateError ''relay_certificate_signing_failed'' ''Relay certificate could not be signed.'')
              (sign_template lib builder signing_key (signing_hash signing_key))) (\<lambda>certificate.
     bindR (certificate_metadata lib certificate) (\<lambda>meta.
     Inr ([(''contract'', JStr RELAY_CERT_ISSUANCE_CONTRACT), (''relay_ip'', JStr relay_ip),
           (''validity_days'', JInt validity_days),
           (''ca_sha256_fingerprint'', JStr (fingerprint_sha256 lib (ct_der authority))),
           (''basic_constraints_ca'', JBool False), (''server_auth'', JBool True)] @ meta))))))))))))))"

section \<open>What is signed\<close>

lemma load_certificate_Inr:
  "load_certificate lib path = Inr c \<Longrightarrow>
   \<exists>f b. path = Some f \<and> read_file lib f = Inr b \<and> load_certificate_pem lib b = Inr c"
  by (cases path) (auto simp: load_certificate_def split: if_splits)

lemma load_private_key_Inr:
  "load_private_key lib path = Inr k \<Longrightarrow>
   \<exists>f b. path = Some f \<and> read_file lib f = Inr b \<and> load_key_pem lib b = Inr k"
  by (cases path) (auto simp: load_private_key_def split: if_splits)

lemma load_signing_material_Inr:
  assumes "load_signing_material lib cp kp now clock = Inr (authority, key)"
  shows "load_certificate lib cp = Inr authority \<and> load_private_key lib kp = Inr key
    \<and> ct_basic_ca authority = Inr True \<and> ct_key_cert_sign authority = Inr True
    \<and> ct_not_before authority \<le> (case now of Some t \<Rightarrow> t | None \<Rightarrow> clock)
    \<and> (case now of Some t \<Rightarrow> t | None \<Rightarrow> clock) < ct_not_after authority
    \<and> public_bytes (ct_public_key authority) = public_bytes (sk_public key)"
  using assms unfolding load_signing_material_def Let_def bindR_eq_Inr catchR_eq_Inr
  by (auto simp: not_le not_less split: if_splits option.splits)

lemma csr_text_okD:
  assumes "csr_text_ok t"
  shows "count_of ''-----BEGIN CERTIFICATE REQUEST-----'' t = 1" "int (length (utf8_encode t)) \<le> MAX_CSR_BYTES"
    "\<not> occurs_in ''PRIVATE KEY'' t"
  using assms unfolding csr_text_ok_def by blast+

text \<open>
  C31. A relay certificate is signed only for a text of at most 32 KiB that holds exactly one
  request and no private key; whose request has a valid signature and a key that is not weak,
  names exactly the configured relay address, asks to be no CA, and asks for server
  authentication and not for client authentication; only with the key that belongs to a CA
  certificate that may sign and whose validity contains the time it is checked at; and what is
  signed is never a CA, can only be used for TLS servers, names only that address, carries the key
  of the request, and ends between 1 and 397 days from now. The report is about the certificate the
  signer returned.
\<close>

theorem issued_leaf_is_safe:
  assumes "sign_relay_csr lib csr_pem cp kp relay_ip days now clock1 clock2 serial = Inr report"
  shows "\<exists>b req key eku authority signer ip leaf.
     ascii_encode (py_strip csr_pem) = Inr b \<and> load_csr_pem lib b = Inr req
     \<and> count_of ''-----BEGIN CERTIFICATE REQUEST-----'' (py_strip csr_pem) = 1
     \<and> int (length (utf8_encode (py_strip csr_pem))) \<le> MAX_CSR_BYTES
     \<and> \<not> occurs_in ''PRIVATE KEY'' (py_strip csr_pem)
     \<and> cr_signature_valid req \<and> cr_public_key req = Inr key \<and> \<not> weak_key key
     \<and> ip_address relay_ip = Some ip \<and> cr_ip_names req = Inr [ip] \<and> cr_basic_ca req = Inr False
     \<and> cr_eku req = Inr eku \<and> SERVER_AUTH \<in> set eku \<and> CLIENT_AUTH \<notin> set eku
     \<and> load_certificate lib cp = Inr authority \<and> load_private_key lib kp = Inr signer
     \<and> ct_basic_ca authority = Inr True \<and> ct_key_cert_sign authority = Inr True
     \<and> ct_not_before authority \<le> (case now of Some t \<Rightarrow> t | None \<Rightarrow> clock1)
     \<and> (case now of Some t \<Rightarrow> t | None \<Rightarrow> clock1) < ct_not_after authority
     \<and> public_bytes (ct_public_key authority) = public_bytes (sk_public signer)
     \<and> (let tp = leaf_template req key authority ip serial days (case now of Some t \<Rightarrow> t | None \<Rightarrow> clock2) in
          sign_template lib tp signer (signing_hash signer) = Inr leaf
          \<and> \<not> tp_basic_ca tp \<and> KeyCertSign \<notin> set (tp_key_usage tp) \<and> CrlSign \<notin> set (tp_key_usage tp)
          \<and> tp_eku tp = [SERVER_AUTH] \<and> tp_ip_names tp = [ip] \<and> tp_public_key tp = key
          \<and> tp_issuer tp = ct_subject authority \<and> tp_not_before tp < tp_not_after tp
          \<and> (case now of Some t \<Rightarrow> t | None \<Rightarrow> clock2) + 86400000000 \<le> tp_not_after tp
          \<and> tp_not_after tp \<le> (case now of Some t \<Rightarrow> t | None \<Rightarrow> clock2) + 397 * 86400000000)
     \<and> fld report ''sha256_fingerprint'' = JStr (fingerprint_sha256 lib (ct_der leaf))
     \<and> fld report ''ca_sha256_fingerprint'' = JStr (fingerprint_sha256 lib (ct_der authority))"
proof -
  define current where "current = (case now of Some t \<Rightarrow> t | None \<Rightarrow> clock2)"
  from assms obtain b req ip names ca eku v key pr leaf meta where
    days: "MIN_LEAF_VALIDITY_DAYS \<le> days" "days \<le> MAX_LEAF_VALIDITY_DAYS"
    and texts: "csr_text_ok (py_strip csr_pem)" "ascii_encode (py_strip csr_pem) = Inr b" "load_csr_pem lib b = Inr req"
    and sig: "cr_signature_valid req"
    and ip: "(case ip_address relay_ip of
              None \<Rightarrow> Inl (RelayCertificateError ''relay_certificate_target_invalid'' ''Relay address is invalid.'')
            | Some ip \<Rightarrow> Inr ip) = Inr ip"
    and views: "cr_ip_names req = Inr names" "cr_basic_ca req = Inr ca" "cr_eku req = Inr eku" "(names, ca, eku) = v" "fst v = [ip]" "\<not> fst (snd v)"
      "SERVER_AUTH \<in> set (snd (snd v))" "CLIENT_AUTH \<notin> set (snd (snd v))"
    and key: "cr_public_key req = Inr key" "\<not> weak_key key"
    and material: "load_signing_material lib cp kp now clock1 = Inr pr"
    and leaf: "sign_template lib (leaf_template req key (fst pr) ip serial days current) (snd pr) (signing_hash (snd pr)) = Inr leaf"
    and meta: "certificate_metadata lib leaf = Inr meta"
    and report: "[(''contract'', JStr RELAY_CERT_ISSUANCE_CONTRACT), (''relay_ip'', JStr relay_ip),
           (''validity_days'', JInt days),
           (''ca_sha256_fingerprint'', JStr (fingerprint_sha256 lib (ct_der (fst pr)))),
           (''basic_constraints_ca'', JBool False), (''server_auth'', JBool True)] @ meta = report"
    unfolding sign_relay_csr_def Let_def bindR_eq_Inr requireR_eq_Inr catchR_eq_Inr sum.inject
      current_def [symmetric] case_prod_beta
    apply (elim exE conjE)
    apply (rule that)
    apply assumption+
    done
  obtain authority signer where pr: "pr = (authority, signer)" by (cases pr)
  note material = load_signing_material_Inr [OF material [unfolded pr]]
  have ip': "ip_address relay_ip = Some ip" using ip by (cases "ip_address relay_ip") auto
  have names: "cr_ip_names req = Inr [ip]" "cr_basic_ca req = Inr False"
    "cr_eku req = Inr eku" "SERVER_AUTH \<in> set eku" "CLIENT_AUTH \<notin> set eku" using views by auto
  have "fld report ''sha256_fingerprint'' = JStr (fingerprint_sha256 lib (ct_der leaf))"
    "fld report ''ca_sha256_fingerprint'' = JStr (fingerprint_sha256 lib (ct_der authority))"
    using meta by (auto simp: report [symmetric] fld_def certificate_metadata_def pr)
  moreover have "86400000000 \<le> days * 86400 * 1000000" "days * 86400 * 1000000 \<le> 397 * 86400000000"
    using days by (simp_all add: MIN_LEAF_VALIDITY_DAYS_def MAX_LEAF_VALIDITY_DAYS_def)
  ultimately show ?thesis
    using texts csr_text_okD [OF texts(1)] sig names ip' key material leaf
    unfolding Let_def pr fst_conv snd_conv current_def
    by (intro exI [of _ b] exI [of _ req] exI [of _ key] exI [of _ eku] exI [of _ authority] exI [of _ signer] exI [of _ ip]
        exI [of _ leaf]) (simp add: leaf_template_def)
qed

text \<open>A host whose files and package accept everything, and one request on it.\<close>

definition sample_key :: public_key where
  "sample_key = \<lparr>pk_kind = EcKey 256, pk_raw = [], pk_spki = [48, 1]\<rparr>"

definition sample_ca :: certificate where
  "sample_ca = \<lparr>ct_pem = bytes_of ''-----BEGIN CERTIFICATE-----'', ct_der = [48, 2], ct_subject = [(''CN'', ''CA'')],
     ct_issuer = [(''CN'', ''CA'')], ct_not_before = 0, ct_not_after = 1000000, ct_public_key = sample_key,
     ct_basic_ca = Inr True, ct_key_cert_sign = Inr True, ct_ip_names = Inl ExtensionNotFound,
     ct_eku = Inl ExtensionNotFound\<rparr>"

definition sample_csr :: csr where
  "sample_csr = \<lparr>cr_signature_valid = True, cr_subject = [(''CN'', ''relay'')], cr_public_key = Inr sample_key,
     cr_ip_names = Inr [IPv4 169149541], cr_basic_ca = Inr False, cr_eku = Inr [SERVER_AUTH]\<rparr>"

definition sample_lib :: x509_library where
  "sample_lib = \<lparr>read_file = (\<lambda>_. Inr (bytes_of ''-----BEGIN CERTIFICATE-----'')),
     load_certificate_pem = (\<lambda>_. Inr sample_ca),
     load_key_pem = (\<lambda>_. Inr \<lparr>sk_edwards = False, sk_public = sample_key, sk_secret = []\<rparr>),
     load_csr_pem = (\<lambda>_. Inr sample_csr), rfc4514 = (\<lambda>n. concat (map snd n)), sha256 = (\<lambda>b. b),
     check_template = (\<lambda>_. Inr ()),
     sign_template = (\<lambda>tp k h. Inr (sample_ca\<lparr>ct_der := [48, 3], ct_subject := tp_subject tp\<rparr>))\<rparr>"

definition sample_csr_text :: string where
  "sample_csr_text = ''-----BEGIN CERTIFICATE REQUEST-----''"

lemma sample_csr_signed:
  "\<not> isl (sign_relay_csr sample_lib sample_csr_text (Some ''ca.crt'') (Some ''ca.key'') ''10.21.4.101'' 90 None 5 6 7)"
  by code_simp

theorem issued_leaf_is_safe_witness:
  "\<exists>report. sign_relay_csr sample_lib sample_csr_text (Some ''ca.crt'') (Some ''ca.key'') ''10.21.4.101'' 90 None 5 6 7
       = Inr report
     \<and> (\<exists>leaf :: certificate. fld report ''sha256_fingerprint'' = JStr (fingerprint_sha256 sample_lib (ct_der leaf)))"
proof -
  from sample_csr_signed obtain report where
    r: "sign_relay_csr sample_lib sample_csr_text (Some ''ca.crt'') (Some ''ca.key'') ''10.21.4.101'' 90 None 5 6 7
        = Inr report"
    by (metis isl_def sum.exhaust)
  from issued_leaf_is_safe [OF r]
  have "\<exists>leaf :: certificate. fld report ''sha256_fingerprint'' = JStr (fingerprint_sha256 sample_lib (ct_der leaf))"
    by (elim exE conjE) (rule exI)
  with r show ?thesis by blast
qed

text \<open>A CA certificate whose time is over signs nothing.\<close>

definition error_of :: "'a res \<Rightarrow> string" where
  "error_of m = (case m of Inl (RelayCertificateError c _) \<Rightarrow> c | Inl (RelayCaArtifactError c _) \<Rightarrow> c | _ \<Rightarrow> [])"

lemma expired_ca_refused:
  "error_of (sign_relay_csr sample_lib sample_csr_text (Some ''ca.crt'') (Some ''ca.key'') ''10.21.4.101'' 90 None
     1000000 6 7) = ''relay_ca_signer_invalid''"
  by code_simp

text \<open>
  The end of the CA certificate does not bound the leaf: signed one microsecond before the CA
  certificate ends, the leaf is still given its 90 days.
\<close>

lemma leaf_may_outlive_ca:
  "\<not> isl (sign_relay_csr sample_lib sample_csr_text (Some ''ca.crt'') (Some ''ca.key'') ''10.21.4.101'' 90 None 999999 6 7)
   \<and> ct_not_after sample_ca < tp_not_after (leaf_template sample_csr sample_key sample_ca (IPv4 169149541) 7 90 999999)"
  by code_simp

section \<open>What is published\<close>

lemma occurs_in_Cons: "part \<noteq> [] \<Longrightarrow> occurs_in part (c # cs) \<longleftrightarrow> starts_with part (c # cs) \<or> occurs_in part cs"
proof -
  assume "part \<noteq> []"
  have "set [0..<Suc (length (c # cs))] = insert 0 (Suc ` set [0..<Suc (length cs)])"
    unfolding set_upt atLeast0LessThan by (simp only: lessThan_Suc_eq_insert_0 list.size add_0_right add_Suc_right)
  then show ?thesis unfolding occurs_in_def by (simp only: ball_simps bex_simps drop_0 drop_Suc_Cons)
qed

lemma occurs_in_Nil: "occurs_in part [] \<longleftrightarrow> part = []"
  by (auto simp: occurs_in_def starts_with_def)

lemma starts_with_Cons: "starts_with (p # ps) (c # cs) \<longleftrightarrow> p = c \<and> starts_with ps cs"
  by (auto simp: starts_with_def)

lemma starts_with_Nil [simp]: "starts_with [] cs" "starts_with (p # ps) [] = False"
  by (simp_all add: starts_with_def)

lemma starts_with_replace:
  "13 \<notin> set part \<Longrightarrow> 10 \<notin> set part \<Longrightarrow> starts_with part (replace_all [13, 10 :: nat] [10] s) \<longleftrightarrow> starts_with part s"
proof (induction part arbitrary: s)
  case (Cons p ps)
  show ?case
  proof (cases s)
    case (Cons c cs)
    with Cons.prems Cons.IH [of cs] show ?thesis
      by (cases "starts_with [13, 10] s") (auto simp: starts_with_Cons)
  qed simp
qed simp

lemma occurs_in_replace:
  assumes "part \<noteq> []" and "13 \<notin> set part" and "10 \<notin> set part"
  shows "occurs_in part (replace_all [13, 10 :: nat] [10] s) \<longleftrightarrow> occurs_in part s"
proof (induction "[13, 10 :: nat]" "[10 :: nat]" s rule: replace_all.induct)
  case (2 c cs)
  obtain p ps where part: "part = p # ps" using assms(1) by (cases part) auto
  show ?case
  proof (cases "starts_with [13, 10] (c # cs)")
    case True
    then obtain ds where cs: "c = 13" "cs = 10 # ds" by (cases cs) (auto simp: starts_with_Cons)
    from 2(1) True cs assms part show ?thesis by (simp add: occurs_in_Cons starts_with_Cons)
  next
    case False
    have "replace_all [13, 10] [10] (c # cs) = c # replace_all [13, 10] [10] cs" using False by simp
    with 2(2) False starts_with_replace [OF assms(2,3), of "c # cs"] assms(1) show ?thesis
      by (simp add: occurs_in_Cons)
  qed
qed simp

lemma occurs_in_iff: "part \<noteq> [] \<Longrightarrow> occurs_in part s \<longleftrightarrow> (\<exists>u v. s = u @ part @ v)"
proof (induction s)
  case (Cons c cs)
  have "starts_with part (c # cs) \<longleftrightarrow> (\<exists>v. c # cs = [] @ part @ v)"
    unfolding starts_with_def by (metis append_Nil append_eq_conv_conj append_take_drop_id)
  moreover have "(\<exists>u v. c # cs = u @ part @ v) \<longleftrightarrow> (\<exists>v. c # cs = [] @ part @ v) \<or> (\<exists>u v. cs = u @ part @ v)"
    by (metis Cons_eq_append_conv append_Cons)
  ultimately show ?case using Cons by (simp add: occurs_in_Cons)
qed (simp add: occurs_in_Nil)

lemma occurs_in_rev: "part \<noteq> [] \<Longrightarrow> occurs_in (rev part) (rev s) \<longleftrightarrow> occurs_in part s"
proof -
  assume ne: "part \<noteq> []"
  have "(\<exists>u v. rev s = u @ rev part @ v) \<longleftrightarrow> (\<exists>u v. s = u @ part @ v)"
    by (metis append.assoc rev_append rev_rev_ident)
  with ne show ?thesis by (simp add: occurs_in_iff)
qed

lemma occurs_in_dropWhile: "part \<noteq> [] \<Longrightarrow> \<not> p (hd part) \<Longrightarrow> occurs_in part (dropWhile p s) \<longleftrightarrow> occurs_in part s"
proof (induction s)
  case (Cons c cs)
  then show ?case by (cases part) (auto simp: occurs_in_Cons starts_with_Cons)
qed simp

lemma occurs_in_strip:
  assumes "part \<noteq> []" and "hd part \<notin> set [9, 10, 11, 12, 13, 32]" and "last part \<notin> set [9, 10, 11, 12, 13, 32]"
  shows "occurs_in part (bytes_strip s) \<longleftrightarrow> occurs_in part s"
proof -
  let ?ws = "\<lambda>x. x \<in> set [9, 10, 11, 12, 13, 32 :: nat]" let ?d = "dropWhile ?ws s"
  have "occurs_in part (bytes_strip s) \<longleftrightarrow> occurs_in (rev part) (dropWhile ?ws (rev ?d))"
    using occurs_in_rev [OF assms(1), of "rev (dropWhile ?ws (rev ?d))"] unfolding bytes_strip_def Let_def rev_rev_ident by blast
  also have "\<dots> \<longleftrightarrow> occurs_in (rev part) (rev ?d)"
    by (rule occurs_in_dropWhile) (use assms in \<open>simp_all add: hd_rev\<close>)
  also have "\<dots> \<longleftrightarrow> occurs_in part s"
    unfolding occurs_in_rev [OF assms(1)] by (rule occurs_in_dropWhile) (use assms in simp_all)
  finally show ?thesis .
qed

lemma occurs_in_normal_lines:
  "occurs_in (bytes_of ''PRIVATE KEY'') (normal_lines b) \<longleftrightarrow> occurs_in (bytes_of ''PRIVATE KEY'') b"
  unfolding normal_lines_def
  by (subst occurs_in_strip; (subst occurs_in_replace)?) (simp_all add: bytes_of_def)

lemma occurs_in_decoded:
  assumes "ascii_decode b = Inr s" and "part \<noteq> []"
  shows "occurs_in part s \<longleftrightarrow> occurs_in (bytes_of part) b"
proof -
  have s: "map of_char s = b"
  proof -
    from assms(1) have small: "\<forall>x \<in> set b. x < 128" and s: "s = map char_of b"
      by (auto simp: ascii_decode_def list_all_iff split: if_splits)
    from small have "x mod 256 = x" if "x \<in> set b" for x using that by fastforce
    then show ?thesis by (simp add: s o_def map_idI)
  qed
  have "occurs_in part s \<Longrightarrow> occurs_in (bytes_of part) b"
    unfolding occurs_in_iff [OF assms(2)] s [symmetric] bytes_of_def
    using assms(2) by (subst occurs_in_iff) (simp, metis map_append)
  moreover have "\<exists>u v. s = u @ part @ v" if "map of_char s = u @ map of_char part @ v" for u v :: bytes
  proof -
    from that obtain x w where x: "s = x @ w" and w: "map of_char w = map of_char part @ v"
      by (metis map_eq_append_conv)
    from w obtain y z where "w = y @ z" "map of_char y = map (of_char :: char \<Rightarrow> nat) part"
      by (metis map_eq_append_conv)
    with x have "s = x @ part @ z" by (metis inj_map_eq_map inj_of_char)
    then show ?thesis by blast
  qed
  ultimately show ?thesis using assms(2) s by (auto simp: occurs_in_iff bytes_of_def)
qed

text \<open>
  C32. What is published as the relay CA is one certificate and nothing else: the artifact at the
  configured path is that certificate's own PEM up to line ends and surrounding white space, the
  certificate is a CA, and neither the file nor the published text contains a private key. The
  published fingerprint is that of the certificate.
\<close>

theorem published_ca_is_one_certificate:
  assumes "load_public_ca_artifact lib path = Inr report"
  shows "\<exists>f raw c pem. path = Some f \<and> read_file lib f = Inr raw \<and> load_certificate_pem lib raw = Inr c
     \<and> ct_basic_ca c = Inr True \<and> normal_lines raw = normal_lines (ct_pem c) \<and> ascii_decode (ct_pem c) = Inr pem
     \<and> count_of (bytes_of ''-----BEGIN CERTIFICATE-----'') raw = 1
     \<and> \<not> occurs_in (bytes_of ''PRIVATE KEY'') raw \<and> \<not> occurs_in ''PRIVATE KEY'' pem
     \<and> fld report ''certificate_pem'' = JStr pem
     \<and> fld report ''sha256_fingerprint'' = JStr (fingerprint_sha256 lib (ct_der c))"
proof -
  from assms obtain f where f: "path = Some f"
    unfolding load_public_ca_artifact_def by (cases path) auto
  from assms obtain raw c pem where
    r: "read_file lib f = Inr raw" "one_artifact raw" "load_certificate_pem lib raw = Inr c" "ct_basic_ca c = Inr True"
      "normal_lines raw = normal_lines (ct_pem c)" "ascii_decode (ct_pem c) = Inr pem"
    and report: "fld report ''certificate_pem'' = JStr pem"
      "fld report ''sha256_fingerprint'' = JStr (fingerprint_sha256 lib (ct_der c))"
    unfolding load_public_ca_artifact_def f by (auto simp: fld_def split: if_splits)
  have "\<not> occurs_in (bytes_of ''PRIVATE KEY'') (ct_pem c)"
    using r(2,5) occurs_in_normal_lines by (metis one_artifact_def)
  then have "\<not> occurs_in ''PRIVATE KEY'' pem" using occurs_in_decoded [OF r(6)] by simp
  with f r report show ?thesis unfolding one_artifact_def by blast
qed

lemma sample_ca_published: "\<not> isl (load_public_ca_artifact sample_lib (Some ''ca.crt''))"
  by code_simp

theorem published_ca_is_one_certificate_witness:
  "\<exists>report. load_public_ca_artifact sample_lib (Some ''ca.crt'') = Inr report
     \<and> (\<exists>pem. \<not> occurs_in ''PRIVATE KEY'' pem \<and> fld report ''certificate_pem'' = JStr pem)"
proof -
  from sample_ca_published obtain report where r: "load_public_ca_artifact sample_lib (Some ''ca.crt'') = Inr report"
    by (metis isl_def sum.exhaust)
  from published_ca_is_one_certificate [OF r] r show ?thesis by blast
qed

end
