(* ===== verification/Server.thy ===== *)
theory Server
  imports Tools Config Certificates Errors
begin

text \<open>
  The operator side of \<open>remote_agent_connector/server.py\<close>: every route of the application but the
  websocket (Endpoint) and the MCP mount (Tools). Starlette is left out: a request is what a
  handler reads of it, a response its status and its JSON body, and an exception that leaves a
  handler is the \<open>Inl\<close> of its result (Starlette answers it with status 500).
\<close>

section \<open>Requests and responses\<close>

record http_request =
  hq_headers :: "string \<Rightarrow> string option"
  hq_body :: "json res"
  hq_path :: "string \<Rightarrow> string"
  hq_query :: "string \<Rightarrow> string option"

record response =
  rs_status :: int
  rs_body :: json

definition reply :: "int \<Rightarrow> fields \<Rightarrow> response" where
  "reply status body = \<lparr>rs_status = status, rs_body = JObj body\<rparr>"

definition refusal :: "int \<Rightarrow> string \<Rightarrow> response" where
  "refusal status c = reply status [(''code'', JStr c)]"

text \<open>
  What a handler closes over besides the hub, and what one request draws: clock readings, random
  numbers and identifiers. \<open>real_text\<close> is the text SQLite stores for a float.
\<close>

record host =
  ho_config :: config
  ho_x509 :: x509_library
  ho_sha :: "bytes \<Rightarrow> string"
  ho_real_text :: "rat \<Rightarrow> string"

record draws =
  dw_token :: string
  dw_event :: string
  dw_t1 :: datetime
  dw_t2 :: datetime
  dw_clock :: "nat \<Rightarrow> datetime"
  dw_serial :: int

text \<open>\<open>except E as exc: return ...\<close>: the exceptions \<open>answer\<close> knows become responses.\<close>

definition catchH :: "(exn \<Rightarrow> response option) \<Rightarrow> response hact \<Rightarrow> response hact" where
  "catchH answer m h = (case m h of
       (Inl e, h') \<Rightarrow> (case answer e of Some r \<Rightarrow> (Inr r, h') | None \<Rightarrow> (Inl e, h'))
     | (Inr r, h') \<Rightarrow> (Inr r, h'))"

text \<open>\<open>body["k"]\<close>: a missing member raises \<open>KeyError\<close>, a body that is no object \<open>TypeError\<close>.\<close>

definition member :: "json \<Rightarrow> string \<Rightarrow> json res" where
  "member body k = (case body of
       JObj d \<Rightarrow> (case map_of d k of Some v \<Rightarrow> Inr v | None \<Rightarrow> Inl KeyError)
     | _ \<Rightarrow> Inl TypeError)"

text \<open>\<open>int(value)\<close> of a JSON value.\<close>

definition int_of_json :: "json \<Rightarrow> int res" where
  "int_of_json v = (case v of
       JBool b \<Rightarrow> Inr (if b then 1 else 0)
     | JInt i \<Rightarrow> Inr i
     | JFloat q _ \<Rightarrow> Inr (if 0 \<le> q then \<lfloor>q\<rfloor> else \<lceil>q\<rceil>)
     | JStr s \<Rightarrow> (case py_int 10 s of Some i \<Rightarrow> Inr i | None \<Rightarrow> Inl ValueError)
     | _ \<Rightarrow> Inl TypeError)"

text \<open>
  A JSON value bound to a \<open>TEXT NOT NULL\<close> column: texts as they are, numbers as the text SQLite
  converts them to, and an exception for anything else and for integers beyond 64 bits.
\<close>

definition column_text :: "(rat \<Rightarrow> string) \<Rightarrow> json \<Rightarrow> string res" where
  "column_text real_text v = (case v of
       JStr s \<Rightarrow> Inr s
     | JBool b \<Rightarrow> Inr (if b then ''1'' else ''0'')
     | JInt i \<Rightarrow> if - (2 ^ 63) \<le> i \<and> i < 2 ^ 63 then Inr (show_int i) else Inl OverflowError
     | JFloat q _ \<Rightarrow> Inr (real_text q)
     | JNull \<Rightarrow> Inl IntegrityError
     | _ \<Rightarrow> Inl OtherError)"

section \<open>The operator token\<close>

definition starts_bearer :: "string \<Rightarrow> bool" where
  "starts_bearer header = starts_with ''Bearer '' header"

definition operator_authorized :: "config \<Rightarrow> http_request \<Rightarrow> bool res" where
  "operator_authorized cfg request =
     (let header = (case hq_headers request ''authorization'' of None \<Rightarrow> [] | Some v \<Rightarrow> v) in
      if \<not> starts_bearer header then Inr False
      else compare_digest (drop (length ''Bearer '') header) (cf_operator_bearer_token cfg))"

definition unauthorized :: response where
  "unauthorized = refusal 401 ''unauthorized''"

definition guarded :: "host \<Rightarrow> http_request \<Rightarrow> response hact \<Rightarrow> response hact" where
  "guarded ho request handler =
     bindH (liftH (operator_authorized (ho_config ho) request)) (\<lambda>authorized.
     if \<not> authorized then returnH unauthorized else handler)"

section \<open>Routes that read no state\<close>

definition server_version :: string where "server_version = ''0.1.17''"

definition health :: "response hact" where
  "health = returnH (reply 200 [(''status'', JStr ''ok''), (''service'', JStr ''remote-agent-connector''),
                                (''version'', JStr server_version)])"

definition relay_error_contract_route :: "host \<Rightarrow> http_request \<Rightarrow> response hact" where
  "relay_error_contract_route ho request =
     guarded ho request (returnH \<lparr>rs_status = 200, rs_body = relay_error_contract\<rparr>)"

definition relay_ca_publication :: "host \<Rightarrow> http_request \<Rightarrow> response hact" where
  "relay_ca_publication ho request = guarded ho request
     (catchH (\<lambda>e. case e of
          RelayCaArtifactError c m \<Rightarrow> Some (reply 503 [(''contract'', JStr RELAY_CA_PUBLICATION_CONTRACT),
                                                 (''code'', JStr c), (''message'', JStr m)])
        | _ \<Rightarrow> None)
       (bindH (liftH (load_public_ca_artifact (ho_x509 ho) (cf_public_ca_cert_path (ho_config ho)))) (\<lambda>report.
        returnH (reply 200 report))))"

definition certificate_refusal :: "exn \<Rightarrow> response" where
  "certificate_refusal e =
     (case e of
        RelayCertificateError c m \<Rightarrow>
          reply (if starts_with ''relay_ca_signer_'' c then 503 else 400)
            [(''contract'', JStr RELAY_CERT_ISSUANCE_CONTRACT), (''code'', JStr c), (''message'', JStr m)]
      | _ \<Rightarrow> reply 400 [(''contract'', JStr RELAY_CERT_ISSUANCE_CONTRACT),
                (''code'', JStr ''relay_certificate_request_invalid''),
                (''message'', JStr ''Relay certificate request is invalid.'')])"

definition csr_member :: "json \<Rightarrow> json res" where
  "csr_member body = (case body of
       JObj d \<Rightarrow> if keys d = {''csr_pem''} then member body ''csr_pem'' else Inl ValueError
     | _ \<Rightarrow> Inl ValueError)"

definition issue_relay_certificate :: "host \<Rightarrow> draws \<Rightarrow> http_request \<Rightarrow> response hact" where
  "issue_relay_certificate ho dw request = guarded ho request
     (catchH (\<lambda>e. Some (certificate_refusal e))
       (bindH (liftH (hq_body request)) (\<lambda>body.
        bindH (liftH (csr_member body)) (\<lambda>csr_pem.
        bindH (liftH (sign_relay_csr (ho_x509 ho) (py_str csr_pem) (cf_public_ca_cert_path (ho_config ho))
                 (cf_ca_private_key_path (ho_config ho)) (cf_relay_ip (ho_config ho))
                 (cf_relay_certificate_validity_days (ho_config ho)) None (dw_t1 dw) (dw_t2 dw) (dw_serial dw)))
          (\<lambda>report. returnH (reply 200 report))))))"

section \<open>Routes that change the store\<close>

text \<open>
  The service call of the enrolment route for JSON values: values no column takes make the insert
  fail, and every failure of the service call is one and the same \<open>AgentError\<close>.
\<close>

definition issue_token_json :: "host \<Rightarrow> draws \<Rightarrow> json \<Rightarrow> json \<Rightarrow> json \<Rightarrow> int \<Rightarrow> (string \<times> int) act" where
  "issue_token_json ho dw connector_id capability_profile display_label expires =
     (let column = column_text (ho_real_text ho) in
      case bindR (column connector_id) (\<lambda>c. bindR (column capability_profile) (\<lambda>p.
           bindR (column display_label) (\<lambda>l. Inr (c, p, l)))) of
        Inl _ \<Rightarrow> raiseA (AgentError ''invalid_enrollment_request'')
      | Inr (c, p, l) \<Rightarrow> issue_token (ho_sha ho) (dw_token dw) (dw_event dw) c p l expires (dw_t1 dw) (dw_t2 dw))"

definition issue_enrollment :: "host \<Rightarrow> draws \<Rightarrow> http_request \<Rightarrow> response hact" where
  "issue_enrollment ho dw request = guarded ho request
     (catchH (\<lambda>e. Some (refusal 400 ''invalid_enrollment_request''))
       (bindH (liftH (hq_body request)) (\<lambda>body.
        bindH (liftH (member body ''connector_id'')) (\<lambda>connector_id.
        bindH (liftH (member body ''capability_profile'')) (\<lambda>capability_profile.
        bindH (liftH (member body ''display_label'')) (\<lambda>display_label.
        bindH (liftH (case member body ''expires_in_seconds'' of Inl _ \<Rightarrow> Inr 600 | Inr v \<Rightarrow> int_of_json v)) (\<lambda>expires.
        bindH (storeH (issue_token_json ho dw connector_id capability_profile display_label expires)) (\<lambda>(token, n).
        returnH (reply 201 [(''enrollment_token'', JStr token), (''expires_in_seconds'', JInt n)])))))))))"

definition revoke_device_route :: "host \<Rightarrow> draws \<Rightarrow> http_request \<Rightarrow> response hact" where
  "revoke_device_route ho dw request = guarded ho request
     (let connector_id = hq_path request ''connector_id'' in
      catchH (\<lambda>e. case e of AgentError c \<Rightarrow> Some (refusal 404 c) | _ \<Rightarrow> None)
       (bindH (storeH (service_revoke_device (dw_event dw) (dw_t1 dw) (dw_t2 dw) connector_id)) (\<lambda>_.
        returnH (reply 200 [(''status'', JStr ''revoked''), (''connector_id'', JStr connector_id)]))))"

text \<open>\<open>validate_display_label\<close> reads its argument as \<open>str(value or "")\<close>.\<close>

definition rename_device_route :: "host \<Rightarrow> draws \<Rightarrow> http_request \<Rightarrow> response hact" where
  "rename_device_route ho dw request = guarded ho request
     (let connector_id = hq_path request ''connector_id'' in
      catchH (\<lambda>e. case e of
           AgentError c \<Rightarrow> Some (refusal (if c = ''device_not_found'' then 404 else 400) c) | _ \<Rightarrow> None)
       (bindH (liftH (hq_body request)) (\<lambda>body.
        bindH (liftH (member body ''display_label'')) (\<lambda>label.
        bindH (storeH (rename_device (dw_event dw) (dw_t1 dw) (dw_t2 dw) connector_id (or_empty label)))
          (\<lambda>(c, l). returnH (reply 200 [(''connector_id'', JStr c), (''display_label'', JStr l)]))))))"

definition delete_device_route :: "host \<Rightarrow> draws \<Rightarrow> http_request \<Rightarrow> response hact" where
  "delete_device_route ho dw request = guarded ho request
     (let connector_id = hq_path request ''connector_id'' in
      catchH (\<lambda>e. case e of
           AgentError c \<Rightarrow> Some (refusal (if c = ''device_not_found'' then 404
                                           else if c = ''device_not_revoked'' then 409 else 400) c)
         | _ \<Rightarrow> None)
       (bindH (storeH (service_delete_revoked_device (dw_event dw) (dw_t2 dw) connector_id)) (\<lambda>_.
        returnH (reply 200 [(''status'', JStr ''deleted''), (''connector_id'', JStr connector_id)]))))"

section \<open>Routes that list\<close>

definition enrollment_text :: "enrollment_state \<Rightarrow> string" where
  "enrollment_text s = (case s of Enrolled \<Rightarrow> ''enrolled'' | Revoked \<Rightarrow> ''revoked'')"

definition instance_text :: "instance_state \<Rightarrow> string" where
  "instance_text s = (case s of Online \<Rightarrow> ''online'' | Offline \<Rightarrow> ''offline'')"

definition opt_time :: "timestamp option \<Rightarrow> json" where
  "opt_time t = (case t of None \<Rightarrow> JNull | Some s \<Rightarrow> JStr (isoformat_seconds s))"

definition device_json :: "device_report \<Rightarrow> json" where
  "device_json d = JObj
     [(''connector_id'', JStr (dr_connector_id d)), (''display_label'', JStr (dr_display_label d)),
      (''public_key_fingerprint'', JStr (dr_public_key_fingerprint d)),
      (''capability_profile'', JStr (dr_capability_profile d)),
      (''capabilities'', JList (map JStr (dr_capabilities d))),
      (''enrollment_state'', JStr (enrollment_text (dr_enrollment_state d))),
      (''enrolled_at'', JStr (isoformat_seconds (dr_enrolled_at d))), (''revoked_at'', opt_time (dr_revoked_at d)),
      (''connection_state'', JStr (instance_text (dr_connection_state d))),
      (''last_heartbeat_at'', opt_time (dr_last_heartbeat_at d)), (''context_epoch'', opt_int (dr_context_epoch d))]"

definition stale_window :: "host \<Rightarrow> int" where
  "stale_window ho = config_stale_seconds (ho_config ho)"

definition list_devices_route :: "host \<Rightarrow> draws \<Rightarrow> http_request \<Rightarrow> response hact" where
  "list_devices_route ho dw request = guarded ho request
     (bindH (storeH (operator_devices (ho_sha ho) (stale_window ho) (dw_clock dw))) (\<lambda>(reports, n).
      returnH (reply 200 [(''devices'', JList (map device_json reports)), (''count'', JInt (int n))])))"

definition agent_json :: "agent_report \<Rightarrow> json" where
  "agent_json a = JObj
     [(''device_id'', JStr (ar_device_id a)), (''platform'', JStr (ar_platform a)),
      (''capabilities'', JList (map JStr (ar_capabilities a))), (''health'', JStr ''online''),
      (''connected_at'', JStr (isoformat_seconds (ar_connected_at a)))]"

definition list_agents_route :: "host \<Rightarrow> draws \<Rightarrow> http_request \<Rightarrow> response hact" where
  "list_agents_route ho dw request = guarded ho request
     (bindH (storeH (list_online_agents (stale_window ho) (dw_t1 dw))) (\<lambda>(reports, n).
      returnH (reply 200 [(''agents'', JList (map agent_json reports)), (''count'', JInt (int n))])))"

definition audit_json :: "audit_row \<Rightarrow> json" where
  "audit_json a = JObj
     [(''event_id'', JStr (au_event_id a)), (''agent_principal'', opt_text (au_agent_principal a)),
      (''connector_id'', opt_text (au_connector_id a)), (''request_id'', opt_text (au_request_id a)),
      (''action'', JStr (au_action a)), (''result_code'', JStr (au_result_code a)),
      (''details_json'', JStr (dumps False (au_details a))),
      (''created_at'', JStr (isoformat_seconds (au_created_at a)))]"

definition operator_audit :: "host \<Rightarrow> http_request \<Rightarrow> response hact" where
  "operator_audit ho request = guarded ho request
     (case py_int 10 (case hq_query request ''limit'' of None \<Rightarrow> ''100'' | Some v \<Rightarrow> v) of
        None \<Rightarrow> returnH (refusal 400 ''invalid_limit'')
      | Some limit \<Rightarrow> bindH (readH (\<lambda>h. audit_events limit (hb_store h))) (\<lambda>events.
          returnH (reply 200 [(''events'', JList (map audit_json events))])))"

section \<open>Cancelling\<close>

text \<open>
  \<open>cancel_request\<close> waits for the frame to be written, so the route has two parts. The first ends
  in a response or in a frame to write, the second resumes with the outcome of the write.
\<close>

datatype cancel_progress = Answered response | CancelSent string string nat json

definition cancel_refusal :: "exn \<Rightarrow> response option" where
  "cancel_refusal e =
     (case e of
        AgentError c \<Rightarrow>
          Some (refusal (if c \<in> set [''device_offline'', ''request_not_in_flight''] then 404 else 400) c)
      | _ \<Rightarrow> if is_value_error e then Some (refusal 400 ''invalid_cancel_request'') else None)"

definition cancel_route :: "host \<Rightarrow> draws \<Rightarrow> http_request \<Rightarrow> cancel_progress hact" where
  "cancel_route ho dw request =
     bindH (liftH (operator_authorized (ho_config ho) request)) (\<lambda>authorized.
     if \<not> authorized then returnH (Answered unauthorized)
     else (\<lambda>h. case cancel_request (stale_window ho) (dw_t1 dw) (hq_path request ''connector_id'')
                       (hq_path request ''request_id'') h of
                 (Inl e, h') \<Rightarrow> (case cancel_refusal e of Some r \<Rightarrow> (Inr (Answered r), h') | None \<Rightarrow> (Inl e, h'))
               | (Inr (c, rid, f, frame), h') \<Rightarrow> (Inr (CancelSent c rid f frame), h')))"

definition cancel_route_written :: "draws \<Rightarrow> string \<Rightarrow> string \<Rightarrow> nat \<Rightarrow> unit res \<Rightarrow> response hact" where
  "cancel_route_written dw c rid f written =
     catchH cancel_refusal
       (bindH (liftH written) (\<lambda>_.
        bindH (after_cancel_write (dw_event dw) (dw_t2 dw) c rid f) (\<lambda>_.
        returnH (reply 200 [(''code'', JStr ''ok''), (''connector_id'', JStr c), (''request_id'', JStr rid),
                            (''state'', JStr ''cancelled'')]))))"

section \<open>The application\<close>

datatype route =
    Health | RelayErrors | RelayCa | RelayCertificates | EnrollmentTokens | RevokeDevice | RenameDevice
  | DeleteDevice | ListDevices | ListAgents | CancelRequest | OperatorAudit

definition routes :: "(string \<times> string \<times> route) list" where
  "routes =
     [(''/health'', ''GET'', Health), (''/operator/relay-errors/v1'', ''GET'', RelayErrors),
      (''/operator/relay-ca/v1'', ''GET'', RelayCa), (''/operator/relay-certificates/v1'', ''POST'', RelayCertificates),
      (''/operator/enrollment-tokens'', ''POST'', EnrollmentTokens),
      (''/operator/devices/{connector_id}/revoke'', ''POST'', RevokeDevice),
      (''/operator/devices/{connector_id}'', ''PUT'', RenameDevice),
      (''/operator/devices/{connector_id}'', ''DELETE'', DeleteDevice),
      (''/operator/devices'', ''GET'', ListDevices), (''/agents'', ''GET'', ListAgents),
      (''/operator/requests/{connector_id}/{request_id}/cancel'', ''POST'', CancelRequest),
      (''/operator/audit'', ''GET'', OperatorAudit)]"

text \<open>A handler up to its response, or to the frame the cancel route writes.\<close>

definition answered :: "response hact \<Rightarrow> cancel_progress hact" where
  "answered m = bindH m (\<lambda>r. returnH (Answered r))"

definition handle :: "host \<Rightarrow> draws \<Rightarrow> route \<Rightarrow> http_request \<Rightarrow> cancel_progress hact" where
  "handle ho dw route request =
     (case route of
        Health \<Rightarrow> answered health
      | RelayErrors \<Rightarrow> answered (relay_error_contract_route ho request)
      | RelayCa \<Rightarrow> answered (relay_ca_publication ho request)
      | RelayCertificates \<Rightarrow> answered (issue_relay_certificate ho dw request)
      | EnrollmentTokens \<Rightarrow> answered (issue_enrollment ho dw request)
      | RevokeDevice \<Rightarrow> answered (revoke_device_route ho dw request)
      | RenameDevice \<Rightarrow> answered (rename_device_route ho dw request)
      | DeleteDevice \<Rightarrow> answered (delete_device_route ho dw request)
      | ListDevices \<Rightarrow> answered (list_devices_route ho dw request)
      | ListAgents \<Rightarrow> answered (list_agents_route ho dw request)
      | CancelRequest \<Rightarrow> cancel_route ho dw request
      | OperatorAudit \<Rightarrow> answered (operator_audit ho request))"

text \<open>The host names the trusted-host middleware admits.\<close>

fun collect_hostnames :: "string list \<Rightarrow> string list res" where
  "collect_hostnames [] = Inr []"
| "collect_hostnames (authority # rest) =
     (case urlsplit (''//'' @ py_strip authority) of
        None \<Rightarrow> Inl ValueError
      | Some parsed \<Rightarrow>
          if url_hostname parsed = [] \<or> url_has_user parsed then Inl RuntimeError
          else bindR (collect_hostnames rest) (\<lambda>names. Inr (py_lower (url_hostname parsed) # names)))"

definition trusted_hostnames :: "string list \<Rightarrow> string list res" where
  "trusted_hostnames allowed_hosts =
     bindR (collect_hostnames allowed_hosts) (\<lambda>hostnames.
     if hostnames = [] then Inl RuntimeError else Inr (sort (remdups hostnames)))"

section \<open>What the routes promise\<close>

lemma catchH_apply: "catchH answer m h =
    (case fst (m h) of
       Inl e \<Rightarrow> (case answer e of Some r \<Rightarrow> (Inr r, snd (m h)) | None \<Rightarrow> (Inl e, snd (m h)))
     | Inr r \<Rightarrow> (Inr r, snd (m h)))"
  by (cases "m h"; cases "fst (m h)") (auto simp: catchH_def split: option.split)

lemma operator_authorized_True: "operator_authorized cfg request = Inr True \<Longrightarrow>
    hq_headers request ''authorization'' = Some (''Bearer '' @ cf_operator_bearer_token cfg)"
proof -
  assume a: "operator_authorized cfg request = Inr True"
  then obtain v where v: "hq_headers request ''authorization'' = Some v"
    by (cases "hq_headers request ''authorization''")
       (auto simp: operator_authorized_def starts_bearer_def starts_with_def)
  with a have "starts_with ''Bearer '' v" "drop (length ''Bearer '') v = cf_operator_bearer_token cfg"
    by (auto simp: operator_authorized_def starts_bearer_def compare_digest_def Let_def split: if_splits)
  then have "v = ''Bearer '' @ cf_operator_bearer_token cfg"
    unfolding starts_with_def by (metis append_take_drop_id)
  with v show ?thesis by simp
qed

lemma guarded_refuses:
  assumes "operator_authorized (ho_config ho) request \<noteq> Inr True"
  shows "guarded ho request handler h = (Inr unauthorized, h) \<or> guarded ho request handler h = (Inl TypeError, h)"
proof -
  have "operator_authorized (ho_config ho) request \<in> {Inl TypeError, Inr False, Inr True}"
    by (auto simp: operator_authorized_def compare_digest_def Let_def)
  with assms show ?thesis by (auto simp: guarded_def)
qed

lemma guarded_passes: "operator_authorized (ho_config ho) request = Inr True \<Longrightarrow> guarded ho request handler h = handler h"
  by (simp add: guarded_def)

lemmas route_defs = relay_error_contract_route_def relay_ca_publication_def issue_relay_certificate_def
  issue_enrollment_def revoke_device_route_def rename_device_route_def delete_device_route_def
  list_devices_route_def list_agents_route_def operator_audit_def

lemma answered_apply: "answered m h = (case fst (m h) of Inl e \<Rightarrow> (Inl e, snd (m h)) | Inr r \<Rightarrow> (Inr (Answered r), snd (m h)))"
  by (simp add: answered_def bindH_apply split: sum.split)

lemma guarded_answered:
  assumes "operator_authorized (ho_config ho) request \<noteq> Inr True"
  shows "answered (guarded ho request handler) h \<in> {(Inr (Answered unauthorized), h), (Inl TypeError, h)}"
  using guarded_refuses [OF assms, of handler h] by (auto simp: answered_apply)

lemma handle_refuses:
  assumes no: "operator_authorized (ho_config ho) request \<noteq> Inr True" and "route \<noteq> Health"
  shows "handle ho dw route request h \<in> {(Inr (Answered unauthorized), h), (Inl TypeError, h)}"
proof -
  have "operator_authorized (ho_config ho) request \<in> {Inl TypeError, Inr False, Inr True}"
    by (auto simp: operator_authorized_def compare_digest_def Let_def)
  with no have cancel: "cancel_route ho dw request h \<in> {(Inr (Answered unauthorized), h), (Inl TypeError, h)}"
    by (auto simp: cancel_route_def)
  show ?thesis
  proof (cases route)
    case CancelRequest
    with cancel show ?thesis by (simp add: handle_def)
  qed (use assms(2) in \<open>simp_all only: handle_def route.case route_defs guarded_answered [OF no] simp_thms\<close>)
qed

text \<open>
  C4. Every route but the health check belongs to the operator: a request that does not carry
  exactly the operator's bearer token changes nothing and learns nothing. It is answered with the
  same 401 on every route, or, when the header is not ASCII, with the exception of the comparison.
\<close>

theorem operator_routes_guarded:
  assumes "hq_headers request ''authorization'' \<noteq> Some (''Bearer '' @ cf_operator_bearer_token (ho_config ho))"
    and "route \<noteq> Health"
  shows "handle ho dw route request h \<in> {(Inr (Answered unauthorized), h), (Inl TypeError, h)}"
  using handle_refuses operator_authorized_True assms by blast

section \<open>The three device routes\<close>

text \<open>
  What revoking, deleting and renaming a device promise, on the row of the device alone: the answer
  and the row afterwards. \<open>t\<close> is the time of the change and \<open>label\<close> the stripped new label.
\<close>

fun device_action :: "route \<Rightarrow> string \<Rightarrow> timestamp \<Rightarrow> string \<Rightarrow> device_row option \<Rightarrow> response \<times> device_row option" where
  "device_action route c t label None = (refusal 404 ''device_not_found'', None)"
| "device_action RevokeDevice c t label (Some d) =
     (reply 200 [(''status'', JStr ''revoked''), (''connector_id'', JStr c)],
      Some (d\<lparr>dv_enrollment_state := Revoked, dv_revoked_at := Some t, dv_updated_at := t\<rparr>))"
| "device_action DeleteDevice c t label (Some d) =
     (if dv_enrollment_state d = Revoked
      then (reply 200 [(''status'', JStr ''deleted''), (''connector_id'', JStr c)], None)
      else (refusal 409 ''device_not_revoked'', Some d))"
| "device_action route c t label (Some d) =
     (if dv_enrollment_state d = Enrolled
      then (reply 200 [(''connector_id'', JStr c), (''display_label'', JStr label)],
            Some (d\<lparr>dv_display_label := label, dv_updated_at := t\<rparr>))
      else (refusal 400 ''device_revoked'', Some d))"

definition device_route_action :: "route \<Rightarrow> string" where
  "device_route_action route = (case route of
       RevokeDevice \<Rightarrow> ''device.revoked'' | DeleteDevice \<Rightarrow> ''device.deleted'' | _ \<Rightarrow> ''device.renamed'')"

text \<open>
  The store after an answer: the row of the device is the promised one, the other devices and their
  instances are as before, no instance of a revoked device is online and none of a deleted one is
  left; a refusal changes nothing, and a success adds one audit entry.
\<close>

definition device_effect :: "route \<Rightarrow> string \<Rightarrow> string \<Rightarrow> response \<times> device_row option \<Rightarrow> store \<Rightarrow> store \<Rightarrow> bool" where
  "device_effect route c event p st st' \<longleftrightarrow>
     get_device c st' = snd p
     \<and> (\<forall>c'. c' \<noteq> c \<longrightarrow> get_device c' st' = get_device c' st)
     \<and> filter (\<lambda>i. in_connector_id i \<noteq> c) (instances st') = filter (\<lambda>i. in_connector_id i \<noteq> c) (instances st)
     \<and> (if rs_status (fst p) = 200
        then (\<forall>i \<in> set (instances st'). in_connector_id i = c \<longrightarrow>
                route \<noteq> DeleteDevice \<and> (route = RevokeDevice \<longrightarrow> in_state i = Offline))
           \<and> (\<exists>a. audit st' = audit st @ [a] \<and> au_event_id a = event \<and> au_action a = device_route_action route
                  \<and> au_connector_id a = Some c)
        else st' = st)"

lemma append_audit_new:
  "tbl_get au_event_id ev (audit st) = None \<Longrightarrow>
   \<exists>a. append_audit ev action rc pr c rq d t st = (Inr ev, st\<lparr>audit := audit st @ [a]\<rparr>)
     \<and> au_event_id a = ev \<and> au_action a = action \<and> au_connector_id a = c"
  by (auto simp: append_audit_def tbl_insert_def)

lemma get_device_audit [simp]: "get_device c (st\<lparr>audit := a\<rparr>) = get_device c st"
  by (simp add: get_device_def)

lemma tbl_update_all: "(\<And>r. Q (if p r then f r else r)) \<Longrightarrow> \<forall>r \<in> set (tbl_update p f rows). Q r"
  unfolding tbl_update_def set_map by blast

lemma filter_other_update:
  "(\<And>r. p r \<Longrightarrow> \<not> q r \<and> \<not> q (f r)) \<Longrightarrow> filter q (tbl_update p f rows) = filter q rows"
  by (induction rows) (auto simp: tbl_update_def)

lemma revoke_effect:
  assumes "tbl_get au_event_id ev (audit st) = None"
  shows "\<exists>st'. service_revoke_device ev t1 t2 c st
       = (case get_device c st of None \<Rightarrow> (Inl (AgentError ''device_not_found''), st) | Some d \<Rightarrow> (Inr (), st'))
     \<and> (get_device c st \<noteq> None \<longrightarrow>
          device_effect RevokeDevice c ev (device_action RevokeDevice c (as_timestamp t1) l (get_device c st)) st st')"
proof (cases "get_device c st")
  case (Some d)
  let ?st1 = "snd (revoke_device c t1 st)"
  have st1: "?st1 = st\<lparr>devices := tbl_update (\<lambda>r. dv_connector_id r = c) (set_revoked (as_timestamp t1)) (devices st),
      instances := tbl_update (\<lambda>r. in_connector_id r = c \<and> in_state r \<noteq> Offline) (set_offline (as_timestamp t1)) (instances st)\<rparr>"
    and found: "fst (revoke_device c t1 st)"
    using Some by (simp_all add: revoke_device_def Let_def)
  have "tbl_get au_event_id ev (audit ?st1) = None" using assms by (simp add: st1)
  from append_audit_new [OF this] obtain a where
    audit: "append_audit ev ''device.revoked'' ''ok'' None (Some c) None [] t2 ?st1 = (Inr ev, ?st1\<lparr>audit := audit ?st1 @ [a]\<rparr>)"
    and a: "au_event_id a = ev" "au_action a = ''device.revoked''" "au_connector_id a = Some c" by blast
  have run: "service_revoke_device ev t1 t2 c st = (Inr (), ?st1\<lparr>audit := audit ?st1 @ [a]\<rparr>)"
    using found audit by (simp add: service_revoke_device_def bindA_def)
  have "dv_connector_id d = c" using Some unfolding get_device_def by (rule tbl_get_key)
  then have row: "get_device c ?st1 = Some (set_revoked (as_timestamp t1) d)"
    "c' \<noteq> c \<Longrightarrow> get_device c' ?st1 = get_device c' st" for c'
    using Some by (auto simp: st1 get_device_def revoke_upd.get_update dest: tbl_get_key intro!: option.map_ident_strong)
  have inst: "instances ?st1 = tbl_update (\<lambda>r. in_connector_id r = c \<and> in_state r \<noteq> Offline)
      (set_offline (as_timestamp t1)) (instances st)" by (simp add: st1)
  have others: "filter (\<lambda>i. in_connector_id i \<noteq> c) (instances ?st1) = filter (\<lambda>i. in_connector_id i \<noteq> c) (instances st)"
    unfolding inst by (rule filter_other_update) (simp add: set_offline_def)
  have aud: "audit ?st1 = audit st" by (simp add: st1)
  have off: "\<forall>i \<in> set (instances ?st1). in_connector_id i = c \<longrightarrow> in_state i = Offline"
    unfolding inst by (rule tbl_update_all) (simp add: set_offline_def)
  have "device_effect RevokeDevice c ev (device_action RevokeDevice c (as_timestamp t1) l (get_device c st)) st
      (?st1\<lparr>audit := audit ?st1 @ [a]\<rparr>)"
    unfolding device_effect_def using row others off a Some aud
    by (simp add: reply_def set_revoked_def device_route_action_def)
  with run Some show ?thesis by (intro exI [where x = "?st1\<lparr>audit := audit ?st1 @ [a]\<rparr>"]) simp
qed (simp add: service_revoke_device_def revoke_device_def)

lemma delete_effect:
  assumes "tbl_get au_event_id ev (audit st) = None" and "get_device c st = Some d" and "dv_enrollment_state d = Revoked"
  shows "\<exists>st'. service_delete_revoked_device ev t2 c st = (Inr (), st')
     \<and> device_effect DeleteDevice c ev (device_action DeleteDevice c t l (get_device c st)) st st'"
proof -
  let ?st1 = "snd (delete_revoked_device c st)"
  have st1: "?st1 = st\<lparr>instances := tbl_delete (\<lambda>r. in_connector_id r = c) (instances st),
      devices := tbl_delete (\<lambda>r. dv_connector_id r = c) (devices st)\<rparr>"
    and found: "fst (delete_revoked_device c st) = ''deleted''"
    using assms(2,3) by (simp_all add: delete_revoked_device_def)
  have "tbl_get au_event_id ev (audit ?st1) = None" using assms(1) by (simp add: st1)
  from append_audit_new [OF this] obtain a where
    audit: "append_audit ev ''device.deleted'' ''ok'' None (Some c) None [] t2 ?st1 = (Inr ev, ?st1\<lparr>audit := audit ?st1 @ [a]\<rparr>)"
    and a: "au_event_id a = ev" "au_action a = ''device.deleted''" "au_connector_id a = Some c" by blast
  have run: "service_delete_revoked_device ev t2 c st = (Inr (), ?st1\<lparr>audit := audit ?st1 @ [a]\<rparr>)"
    using found audit by (simp add: service_delete_revoked_device_def bindA_def)
  have "device_effect DeleteDevice c ev (device_action DeleteDevice c t l (get_device c st)) st
      (?st1\<lparr>audit := audit ?st1 @ [a]\<rparr>)"
    using a assms(2,3)
    by (auto simp: device_effect_def get_device_def reply_def device_route_action_def st1 tbl_delete_def [where p = "\<lambda>r. in_connector_id r = c"])
  with run show ?thesis by blast
qed

lemma rename_effect:
  assumes "tbl_get au_event_id ev (audit st) = None" and "get_device c st = Some d" and "dv_enrollment_state d = Enrolled"
    and "validate_display_label (JStr w) = Inr l"
  shows "\<exists>st'. rename_device ev t1 t2 c w st = (Inr (c, l), st')
     \<and> device_effect RenameDevice c ev (device_action RenameDevice c (as_timestamp t1) l (get_device c st)) st st'"
proof -
  let ?st1 = "update_display_label c l t1 st"
  have st1: "?st1 = st\<lparr>devices := tbl_update (\<lambda>r. dv_connector_id r = c) (set_label l (as_timestamp t1)) (devices st)\<rparr>"
    by (simp add: update_display_label_def)
  have "tbl_get au_event_id ev (audit ?st1) = None" using assms(1) by (simp add: st1)
  from append_audit_new [OF this] obtain a where
    audit: "append_audit ev ''device.renamed'' ''ok'' None (Some c) None [] t2 ?st1 = (Inr ev, ?st1\<lparr>audit := audit ?st1 @ [a]\<rparr>)"
    and a: "au_event_id a = ev" "au_action a = ''device.renamed''" "au_connector_id a = Some c" by blast
  have run: "rename_device ev t1 t2 c w st = (Inr (c, l), ?st1\<lparr>audit := audit ?st1 @ [a]\<rparr>)"
    using assms(2-4) audit by (simp add: rename_device_def bindA_def [of "append_audit _ _ _ _ _ _ _ _"])
  have "dv_connector_id d = c" using assms(2) unfolding get_device_def by (rule tbl_get_key)
  then have row: "get_device c ?st1 = Some (set_label l (as_timestamp t1) d)"
    "c' \<noteq> c \<Longrightarrow> get_device c' ?st1 = get_device c' st" for c'
    using assms(2) by (auto simp: st1 get_device_def label_upd.get_update dest: tbl_get_key intro!: option.map_ident_strong)
  have "device_effect RenameDevice c ev (device_action RenameDevice c (as_timestamp t1) l (get_device c st)) st
      (?st1\<lparr>audit := audit ?st1 @ [a]\<rparr>)"
    using row a assms(2,3)
    by (auto simp: device_effect_def get_device_def reply_def set_label_def device_route_action_def st1)
  with run show ?thesis by blast
qed

lemma refused_effect:
  "rs_status (fst p) \<noteq> 200 \<Longrightarrow> snd p = get_device c st \<Longrightarrow> device_effect route c ev p st st"
  by (simp add: device_effect_def)

lemma handle_revoke:
  assumes "operator_authorized (ho_config ho) request = Inr True"
  shows "handle ho dw RevokeDevice request h =
    (let c = hq_path request ''connector_id'';
         S = service_revoke_device (dw_event dw) (dw_t1 dw) (dw_t2 dw) c (hb_store h); h' = h\<lparr>hb_store := snd S\<rparr>
     in case fst S of
          Inl (AgentError e) \<Rightarrow> (Inr (Answered (refusal 404 e)), h')
        | Inl e \<Rightarrow> (Inl e, h')
        | Inr _ \<Rightarrow> (Inr (Answered (reply 200 [(''status'', JStr ''revoked''), (''connector_id'', JStr c)])), h'))"
  by (simp add: handle_def answered_apply revoke_device_route_def guarded_passes [OF assms] catchH_apply bindH_apply
      Let_def storeH_def split: sum.split exn.split)

lemma handle_delete:
  assumes "operator_authorized (ho_config ho) request = Inr True"
  shows "handle ho dw DeleteDevice request h =
    (let c = hq_path request ''connector_id'';
         S = service_delete_revoked_device (dw_event dw) (dw_t2 dw) c (hb_store h); h' = h\<lparr>hb_store := snd S\<rparr>
     in case fst S of
          Inl (AgentError e) \<Rightarrow> (Inr (Answered (refusal (if e = ''device_not_found'' then 404
                                    else if e = ''device_not_revoked'' then 409 else 400) e)), h')
        | Inl e \<Rightarrow> (Inl e, h')
        | Inr _ \<Rightarrow> (Inr (Answered (reply 200 [(''status'', JStr ''deleted''), (''connector_id'', JStr c)])), h'))"
  by (simp add: handle_def answered_apply delete_device_route_def guarded_passes [OF assms] catchH_apply bindH_apply
      Let_def storeH_def split: sum.split exn.split)

lemma handle_rename:
  assumes "operator_authorized (ho_config ho) request = Inr True"
    and "hq_body request = Inr (JObj body)" and "map_of body ''display_label'' = Some v"
  shows "handle ho dw RenameDevice request h =
    (let S = rename_device (dw_event dw) (dw_t1 dw) (dw_t2 dw) (hq_path request ''connector_id'') (or_empty v) (hb_store h);
         h' = h\<lparr>hb_store := snd S\<rparr>
     in case fst S of
          Inl (AgentError e) \<Rightarrow> (Inr (Answered (refusal (if e = ''device_not_found'' then 404 else 400) e)), h')
        | Inl e \<Rightarrow> (Inl e, h')
        | Inr (c, l) \<Rightarrow> (Inr (Answered (reply 200 [(''connector_id'', JStr c), (''display_label'', JStr l)])), h'))"
  using assms(2,3)
  by (simp add: handle_def answered_apply rename_device_route_def guarded_passes [OF assms(1)] catchH_apply bindH_apply
      Let_def storeH_def member_def split: sum.split exn.split prod.split)

text \<open>The three routes one at a time: the answer and the store they leave.\<close>

lemma revoke_route_implements:
  assumes "operator_authorized (ho_config ho) request = Inr True"
    and "tbl_get au_event_id (dw_event dw) (audit (hb_store h)) = None"
    and c: "c = hq_path request ''connector_id''"
    and p: "p = device_action RevokeDevice c (as_timestamp (dw_t1 dw)) label (get_device c (hb_store h))"
  shows "\<exists>st'. handle ho dw RevokeDevice request h = (Inr (Answered (fst p)), h\<lparr>hb_store := st'\<rparr>)
            \<and> device_effect RevokeDevice c (dw_event dw) p (hb_store h) st'"
proof -
  let ?st = "hb_store h"
  obtain st' where run: "service_revoke_device (dw_event dw) (dw_t1 dw) (dw_t2 dw) c ?st
      = (case get_device c ?st of None \<Rightarrow> (Inl (AgentError ''device_not_found''), ?st) | Some d \<Rightarrow> (Inr (), st'))"
    and eff: "get_device c ?st \<noteq> None \<longrightarrow> device_effect RevokeDevice c (dw_event dw) p ?st st'"
    using revoke_effect [OF assms(2), of "dw_t1 dw" "dw_t2 dw" c label] unfolding p by blast
  show ?thesis
  proof (cases "get_device c ?st")
    case None
    then have "device_effect RevokeDevice c (dw_event dw) p ?st ?st"
      by (intro refused_effect) (simp_all add: p refusal_def reply_def)
    with None run show ?thesis
      by (auto simp: handle_revoke [OF assms(1)] c [symmetric] Let_def p intro!: exI [where x = ?st])
  next
    case (Some d)
    with run eff show ?thesis by (simp add: handle_revoke [OF assms(1)] c [symmetric] Let_def p) blast
  qed
qed

lemma delete_route_implements:
  assumes "operator_authorized (ho_config ho) request = Inr True"
    and "tbl_get au_event_id (dw_event dw) (audit (hb_store h)) = None"
    and c: "c = hq_path request ''connector_id''"
    and p: "p = device_action DeleteDevice c (as_timestamp (dw_t1 dw)) label (get_device c (hb_store h))"
  shows "\<exists>st'. handle ho dw DeleteDevice request h = (Inr (Answered (fst p)), h\<lparr>hb_store := st'\<rparr>)
            \<and> device_effect DeleteDevice c (dw_event dw) p (hb_store h) st'"
proof -
  let ?st = "hb_store h"
  show ?thesis
  proof (cases "\<exists>d. get_device c ?st = Some d \<and> dv_enrollment_state d = Revoked")
    case True
    then obtain d where d: "get_device c ?st = Some d" "dv_enrollment_state d = Revoked" by blast
    from delete_effect [OF assms(2) d, of "dw_t2 dw" "as_timestamp (dw_t1 dw)" label] obtain st' where
      "service_delete_revoked_device (dw_event dw) (dw_t2 dw) c ?st = (Inr (), st')"
      "device_effect DeleteDevice c (dw_event dw) p ?st st'" unfolding p by blast
    with d show ?thesis by (simp add: handle_delete [OF assms(1)] c [symmetric] Let_def p) blast
  next
    case False
    then have "device_effect DeleteDevice c (dw_event dw) p ?st ?st"
      by (cases "get_device c ?st") (auto simp: p refusal_def reply_def intro!: refused_effect)
    moreover have "service_delete_revoked_device (dw_event dw) (dw_t2 dw) c ?st
        = (Inl (AgentError (if get_device c ?st = None then ''device_not_found'' else ''device_not_revoked'')), ?st)"
      using False by (auto simp: service_delete_revoked_device_def delete_revoked_device_def split: option.split)
    ultimately show ?thesis
      using False by (cases "get_device c ?st")
        (auto simp: handle_delete [OF assms(1)] c [symmetric] Let_def p intro!: exI [where x = ?st])
  qed
qed

lemma rename_route_implements:
  assumes "operator_authorized (ho_config ho) request = Inr True"
    and "tbl_get au_event_id (dw_event dw) (audit (hb_store h)) = None"
    and body: "hq_body request = Inr (JObj body)" "map_of body ''display_label'' = Some v"
    and c: "c = hq_path request ''connector_id''" and label: "label = py_strip (or_empty v)"
    and p: "p = device_action RenameDevice c (as_timestamp (dw_t1 dw)) label (get_device c (hb_store h))"
    and ok: "DISPLAY_LABEL_PATTERN label"
  shows "\<exists>st'. handle ho dw RenameDevice request h = (Inr (Answered (fst p)), h\<lparr>hb_store := st'\<rparr>)
            \<and> device_effect RenameDevice c (dw_event dw) p (hb_store h) st'"
proof -
  let ?st = "hb_store h"
  note handle = handle_rename [OF assms(1) body, of dw h, folded c]
  have valid: "validate_display_label (JStr (or_empty v)) = Inr label"
    using ok by (simp add: validate_display_label_def label)
  show ?thesis
  proof (cases "\<exists>d. get_device c ?st = Some d \<and> dv_enrollment_state d = Enrolled")
    case True
    then obtain d where d: "get_device c ?st = Some d" "dv_enrollment_state d = Enrolled" by blast
    from rename_effect [OF assms(2) d valid, of "dw_t1 dw" "dw_t2 dw"] obtain st' where
      "rename_device (dw_event dw) (dw_t1 dw) (dw_t2 dw) c (or_empty v) ?st = (Inr (c, label), st')"
      "device_effect RenameDevice c (dw_event dw) p ?st st'" unfolding p by blast
    with d show ?thesis by (simp add: handle Let_def p) blast
  next
    case False
    then have "device_effect RenameDevice c (dw_event dw) p ?st ?st"
      by (cases "get_device c ?st") (auto simp: p refusal_def reply_def intro!: refused_effect)
    moreover have "rename_device (dw_event dw) (dw_t1 dw) (dw_t2 dw) c (or_empty v) ?st
        = (Inl (AgentError (if get_device c ?st = None then ''device_not_found'' else ''device_revoked'')), ?st)"
      using False valid by (auto simp: rename_device_def split: option.split)
    ultimately show ?thesis
      using False by (cases "get_device c ?st") (auto simp: handle Let_def p intro!: exI [where x = ?st])
  qed
qed

lemma rename_route_refuses:
  assumes "operator_authorized (ho_config ho) request = Inr True"
    and body: "hq_body request = Inr (JObj body)" "map_of body ''display_label'' = Some v"
    and "\<not> DISPLAY_LABEL_PATTERN (py_strip (or_empty v))"
  shows "handle ho dw RenameDevice request h = (Inl (ProtocolError ''display_label is invalid''), h)"
  using assms(4)
  by (simp add: handle_rename [OF assms(1) body] rename_device_def validate_display_label_def)

text \<open>
  C38. The three device routes do what they promise. For the operator, revoking, deleting and renaming
  a device answer by the state of the device: 404 when it is unknown; a revocation is answered
  with 200; a deletion with 200 only for a revoked device and with 409 for an enrolled one; a
  renaming with 200 only for an enrolled device and with 400 for a revoked one. The store then is
  as device_effect says, and a refusal changes nothing. The one case without an answer is a label
  that the grammar refuses: the handler expects only AgentError, so the exception goes on to
  the server, before anything is changed.
\<close>

theorem device_routes_implement:
  assumes "operator_authorized (ho_config ho) request = Inr True"
    and "route \<in> {RevokeDevice, DeleteDevice, RenameDevice}"
    and "tbl_get au_event_id (dw_event dw) (audit (hb_store h)) = None"
    and "route = RenameDevice \<Longrightarrow> hq_body request = Inr (JObj body) \<and> map_of body ''display_label'' = Some v"
    and c: "c = hq_path request ''connector_id''" and label: "label = py_strip (or_empty v)"
    and p: "p = device_action route c (as_timestamp (dw_t1 dw)) label (get_device c (hb_store h))"
  shows "if route = RenameDevice \<and> \<not> DISPLAY_LABEL_PATTERN label
     then handle ho dw route request h = (Inl (ProtocolError ''display_label is invalid''), h)
     else \<exists>st'. handle ho dw route request h = (Inr (Answered (fst p)), h\<lparr>hb_store := st'\<rparr>)
            \<and> device_effect route c (dw_event dw) p (hb_store h) st'"
proof -
  from assms(2) consider (revoke) "route = RevokeDevice" | (delete) "route = DeleteDevice" | (rename) "route = RenameDevice"
    by blast
  then show ?thesis
  proof cases
    case revoke
    with revoke_route_implements [OF assms(1,3) c, of p label] p show ?thesis by simp
  next
    case delete
    with delete_route_implements [OF assms(1,3) c, of p label] p show ?thesis by simp
  next
    case rename
    then have body: "hq_body request = Inr (JObj body)" "map_of body ''display_label'' = Some v"
      using assms(4) by simp_all
    show ?thesis
      using rename rename_route_refuses [OF assms(1) body, of dw h]
        rename_route_implements [OF assms(1,3) body c label, of p] p label by simp
  qed
qed

text \<open>Issuing never raises: with the operator's token these two routes always answer.\<close>

lemma issuing_routes_answer:
  assumes "operator_authorized (ho_config ho) request = Inr True"
    and "route \<in> {RelayCertificates, EnrollmentTokens}"
  shows "\<exists>r. fst (handle ho dw route request h) = Inr (Answered r)"
  using assms
  by (auto simp: handle_def answered_apply issue_relay_certificate_def issue_enrollment_def guarded_passes
      catchH_apply split: sum.split)

text \<open>What the trusted-host middleware is given: at least one name, each once, in order and lower case.\<close>

lemma collect_hostnames_Inr: "collect_hostnames hs = Inr ns \<Longrightarrow> \<forall>n \<in> set ns. n \<noteq> [] \<and> py_lower n = n"
  by (induction hs arbitrary: ns) (auto simp: py_lower_def split: option.splits if_splits)

lemma trusted_hostnames_Inr:
  "trusted_hostnames hs = Inr ns \<Longrightarrow>
   ns \<noteq> [] \<and> sorted ns \<and> distinct ns \<and> (\<forall>n \<in> set ns. n \<noteq> [] \<and> py_lower n = n)"
  using collect_hostnames_Inr [of hs] unfolding trusted_hostnames_def bindR_eq_Inr
  by (elim exE conjE) (auto dest: arg_cong [of _ _ set] split: if_splits)

lemma trusted_hostnames_examples:
  "trusted_hostnames [''Relay.Example:8443'', ''10.0.0.1'', ''relay.example''] = Inr [''10.0.0.1'', ''relay.example'']"
  "trusted_hostnames [''user@relay''] = Inl RuntimeError"
  by code_simp+

section \<open>Revocation, end to end\<close>

lemma service_revoke_Inr:
  assumes "fst (service_revoke_device ev t1 t2 c st) = Inr u"
  shows "fst (revoke_device c t1 st) \<and> snd (service_revoke_device ev t1 t2 c st)
    = snd (append_audit ev ''device.revoked'' ''ok'' None (Some c) None [] t2 (snd (revoke_device c t1 st)))"
  using assms by (simp add: service_revoke_device_def bindA_eq_Inr snd_bindA split: if_splits sum.splits)

lemma revoke_route_200:
  assumes "handle ho dw RevokeDevice request h = (Inr (Answered r), h')" and "rs_status r = 200"
  shows "fst (revoke_device (hq_path request ''connector_id'') (dw_t1 dw) (hb_store h))
    \<and> hb_store h' = snd (append_audit (dw_event dw) ''device.revoked'' ''ok'' None
         (Some (hq_path request ''connector_id'')) None [] (dw_t2 dw)
         (snd (revoke_device (hq_path request ''connector_id'') (dw_t1 dw) (hb_store h))))"
proof -
  have auth: "operator_authorized (ho_config ho) request = Inr True"
  proof (rule ccontr)
    assume "operator_authorized (ho_config ho) request \<noteq> Inr True"
    then have "handle ho dw RevokeDevice request h \<in> {(Inr (Answered unauthorized), h), (Inl TypeError, h)}"
      unfolding handle_def route.case revoke_device_route_def by (rule guarded_answered)
    with assms show False by (simp add: unauthorized_def refusal_def reply_def)
  qed
  define S where "S = service_revoke_device (dw_event dw) (dw_t1 dw) (dw_t2 dw) (hq_path request ''connector_id'') (hb_store h)"
  obtain u where u: "fst S = Inr u"
  proof (cases "fst S")
    case (Inl e)
    then have "fst (handle ho dw RevokeDevice request h) = (case e of AgentError c \<Rightarrow> Inr (Answered (refusal 404 c)) | _ \<Rightarrow> Inl e)"
      by (cases e) (simp_all add: handle_def answered_apply revoke_device_route_def guarded_passes [OF auth]
        catchH_apply bindH_apply Let_def storeH_def S_def split: prod.split)
    with assms have False by (auto simp: refusal_def reply_def split: exn.splits)
    then show ?thesis ..
  qed
  then have "hb_store (snd (handle ho dw RevokeDevice request h)) = snd S"
    by (simp add: handle_def answered_apply revoke_device_route_def guarded_passes [OF auth]
        catchH_apply bindH_apply Let_def storeH_def S_def split: prod.split)
  with service_revoke_Inr [OF u [unfolded S_def]] assms(1) show ?thesis by (simp add: S_def)
qed

text \<open>
  C5. Once the operator has been told that a device is revoked, no tool call reaches it again:
  whatever the store goes through afterwards short of the deletion of the device, and whatever
  sessions and identities there are, no command for it is started.
\<close>

theorem revoked_device_gets_no_command:
  assumes "store_inv (hb_store h)"
    and "handle ho dw RevokeDevice request h = (Inr (Answered r), h')" and "rs_status r = 200"
    and "OpDelete (hq_path request ''connector_id'') \<notin> set ops"
    and "hb_store g = run_steps (store_step sha) ops (hb_store h')"
    and "parse_connector_id (JStr (tr_connector_id q)) = Inr (hq_path request ''connector_id'')"
  shows "fst (call_tool dc headers env q g) \<noteq> Inr (Started cm frame)"
proof
  let ?c = "hq_path request ''connector_id''"
  note revoked = revoke_route_200 [OF assms(2,3)]
  have rev: "is_revoked ?c (hb_store h')"
    using revoked is_revoked_step [OF _ revoke_device_revokes,
        of "OpAudit (dw_event dw) ''device.revoked'' ''ok'' None (Some ?c) None [] (dw_t2 dw)"] by auto
  have inv: "store_inv (hb_store h')"
    using revoked assms(1) by (simp add: inv_step)
  have state: "store_inv (hb_store g)" "is_revoked ?c (hb_store g)"
    using inv rev assms(4,5) by (auto intro!: store_machine.run_inv revoked_machine.run_inv)
  assume "fst (call_tool dc headers env q g) = Inr (Started cm frame)"
  then obtain identity h'' where go: "device_command env identity (tr_tool q) (tr_connector_id q) (tr_arguments q)
      (tr_idempotency_key q) (tr_instance_id q) g = (Inr (Started cm frame), h'')"
    by (metis call_tool_Started prod.collapse)
  from device_command_started [OF go] obtain row where
    "fst (relay_session (ce_stale_seconds env) (ce_now_route env) ?c (tr_instance_id q) (hb_store g)) = Inr (Some row)"
    using assms(6) by auto
  then have "row \<in> set (instances (hb_store g))
      \<and> is_live ?c (as_timestamp (fresh_after (ce_stale_seconds env) (ce_now_route env))) row"
    using latest_live exact_live by (auto simp: relay_session_def bindA_liftA split: if_splits sum.splits)
  with live_enrolled [OF state(1)] state(2) show False
    unfolding is_revoked_def by (metis enrollment_state.distinct(1) option.inject)
qed

section \<open>A host, an operator and a device\<close>

definition demo_config :: config where
  "demo_config =
     \<lparr>cf_database_url = ''sqlite:///agents.db'', cf_mcp_bearer_token = ''hub-token'',
      cf_hub_delegation_secret = ''secret'', cf_operator_bearer_token = ''operator-token'', cf_hub_audience = ''aud'',
      cf_private_mcp_url = ''https://relay/mcp'', cf_bind_host = ''127.0.0.1'', cf_bind_port = 3030,
      cf_allowed_hosts = [''relay''], cf_allow_insecure_private_mcp = False, cf_trust_proxy_tls = False,
      cf_request_timeout_seconds = 60, cf_heartbeat_timeout_seconds = 30, cf_require_signed_app_assertion = False,
      cf_relay_handshake_timeout_seconds = 15, cf_public_ca_cert_path = None, cf_ca_private_key_path = None,
      cf_relay_ip = ''10.21.4.101'', cf_relay_certificate_validity_days = 90\<rparr>"

definition demo_host :: host where
  "demo_host = \<lparr>ho_config = demo_config, ho_x509 = sample_lib, ho_sha = demo_sha, ho_real_text = (\<lambda>_. [])\<rparr>"

definition demo_draws :: draws where
  "demo_draws = \<lparr>dw_token = ''t'', dw_event = ''ev-7'', dw_t1 = seconds 120, dw_t2 = seconds 120,
     dw_clock = (\<lambda>_. seconds 120), dw_serial = 1\<rparr>"

definition operator_request :: http_request where
  "operator_request =
     \<lparr>hq_headers = (\<lambda>n. if n = ''authorization'' then Some ''Bearer operator-token'' else None),
      hq_body = Inl ValueError, hq_path = (\<lambda>_. ''dev-1''), hq_query = (\<lambda>_. None)\<rparr>"

definition hub_request :: http_request where
  "hub_request = operator_request\<lparr>hq_headers := (\<lambda>_. Some ''Bearer hub-token'')\<rparr>"

theorem operator_routes_guarded_witness:
  "handle demo_host demo_draws RevokeDevice hub_request demo_hub
   \<in> {(Inr (Answered unauthorized), demo_hub), (Inl TypeError, demo_hub)}"
  by (rule operator_routes_guarded)
     (simp_all add: hub_request_def operator_request_def demo_host_def demo_config_def)

fun succeeded :: "cancel_progress res \<Rightarrow> bool" where
  "succeeded (Inr (Answered r)) = (rs_status r = 200)"
| "succeeded _ = False"

lemma demo_revoked: "succeeded (fst (handle demo_host demo_draws RevokeDevice operator_request demo_hub))"
  by code_simp

theorem device_routes_implement_witness:
  "\<exists>st' d. handle demo_host demo_draws RevokeDevice operator_request demo_hub
       = (Inr (Answered (reply 200 [(''status'', JStr ''revoked''), (''connector_id'', JStr ''dev-1'')])),
          demo_hub\<lparr>hb_store := st'\<rparr>)
     \<and> get_device ''dev-1'' st' = Some d \<and> dv_enrollment_state d = Revoked \<and> dv_revoked_at d = Some 120"
proof -
  have auth: "operator_authorized (ho_config demo_host) operator_request = Inr True" by code_simp
  have "get_device ''dev-1'' demo_live \<noteq> None" by code_simp
  then obtain d where d: "get_device ''dev-1'' demo_live = Some d" by blast
  have fresh: "tbl_get au_event_id (dw_event demo_draws) (audit (hb_store demo_hub)) = None"
    unfolding demo_hub_store by code_simp
  have path: "''dev-1'' = hq_path operator_request ''connector_id''" by (simp add: operator_request_def)
  have t: "as_timestamp (dw_t1 demo_draws) = 120" by code_simp
  let ?p = "device_action RevokeDevice ''dev-1'' (as_timestamp (dw_t1 demo_draws)) [] (get_device ''dev-1'' (hb_store demo_hub))"
  have p: "?p = (reply 200 [(''status'', JStr ''revoked''), (''connector_id'', JStr ''dev-1'')],
      Some (d\<lparr>dv_enrollment_state := Revoked, dv_revoked_at := Some 120, dv_updated_at := 120\<rparr>))"
    by (simp add: demo_hub_store d t)
  have label: "[] = py_strip (or_empty JNull)" by code_simp
  obtain st' where run: "handle demo_host demo_draws RevokeDevice operator_request demo_hub
      = (Inr (Answered (fst ?p)), demo_hub\<lparr>hb_store := st'\<rparr>)"
    and eff: "device_effect RevokeDevice ''dev-1'' (dw_event demo_draws) ?p (hb_store demo_hub) st'"
    using device_routes_implement [OF auth _ fresh _ path label refl, where route = RevokeDevice and body = "[]"] by auto
  have "get_device ''dev-1'' st' = snd ?p" using eff unfolding device_effect_def by blast
  note row = this [unfolded p snd_conv]
  show ?thesis
    by (rule exI [where x = st'], rule exI, intro conjI, rule run [unfolded p fst_conv], rule row) simp_all
qed

theorem revoked_device_gets_no_command_witness:
  "fst (call_tool demo_check sample_headers demo_env demo_request
         (snd (handle demo_host demo_draws RevokeDevice operator_request demo_hub))) \<noteq> Inr (Started demo_cm JNull)"
proof -
  let ?p = "handle demo_host demo_draws RevokeDevice operator_request demo_hub"
  obtain r where r: "fst ?p = Inr (Answered r)" "rs_status r = 200"
    using demo_revoked by (cases "fst ?p" rule: succeeded.cases) simp_all
  then have p: "?p = (Inr (Answered r), snd ?p)" by (metis prod.collapse)
  have inv: "store_inv (hb_store demo_hub)" by (simp add: demo_hub_store demo_live_inv)
  have parsed: "parse_connector_id (JStr (tr_connector_id demo_request)) = Inr (hq_path operator_request ''connector_id'')"
    by (simp add: demo_request_def connector_health_def make_request_def operator_request_def) code_simp
  from revoked_device_gets_no_command [OF inv p r(2), of "[]" _ demo_sha, OF _ _ parsed] show ?thesis by simp
qed

end
