(* ===== verification/Migrations.thy ===== *)
theory Migrations
  imports Config "HOL-Library.Code_Target_Nat"
begin

text \<open>
  Opening the database: the migrations of \<open>remote_agent_connector/store.py\<close> and the adapter of
  \<open>remote_agent_connector/db.py\<close>. The SQL engine is a parameter, a function from a statement and a
  database to a database or an exception; the table \<open>schema_migrations\<close> is kept beside it as the
  list of its versions.
\<close>

section \<open>Where the database is\<close>

definition sqlite_prefix :: string where
  "sqlite_prefix = ''sqlite:///''"

definition store_path :: "string \<Rightarrow> string" where
  "store_path database_path =
     (if starts_with sqlite_prefix database_path then drop (length sqlite_prefix) database_path else database_path)"

datatype database_target = SqliteFile string | Postgres string

definition database_of_url :: "string \<Rightarrow> database_target res" where
  "database_of_url url =
     (if starts_with sqlite_prefix (py_lower url)
      then (let path = drop (length sqlite_prefix) url in if path = [] then Inl RuntimeError else Inr (SqliteFile path))
      else Inr (Postgres url))"

definition adapt_sql :: "database_target \<Rightarrow> string \<Rightarrow> string" where
  "adapt_sql target statement =
     (case target of SqliteFile _ \<Rightarrow> statement | Postgres _ \<Rightarrow> replace_all ''?'' ''%s'' statement)"

section \<open>Splitting a script\<close>

text \<open>The splitter of the store.\<close>

definition split_statements :: "string \<Rightarrow> string list" where
  "split_statements script = filter (\<lambda>s. s \<noteq> []) (map py_strip (py_split (CHR '';'') script))"

text \<open>
  The splitter of the adapter, which keeps quoted semicolons and the bodies of triggers together.
  \<open>py_upper\<close> is only compared with ASCII capitals, so the capitals of ASCII letters are enough.
\<close>

definition upper_char :: "char \<Rightarrow> char" where
  "upper_char c = (if is_lower c then char_of (code c - 32) else c)"

definition py_upper :: "string \<Rightarrow> string" where
  "py_upper s = map upper_char s"

definition ends_with :: "'a list \<Rightarrow> 'a list \<Rightarrow> bool" where
  "ends_with p s = starts_with (rev p) (rev s)"

record splitter =
  sp_statements :: "string list"
  sp_current :: string
  sp_quote :: "char option"
  sp_trigger :: bool

definition quote_chars :: string where
  "quote_chars = [CHR 0x27, CHR 0x22]"

definition split_char :: "char \<Rightarrow> splitter \<Rightarrow> splitter" where
  "split_char c st =
     (let current = sp_current st @ [c]; st = st\<lparr>sp_current := current\<rparr> in
      case sp_quote st of
        Some q \<Rightarrow> if c = q then st\<lparr>sp_quote := None\<rparr> else st
      | None \<Rightarrow>
          if c \<in> set quote_chars then st\<lparr>sp_quote := Some c\<rparr>
          else if c = CHR '';'' then
            (let statement = py_strip current;
                 trigger = sp_trigger st \<or> starts_with ''CREATE TRIGGER'' (py_upper statement)
             in if trigger \<and> \<not> ends_with ''END;'' (py_upper statement) then st\<lparr>sp_trigger := trigger\<rparr>
                else st\<lparr>sp_statements := sp_statements st @ (if statement \<noteq> [] then [statement] else []),
                        sp_current := [], sp_trigger := False\<rparr>)
          else st)"

definition split_finish :: "splitter \<Rightarrow> string list" where
  "split_finish st =
     (let trailing = py_strip (sp_current st) in sp_statements st @ (if trailing \<noteq> [] then [trailing] else []))"

definition split_statements_db :: "string \<Rightarrow> string list" where
  "split_statements_db script =
     split_finish (fold split_char script \<lparr>sp_statements = [], sp_current = [], sp_quote = None, sp_trigger = False\<rparr>)"

section \<open>Migrating\<close>

record 'db versioned =
  vd_db :: 'db
  vd_versions :: "string list"

type_synonym 'db engine = "string \<Rightarrow> 'db \<Rightarrow> 'db res"

fun run_statements :: "'db engine \<Rightarrow> string list \<Rightarrow> 'db \<Rightarrow> 'db res" where
  "run_statements sql [] db = Inr db"
| "run_statements sql (s # ss) db = bindR (sql s db) (run_statements sql ss)"

definition INITIAL_MIGRATION :: string where
  "INITIAL_MIGRATION = ''001_initial.sql''"

text \<open>The loop over the migration files; \<open>applied\<close> was read before it.\<close>

fun apply_migrations ::
    "(string \<Rightarrow> string list) \<Rightarrow> 'db engine \<Rightarrow> string set \<Rightarrow> (string \<times> string) list \<Rightarrow> 'db versioned \<Rightarrow> 'db versioned res" where
  "apply_migrations split sql applied [] st = Inr st"
| "apply_migrations split sql applied ((name, script) # files) st =
     (if name \<in> applied then apply_migrations split sql applied files st
      else bindR (run_statements sql (split script) (vd_db st)) (\<lambda>db.
           apply_migrations split sql applied files \<lparr>vd_db = db, vd_versions = vd_versions st @ [name]\<rparr>))"

text \<open>A database created before the versions were recorded counts as having the initial schema.\<close>

definition bootstrap :: "('db \<Rightarrow> bool) \<Rightarrow> 'db versioned \<Rightarrow> 'db versioned" where
  "bootstrap has_devices st =
     (if vd_versions st = [] \<and> has_devices (vd_db st) then st\<lparr>vd_versions := [INITIAL_MIGRATION]\<rparr> else st)"

text \<open>\<open>with self.transaction()\<close>: an exception of the body undoes what it wrote and goes on.\<close>

definition transaction :: "('s \<Rightarrow> 's res) \<Rightarrow> 's \<Rightarrow> unit res \<times> 's" where
  "transaction body st = (case body st of Inl e \<Rightarrow> (Inl e, st) | Inr st' \<Rightarrow> (Inr (), st'))"

text \<open>\<open>_migrate\<close>: one transaction; \<open>files\<close> is \<open>None\<close> when the directory is missing.\<close>

definition migrate ::
    "'db engine \<Rightarrow> ('db \<Rightarrow> bool) \<Rightarrow> (string \<times> string) list option \<Rightarrow> 'db versioned \<Rightarrow> unit res \<times> 'db versioned" where
  "migrate sql has_devices files st =
     (case files of
        None \<Rightarrow> (Inl RuntimeError, st)
      | Some fs \<Rightarrow> transaction (\<lambda>st0.
          (let st1 = bootstrap has_devices st0
           in apply_migrations split_statements sql (set (vd_versions st1)) (sort_key fst fs) st1)) st)"

text \<open>The adapter's \<open>migrate\<close> has its own splitter and no bootstrap.\<close>

definition migrate_db ::
    "'db engine \<Rightarrow> (string \<times> string) list option \<Rightarrow> 'db versioned \<Rightarrow> unit res \<times> 'db versioned" where
  "migrate_db sql files st =
     (case files of
        None \<Rightarrow> (Inl RuntimeError, st)
      | Some fs \<Rightarrow> transaction (\<lambda>st0.
          apply_migrations split_statements_db sql (set (vd_versions st0)) (sort_key fst fs) st0) st)"

section \<open>Each migration runs once\<close>

lemma run_statements_append:
  "run_statements sql (xs @ ys) db = bindR (run_statements sql xs db) (run_statements sql ys)"
  by (induction xs arbitrary: db) (auto simp: bindR_def split: sum.split)

definition pending :: "string set \<Rightarrow> (string \<times> string) list \<Rightarrow> (string \<times> string) list" where
  "pending applied files = filter (\<lambda>f. fst f \<notin> applied) files"

lemma apply_migrations_Inr:
  "apply_migrations split sql applied files st = Inr st' \<longleftrightarrow>
   run_statements sql (concat (map (split \<circ> snd) (pending applied files))) (vd_db st) = Inr (vd_db st')
   \<and> vd_versions st' = vd_versions st @ map fst (pending applied files)"
proof (induction split sql applied files st rule: apply_migrations.induct)
  case (1 split sql applied st)
  then show ?case by (auto simp: pending_def)
next
  case (2 split sql applied name script files st)
  show ?case
  proof (cases "name \<in> applied")
    case True
    with 2(1) show ?thesis by (simp add: pending_def)
  next
    case False
    then show ?thesis
      using 2(2) [OF False]
      by (cases "run_statements sql (split script) (vd_db st)") (simp_all add: pending_def run_statements_append)
  qed
qed

lemma apply_none_pending: "fst ` set files \<subseteq> applied \<Longrightarrow> apply_migrations split sql applied files st = Inr st"
  by (induction files) auto

text \<open>
  C39. A migration that succeeds has run the statements of exactly the files not yet recorded, in
  the order of their names, and has recorded every file; migrating again, with any engine at all,
  runs no statement and changes nothing. A migration that fails leaves the database as it was.
\<close>

theorem migrations_run_once:
  assumes "files \<noteq> []"
  shows "case migrate sql has_devices (Some files) st of
     (Inr _, st') \<Rightarrow>
       run_statements sql (concat (map (split_statements \<circ> snd)
           (pending (set (vd_versions (bootstrap has_devices st))) (sort_key fst files)))) (vd_db st) = Inr (vd_db st')
       \<and> fst ` set files \<subseteq> set (vd_versions st')
       \<and> migrate sql' has_devices' (Some files) st' = (Inr (), st')
   | (Inl _, st') \<Rightarrow> st' = st"
proof (cases "fst (migrate sql has_devices (Some files) st)")
  case (Inl e)
  then show ?thesis by (auto simp: migrate_def transaction_def Let_def split: sum.splits)
next
  case (Inr u)
  let ?st = "bootstrap has_devices st"
  from Inr obtain st' where m: "migrate sql has_devices (Some files) st = (Inr (), st')"
    and ok: "apply_migrations split_statements sql (set (vd_versions ?st)) (sort_key fst files) ?st = Inr st'"
    by (auto simp: migrate_def transaction_def Let_def split: sum.splits)
  have run: "run_statements sql (concat (map (split_statements \<circ> snd)
      (pending (set (vd_versions ?st)) (sort_key fst files)))) (vd_db st) = Inr (vd_db st')"
    and versions: "vd_versions st' = vd_versions ?st @ map fst (pending (set (vd_versions ?st)) (sort_key fst files))"
    using ok by (auto simp: apply_migrations_Inr bootstrap_def split: if_splits)
  have recorded: "fst ` set files \<subseteq> set (vd_versions st')"
    unfolding versions pending_def by auto
  then have "vd_versions st' \<noteq> []" using assms by auto
  then have "migrate sql' has_devices' (Some files) st' = (Inr (), st')"
    using apply_none_pending [of "sort_key fst files" "set (vd_versions st')" split_statements sql' st'] recorded
    by (simp add: migrate_def transaction_def bootstrap_def)
  with m run recorded show ?thesis by simp
qed

text \<open>An engine that remembers what it ran, and a database from before the versions were recorded.\<close>

definition demo_engine :: "string list engine" where
  "demo_engine s db = Inr (db @ [s])"

definition demo_files :: "(string \<times> string) list" where
  "demo_files = [(''002_b.sql'', ''ALTER TABLE a;''), (''001_initial.sql'', ''CREATE TABLE a; CREATE TABLE b;'')]"

lemma demo_migration:
  "migrate demo_engine (\<lambda>db. db \<noteq> []) (Some demo_files) \<lparr>vd_db = [''CREATE TABLE a''], vd_versions = []\<rparr>
   = (Inr (), \<lparr>vd_db = [''CREATE TABLE a'', ''ALTER TABLE a''], vd_versions = [''001_initial.sql'', ''002_b.sql'']\<rparr>)"
  "migrate demo_engine (\<lambda>db. db \<noteq> []) (Some demo_files) \<lparr>vd_db = [], vd_versions = []\<rparr>
   = (Inr (), \<lparr>vd_db = [''CREATE TABLE a'', ''CREATE TABLE b'', ''ALTER TABLE a''],
                vd_versions = [''001_initial.sql'', ''002_b.sql'']\<rparr>)"
  by code_simp+

theorem migrations_run_once_witness:
  "migrate (\<lambda>_ _. Inl OtherError) (\<lambda>_. False) (Some demo_files)
     \<lparr>vd_db = [''CREATE TABLE a'', ''ALTER TABLE a''], vd_versions = [''001_initial.sql'', ''002_b.sql'']\<rparr>
   = (Inr (), \<lparr>vd_db = [''CREATE TABLE a'', ''ALTER TABLE a''], vd_versions = [''001_initial.sql'', ''002_b.sql'']\<rparr>)"
proof -
  have "demo_files \<noteq> []" by (simp add: demo_files_def)
  from migrations_run_once [OF this, where sql = demo_engine and has_devices = "\<lambda>db. db \<noteq> []"
      and st = "\<lparr>vd_db = [''CREATE TABLE a''], vd_versions = []\<rparr>" and sql' = "\<lambda>_ _. Inl OtherError"
      and has_devices' = "\<lambda>_. False"]
  show ?thesis unfolding demo_migration by simp
qed

section \<open>The two splitters\<close>

lemma py_split_none: "c \<notin> set u \<Longrightarrow> py_split c u = [u]"
  by (induction u) auto

lemma py_split_append: "c \<notin> set u \<Longrightarrow> py_split c (u @ c # v) = u # py_split c v"
  by (induction u) auto

lemma py_split_no_sep: "s \<in> set (py_split c u) \<Longrightarrow> c \<notin> set s"
  by (induction u arbitrary: s) (auto split: if_splits list.splits)

text \<open>The segments of a script, each but the last with its semicolon.\<close>

fun close_segments :: "string list \<Rightarrow> string list" where
  "close_segments [] = []"
| "close_segments [s] = [s]"
| "close_segments (s # t # ss) = (s @ '';'') # close_segments (t # ss)"

definition trigger_free :: "string list \<Rightarrow> bool" where
  "trigger_free segments \<longleftrightarrow>
     list_all (\<lambda>s. \<not> starts_with ''CREATE TRIGGER'' (py_upper (py_strip (s @ '';'')))) segments"

lemma py_strip_nonempty:
  assumes "c \<in> set s" and "\<not> is_space c"
  shows "py_strip s \<noteq> []"
proof
  assume "py_strip s = []"
  then have all: "\<forall>x \<in> set (dropWhile is_space s). is_space x"
    by (simp add: py_strip_def py_strip_chars_def dropWhile_eq_Nil_conv)
  have "dropWhile is_space s \<noteq> []" using assms by (auto simp: dropWhile_eq_Nil_conv)
  with all hd_dropWhile [of is_space s] show False by (metis hd_in_set)
qed

lemma split_db_segments:
  assumes "list_all (\<lambda>c. c \<notin> set quote_chars) script" and "CHR '';'' \<notin> set cur"
    and "trigger_free (py_split (CHR '';'') (cur @ script))"
  shows "split_finish (fold split_char script
       \<lparr>sp_statements = sts, sp_current = cur, sp_quote = None, sp_trigger = False\<rparr>)
     = sts @ filter (\<lambda>s. s \<noteq> []) (map py_strip (close_segments (py_split (CHR '';'') (cur @ script))))"
  using assms
proof (induction script arbitrary: cur sts)
  case Nil
  then show ?case by (simp add: split_finish_def py_split_none Let_def)
next
  case (Cons c cs)
  show ?case
  proof (cases "c = CHR '';''")
    case True
    have split: "py_split (CHR '';'') (cur @ c # cs) = cur # py_split (CHR '';'') cs"
      using Cons.prems(2) True by (simp add: py_split_append)
    have ne: "py_strip (cur @ '';'') \<noteq> []" by (rule py_strip_nonempty [of "CHR '';''"]) (simp_all add: is_space_def)
    have "trigger_free (py_split (CHR '';'') ([] @ cs))" and
      not_trigger: "\<not> starts_with ''CREATE TRIGGER'' (py_upper (py_strip (cur @ '';'')))"
      using Cons.prems(3) by (simp_all add: split trigger_free_def)
    note IH = Cons.IH [OF _ _ this(1), of "sts @ [py_strip (cur @ '';'')]"]
    have step: "split_char c \<lparr>sp_statements = sts, sp_current = cur, sp_quote = None, sp_trigger = False\<rparr>
        = \<lparr>sp_statements = sts @ [py_strip (cur @ '';'')], sp_current = [], sp_quote = None, sp_trigger = False\<rparr>"
      using True ne not_trigger Cons.prems(1) by (simp add: split_char_def Let_def quote_chars_def)
    obtain s ss where "py_split (CHR '';'') cs = s # ss" by (cases "py_split (CHR '';'') cs") (cases cs; auto split: if_splits list.splits)+
    with IH Cons.prems(1) ne show ?thesis by (simp add: step split)
  next
    case False
    have step: "split_char c \<lparr>sp_statements = sts, sp_current = cur, sp_quote = None, sp_trigger = False\<rparr>
        = \<lparr>sp_statements = sts, sp_current = cur @ [c], sp_quote = None, sp_trigger = False\<rparr>"
      using False Cons.prems(1) by (simp add: split_char_def Let_def)
    show ?thesis using Cons.IH [of "cur @ [c]" sts] Cons.prems False by (simp add: step)
  qed
qed

text \<open>A statement of the adapter without its semicolon.\<close>

definition body_of :: "string \<Rightarrow> string" where
  "body_of s = py_strip (takeWhile (\<lambda>c. c \<noteq> CHR '';'') s)"

lemma strip_closed: "py_strip (s @ '';'') = dropWhile is_space s @ '';''"
proof -
  have "dropWhile is_space (s @ '';'') = dropWhile is_space s @ '';''"
    by (induction s) (simp_all add: is_space_def)
  then show ?thesis by (simp add: py_strip_def py_strip_chars_def is_space_def)
qed

lemma body_closed: "CHR '';'' \<notin> set s \<Longrightarrow> body_of (py_strip (s @ '';'')) = py_strip s"
proof -
  assume "CHR '';'' \<notin> set s"
  then have "takeWhile (\<lambda>c. c \<noteq> CHR '';'') (dropWhile is_space s @ '';'') = dropWhile is_space s"
    by (subst takeWhile_append2) (auto dest: set_dropWhileD)
  then have "body_of (py_strip (s @ '';'')) = py_strip (dropWhile is_space s)"
    by (simp only: body_of_def strip_closed)
  then show ?thesis by (simp add: py_strip_def py_strip_chars_def)
qed

lemma closed_nonempty: "py_strip (s @ '';'') \<noteq> []"
  by (simp add: strip_closed)

lemma body_plain: "CHR '';'' \<notin> set s \<Longrightarrow> body_of (py_strip s) = py_strip s"
proof -
  assume "CHR '';'' \<notin> set s"
  then have "takeWhile (\<lambda>c. c \<noteq> CHR '';'') (py_strip s) = py_strip s"
    using set_py_strip [of s] by (intro takeWhile_eq_all_conv [THEN iffD2]) auto
  then show ?thesis by (simp only: body_of_def py_strip_idem)
qed

lemma bodies_of_segments:
  "\<forall>s \<in> set segments. CHR '';'' \<notin> set s \<Longrightarrow>
   filter (\<lambda>s. s \<noteq> []) (map body_of (filter (\<lambda>s. s \<noteq> []) (map py_strip (close_segments segments))))
   = filter (\<lambda>s. s \<noteq> []) (map py_strip segments)"
  by (induction segments rule: close_segments.induct) (auto simp: body_closed body_plain closed_nonempty)

text \<open>
  On a script without quotes and without triggers the two splitters find the same statements:
  what the store executes is what the adapter executes, each statement of the adapter less its
  semicolon, in the same order, and empty statements dropped.
\<close>

theorem splitters_agree:
  assumes "list_all (\<lambda>c. c \<notin> set quote_chars) script" and "trigger_free (py_split (CHR '';'') script)"
  shows "split_statements script = filter (\<lambda>s. s \<noteq> []) (map body_of (split_statements_db script))"
proof -
  have "split_statements_db script
      = filter (\<lambda>s. s \<noteq> []) (map py_strip (close_segments (py_split (CHR '';'') script)))"
    using split_db_segments [OF assms(1), of "[]" "[]"] assms(2) by (simp add: split_statements_db_def)
  moreover have "\<forall>s \<in> set (py_split (CHR '';'') script). CHR '';'' \<notin> set s"
    using py_split_no_sep by blast
  ultimately show ?thesis using bodies_of_segments by (simp add: split_statements_def)
qed

theorem splitters_agree_witness:
  "split_statements '' CREATE TABLE a (x); ;DROP TABLE b'' = [''CREATE TABLE a (x)'', ''DROP TABLE b'']
   \<and> filter (\<lambda>s. s \<noteq> []) (map body_of (split_statements_db '' CREATE TABLE a (x); ;DROP TABLE b''))
     = [''CREATE TABLE a (x)'', ''DROP TABLE b'']"
proof -
  let ?s = "'' CREATE TABLE a (x); ;DROP TABLE b''"
  have "list_all (\<lambda>c. c \<notin> set quote_chars) ?s" and "trigger_free (py_split (CHR '';'') ?s)"
    and parts: "split_statements ?s = [''CREATE TABLE a (x)'', ''DROP TABLE b'']"
    by code_simp+
  from splitters_agree [OF this(1,2)] parts show ?thesis by simp
qed

text \<open>
  An apostrophe in a comment is a quote to the adapter: it swallows the semicolons that follow,
  and the script becomes one statement. The script of the third migration has such a comment.
\<close>

definition commented_script :: string where
  "commented_script = ''-- a caller'' @ [CHR 0x27] @ ''s row'' @ nl @ ''DROP TABLE a; DROP TABLE b;''"

lemma comment_apostrophe_merges:
  "length (split_statements commented_script) = 2" "length (split_statements_db commented_script) = 1"
  by code_simp+

text \<open>
  The URL of the configuration and the path of the store: a PostgreSQL URL passes the check of the
  configuration and is then the name of an SQLite file, and a capital scheme is not stripped.
\<close>

lemma urls_as_paths:
  "validate_database_url ''postgresql://db/agents'' False = Inr ''postgresql://db/agents''"
  "store_path ''postgresql://db/agents'' = ''postgresql://db/agents''"
  "validate_database_url ''SQLite:///agents.db'' True = Inr ''SQLite:///agents.db''"
  "store_path ''SQLite:///agents.db'' = ''SQLite:///agents.db''"
  "database_of_url ''SQLite:///agents.db'' = Inr (SqliteFile ''agents.db'')"
  by code_simp+

end
