(* ===== verification/Application.thy ===== *)
theory Application
  imports Endpoint Server Migrations
begin

text \<open>
  The composition of the program: \<open>create_app\<close> of \<open>server.py\<close>, which opens the store and hands the
  values of the configuration to the parts that use them, and \<open>main\<close> of \<open>__main__.py\<close>. FastMCP,
  Starlette and uvicorn are left out; opening the SQLite file is a parameter.
\<close>

section \<open>Where the configuration goes\<close>

text \<open>The identity check of a tool call: its secret, audience and assertion policy.\<close>

definition delegation_of ::
    "(bytes \<Rightarrow> bytes \<Rightarrow> string) \<Rightarrow> (bytes \<Rightarrow> json option) \<Rightarrow> config \<Rightarrow> int \<Rightarrow> delegation_check" where
  "delegation_of hmac loads cfg now =
     \<lparr>dc_hmac = hmac, dc_loads = loads, dc_secret = cf_hub_delegation_secret cfg, dc_audience = cf_hub_audience cfg,
      dc_now = now, dc_require_assertion = cf_require_signed_app_assertion cfg\<rparr>"

text \<open>The service: the liveness window and the relay wait; the rest is drawn per command.\<close>

definition command_env_of ::
    "(bytes \<Rightarrow> string) \<Rightarrow> config \<Rightarrow> string \<Rightarrow> datetime \<Rightarrow> datetime \<Rightarrow> datetime \<Rightarrow> command_env" where
  "command_env_of sha cfg drawn now_route now_assert now_claim =
     \<lparr>ce_sha = sha, ce_stale_seconds = config_stale_seconds cfg, ce_request_timeout = cf_request_timeout_seconds cfg,
      ce_drawn_uuid = drawn, ce_now_route = now_route, ce_now_assert = now_assert, ce_now_claim = now_claim\<rparr>"

text \<open>The relay endpoint.\<close>

definition endpoint_env_of ::
    "(bytes \<Rightarrow> string) \<Rightarrow> (bytes \<Rightarrow> bytes \<Rightarrow> bytes \<Rightarrow> bool) \<Rightarrow> (string \<Rightarrow> json option) \<Rightarrow> config \<Rightarrow> endpoint_env" where
  "endpoint_env_of sha edv loads cfg =
     \<lparr>ee_sha = sha, ee_edv = edv, ee_loads = loads, ee_trust_proxy_tls = cf_trust_proxy_tls cfg\<rparr>"

text \<open>The token verifier of the MCP endpoint.\<close>

definition mcp_access :: "config \<Rightarrow> string option \<Rightarrow> access_token option res" where
  "mcp_access cfg token = verify_token (cf_mcp_bearer_token cfg) token"

section \<open>Starting\<close>

record 'db application =
  ap_config :: config
  ap_database :: "'db versioned"
  ap_trusted_hosts :: "string list"

text \<open>
  \<open>connect\<close> opens the file of a path; what the migration wrote stays when the host names that are
  read after it are refused, but then there is no application.
\<close>

definition create_app ::
    "(string \<Rightarrow> 'db versioned res) \<Rightarrow> 'db engine \<Rightarrow> ('db \<Rightarrow> bool) \<Rightarrow> (string \<times> string) list option \<Rightarrow> config
     \<Rightarrow> 'db application res" where
  "create_app connect sql has_devices files cfg =
     bindR (connect (store_path (cf_database_url cfg))) (\<lambda>db.
     case migrate sql has_devices files db of
       (Inl e, _) \<Rightarrow> Inl e
     | (Inr _, db') \<Rightarrow>
         bindR (trusted_hostnames (cf_allowed_hosts cfg)) (\<lambda>hosts.
         Inr \<lparr>ap_config = cfg, ap_database = db', ap_trusted_hosts = hosts\<rparr>))"

text \<open>The entry point: what is served, and where.\<close>

definition serve_main ::
    "(string \<Rightarrow> 'db versioned res) \<Rightarrow> 'db engine \<Rightarrow> ('db \<Rightarrow> bool) \<Rightarrow> (string \<times> string) list option \<Rightarrow> env
     \<Rightarrow> ('db application \<times> string \<times> int) res" where
  "serve_main connect sql has_devices files env =
     bindR (from_env env) (\<lambda>cfg.
     bindR (create_app connect sql has_devices files cfg) (\<lambda>app.
     Inr (app, cf_bind_host cfg, cf_bind_port cfg)))"

section \<open>A running application\<close>

lemma create_app_Inr:
  assumes "create_app connect sql has_devices files cfg = Inr app"
  shows "ap_config app = cfg \<and> trusted_hostnames (cf_allowed_hosts cfg) = Inr (ap_trusted_hosts app)
     \<and> (\<exists>db. connect (store_path (cf_database_url cfg)) = Inr db \<and> migrate sql has_devices files db = (Inr (), ap_database app))"
  using assms unfolding create_app_def bindR_eq_Inr
  by (elim exE conjE) (auto simp: bindR_eq_Inr split: prod.splits sum.splits)

lemma migrate_records:
  "migrate sql has_devices (Some files) db = (Inr u, db') \<Longrightarrow> fst ` set files \<subseteq> set (vd_versions db')"
  by (auto simp: migrate_def transaction_def Let_def apply_migrations_Inr pending_def split: sum.splits)

lemma wrong_token_refused: "t \<noteq> cf_mcp_bearer_token cfg \<Longrightarrow> mcp_access cfg (Some t) \<in> {Inr None, Inl TypeError}"
  by (simp add: mcp_access_def verify_token_def compare_digest_def ex_bool_eq)

lemma wrong_operator_refused:
  "hq_headers request ''authorization'' = Some (''Bearer '' @ t) \<Longrightarrow> t \<noteq> cf_operator_bearer_token cfg \<Longrightarrow>
   operator_authorized cfg request \<noteq> Inr True"
  using operator_authorized_True by fastforce

text \<open>
  C33. The three credentials of a running application are separate: the operator's token and the
  delegation secret open no MCP session, the Hub's token and the delegation secret open no operator
  route and change nothing there. It runs on a database on which every migration is recorded,
  behind at least one trusted host name, on a port of the valid range, and waits for a device
  within its windows.
\<close>

theorem running_application_separates_credentials:
  assumes "serve_main connect sql has_devices (Some files) env = Inr (app, bind_host, port)"
  shows "(\<forall>t \<in> {cf_operator_bearer_token (ap_config app), cf_hub_delegation_secret (ap_config app)}.
            mcp_access (ap_config app) (Some t) \<in> {Inr None, Inl TypeError})
     \<and> (\<forall>t \<in> {cf_mcp_bearer_token (ap_config app), cf_hub_delegation_secret (ap_config app)}.
          \<forall>ho request route dw h. ho_config ho = ap_config app \<and> route \<noteq> Health
            \<and> hq_headers request ''authorization'' = Some (''Bearer '' @ t) \<longrightarrow>
            handle ho dw route request h \<in> {(Inr (Answered unauthorized), h), (Inl TypeError, h)})
     \<and> fst ` set files \<subseteq> set (vd_versions (ap_database app))
     \<and> ap_trusted_hosts app \<noteq> [] \<and> 1 \<le> port \<and> port \<le> 65535
     \<and> ce_request_timeout (command_env_of sha (ap_config app) drawn t1 t2 t3) \<in> {1..600}
     \<and> ce_stale_seconds (command_env_of sha (ap_config app) drawn t1 t2 t3) \<in> {75..3600}"
proof -
  from assms obtain cfg where env: "from_env env = Inr cfg" and app: "create_app connect sql has_devices (Some files) cfg = Inr app"
    and port: "port = cf_bind_port cfg"
    by (auto simp: serve_main_def bindR_eq_Inr)
  note ok = from_env_config_ok [OF env]
  from create_app_Inr [OF app] obtain db where cfg: "ap_config app = cfg"
    and hosts: "trusted_hostnames (cf_allowed_hosts cfg) = Inr (ap_trusted_hosts app)"
    and db: "migrate sql has_devices (Some files) db = (Inr (), ap_database app)" by blast
  have tokens: "distinct [cf_mcp_bearer_token cfg, cf_hub_delegation_secret cfg, cf_operator_bearer_token cfg]"
    using ok unfolding config_ok_def by blast
  then have "\<forall>t \<in> {cf_operator_bearer_token cfg, cf_hub_delegation_secret cfg}. mcp_access cfg (Some t) \<in> {Inr None, Inl TypeError}"
    using wrong_token_refused by (metis distinct_length_2_or_more insertE singletonD)
  moreover have "\<forall>t \<in> {cf_mcp_bearer_token cfg, cf_hub_delegation_secret cfg}.
          \<forall>ho request route dw h. ho_config ho = cfg \<and> route \<noteq> Health
            \<and> hq_headers request ''authorization'' = Some (''Bearer '' @ t) \<longrightarrow>
            handle ho dw route request h \<in> {(Inr (Answered unauthorized), h), (Inl TypeError, h)}"
  proof (intro ballI allI impI)
    fix t route dw h and request :: http_request and ho :: host
    assume "t \<in> {cf_mcp_bearer_token cfg, cf_hub_delegation_secret cfg}" and ho: "ho_config ho = cfg \<and> route \<noteq> Health
      \<and> hq_headers request ''authorization'' = Some (''Bearer '' @ t)"
    then have "t \<noteq> cf_operator_bearer_token cfg" using tokens by auto
    with ho have "operator_authorized (ho_config ho) request \<noteq> Inr True" by (simp add: wrong_operator_refused)
    with ho show "handle ho dw route request h \<in> {(Inr (Answered unauthorized), h), (Inl TypeError, h)}"
      by (intro handle_refuses) simp_all
  qed
  moreover have "1 \<le> port \<and> port \<le> 65535 \<and> cf_request_timeout_seconds cfg \<in> {1..600} \<and> config_stale_seconds cfg \<in> {75..3600}"
    using ok stale_window [OF ok] unfolding port config_ok_def by simp
  ultimately show ?thesis
    using migrate_records [OF db] trusted_hostnames_Inr [OF hosts] unfolding cfg by (simp add: command_env_of_def)
qed

theorem running_application_separates_credentials_witness:
  "\<exists>app :: string list application. mcp_access (ap_config app) (Some (cf_operator_bearer_token (ap_config app))) \<in> {Inr None, Inl TypeError}
     \<and> set (map fst demo_files) \<subseteq> set (vd_versions (ap_database app)) \<and> ap_trusted_hosts app \<noteq> []"
proof -
  let ?connect = "\<lambda>_. Inr \<lparr>vd_db = [], vd_versions = []\<rparr>"
  have "\<not> isl (serve_main ?connect demo_engine (\<lambda>db. db \<noteq> []) (Some demo_files) sample_env)" by code_simp
  then obtain app bind_host port where "serve_main ?connect demo_engine (\<lambda>db. db \<noteq> []) (Some demo_files) sample_env = Inr (app, bind_host, port)"
    by (metis isl_def prod.exhaust sum.exhaust)
  from running_application_separates_credentials [OF this] show ?thesis by (intro exI [of _ app]) simp
qed

end
