(* ===== verification/Adapter.thy ===== *)
theory Adapter
  imports Migrations "HOL-Library.AList"
begin

text \<open>
  The queries of \<open>Database\<close> in \<open>remote_agent_connector/db.py\<close>. The driver is a parameter: a function
  from the statement and its parameters to a cursor with the names of the columns and the rows.
  A row becomes a dictionary in two ways, one per driver.
\<close>

record 'v cursor =
  cu_columns :: "string list"
  cu_rows :: "'v list list"

type_synonym ('v, 'db) driver = "string \<Rightarrow> 'v list \<Rightarrow> 'db \<Rightarrow> 'v cursor res \<times> 'db"
type_synonym 'v dict = "(string \<times> 'v) list"

definition execute :: "database_target \<Rightarrow> ('v, 'db) driver \<Rightarrow> string \<Rightarrow> 'v list \<Rightarrow> 'db \<Rightarrow> 'v cursor res \<times> 'db" where
  "execute target driver statement parameters = driver (adapt_sql target statement) parameters"

section \<open>Rows as dictionaries\<close>

text \<open>\<open>sqlite3.Row\<close> finds the first column whose name is the key, the case of ASCII letters aside.\<close>

definition same_column :: "string \<Rightarrow> string \<Rightarrow> bool" where
  "same_column a b \<longleftrightarrow>
     a = b \<or> list_all (\<lambda>c. code c < 128) (a @ b) \<and> py_lower a = py_lower b"

fun row_item :: "string list \<Rightarrow> 'v list \<Rightarrow> string \<Rightarrow> 'v option" where
  "row_item (n # ns) (v # vs) k = (if same_column k n then Some v else row_item ns vs k)"
| "row_item _ _ k = None"

text \<open>\<open>dict(row)\<close>, and the comprehension over the cursor's description.\<close>

definition sqlite_dict :: "string list \<Rightarrow> 'v list \<Rightarrow> 'v dict" where
  "sqlite_dict columns row =
     fold (\<lambda>k d. case row_item columns row k of None \<Rightarrow> d | Some v \<Rightarrow> AList.update k v d) columns []"

definition described_dict :: "string list \<Rightarrow> 'v list \<Rightarrow> 'v dict" where
  "described_dict columns row = fold (\<lambda>(k, v). AList.update k v) (zip columns row) []"

definition row_dict :: "database_target \<Rightarrow> string list \<Rightarrow> 'v list \<Rightarrow> 'v dict" where
  "row_dict target = (case target of SqliteFile _ \<Rightarrow> sqlite_dict | Postgres _ \<Rightarrow> described_dict)"

definition fetchone ::
    "database_target \<Rightarrow> ('v, 'db) driver \<Rightarrow> string \<Rightarrow> 'v list \<Rightarrow> 'db \<Rightarrow> 'v dict option res \<times> 'db" where
  "fetchone target driver statement parameters db =
     (case execute target driver statement parameters db of
        (Inl e, db') \<Rightarrow> (Inl e, db')
      | (Inr cursor, db') \<Rightarrow>
          (Inr (case cu_rows cursor of [] \<Rightarrow> None | row # _ \<Rightarrow> Some (row_dict target (cu_columns cursor) row)), db'))"

definition fetchall ::
    "database_target \<Rightarrow> ('v, 'db) driver \<Rightarrow> string \<Rightarrow> 'v list \<Rightarrow> 'db \<Rightarrow> 'v dict list res \<times> 'db" where
  "fetchall target driver statement parameters db =
     (case execute target driver statement parameters db of
        (Inl e, db') \<Rightarrow> (Inl e, db')
      | (Inr cursor, db') \<Rightarrow> (Inr (map (row_dict target (cu_columns cursor)) (cu_rows cursor)), db'))"

section \<open>The drivers agree\<close>

text \<open>
  As long as no two columns have the same name but for case, both ways give every column its
  value, so a query answers the same whichever driver returned the rows.
\<close>

definition plain_columns :: "string list \<Rightarrow> bool" where
  "plain_columns columns \<longleftrightarrow> distinct (map py_lower columns)"

lemma same_column_lower: "same_column a b \<Longrightarrow> py_lower a = py_lower b"
  by (auto simp: same_column_def)

lemma row_item_map_of:
  assumes "length columns = length row" and "plain_columns columns" and "k \<in> set columns"
  shows "row_item columns row k = map_of (zip columns row) k"
  using assms
proof (induction columns row rule: list_induct2)
  case (Cons n ns v vs)
  show ?case
  proof (cases "k = n")
    case True
    then show ?thesis by (simp add: same_column_def)
  next
    case False
    with Cons.prems have "py_lower k \<in> py_lower ` set ns" "py_lower n \<notin> py_lower ` set ns"
      by (simp_all add: plain_columns_def)
    then have "py_lower k \<noteq> py_lower n" by metis
    then show ?thesis using False Cons same_column_lower by (auto simp: plain_columns_def)
  qed
qed simp

lemma update_fresh: "k \<notin> fst ` set d \<Longrightarrow> AList.update k v d = d @ [(k, v)]"
  by (induction d) auto

lemma fold_update_fresh:
  "distinct (map fst kvs) \<Longrightarrow> fst ` set kvs \<inter> fst ` set d = {} \<Longrightarrow> fold (\<lambda>(k, v). AList.update k v) kvs d = d @ kvs"
proof (induction kvs arbitrary: d)
  case (Cons kv kvs)
  have "fst ` set kvs \<inter> fst ` set (d @ [kv]) = {}" using Cons.prems by auto
  with Cons.IH [of "d @ [kv]"] Cons.prems show ?case by (cases kv) (simp add: update_fresh)
qed simp

lemma plain_distinct: "plain_columns columns \<Longrightarrow> distinct columns"
  by (simp add: plain_columns_def distinct_map)

lemma described_dict_zip:
  "length columns = length row \<Longrightarrow> plain_columns columns \<Longrightarrow> described_dict columns row = zip columns row"
  using fold_update_fresh [of "zip columns row" "[]"] by (simp add: described_dict_def plain_distinct)

lemma sqlite_dict_zip:
  assumes len: "length columns = length row" and plain: "plain_columns columns"
  shows "sqlite_dict columns row = zip columns row"
proof -
  have "fold (\<lambda>k d. case row_item columns row k of None \<Rightarrow> d | Some v \<Rightarrow> AList.update k v d) columns []
      = fold (\<lambda>k d. AList.update k (the (map_of (zip columns row) k)) d) columns []"
  proof (rule fold_cong)
    fix k assume k: "k \<in> set columns"
    then obtain v where "map_of (zip columns row) k = Some v"
      using len by (metis map_of_zip_is_Some)
    then show "(\<lambda>d. case row_item columns row k of None \<Rightarrow> d | Some v \<Rightarrow> AList.update k v d)
        = (\<lambda>d. AList.update k (the (map_of (zip columns row) k)) d)"
      using row_item_map_of [OF len plain k] by simp
  qed simp_all
  also have "\<dots> = fold (\<lambda>(k, v). AList.update k v) (map (\<lambda>k. (k, the (map_of (zip columns row) k))) columns) []"
    by (simp add: fold_map comp_def)
  also have "map (\<lambda>k. (k, the (map_of (zip columns row) k))) columns = zip columns row"
    using len plain_distinct [OF plain] by (intro nth_equalityI) (simp_all add: map_of_zip_nth)
  also have "fold (\<lambda>(k, v). AList.update k v) (zip columns row) [] = zip columns row"
    using described_dict_zip [OF len plain] by (simp add: described_dict_def)
  finally show ?thesis by (simp add: sqlite_dict_def)
qed

text \<open>A driver that only returns rows as wide as their description, without two names alike.\<close>

definition regular :: "('v, 'db) driver \<Rightarrow> bool" where
  "regular driver \<longleftrightarrow> (\<forall>statement parameters db. case fst (driver statement parameters db) of
     Inl _ \<Rightarrow> True
   | Inr cursor \<Rightarrow> plain_columns (cu_columns cursor) \<and> (\<forall>row \<in> set (cu_rows cursor). length (cu_columns cursor) = length row))"

text \<open>
  When PostgreSQL answers every statement, its placeholders rewritten, as SQLite answers the
  statement itself, then the queries of the adapter answer the same.
\<close>

theorem drivers_agree:
  assumes "regular lite" and "\<And>statement. pg (replace_all ''?'' ''%s'' statement) = lite statement"
  shows "fetchall (Postgres url) pg statement parameters db = fetchall (SqliteFile path) lite statement parameters db"
    and "fetchone (Postgres url) pg statement parameters db = fetchone (SqliteFile path) lite statement parameters db"
proof -
  have same: "execute (Postgres url) pg statement parameters db = execute (SqliteFile path) lite statement parameters db"
    by (simp add: execute_def adapt_sql_def assms(2))
  have rows: "row_dict (Postgres url) (cu_columns cursor) row = row_dict (SqliteFile path) (cu_columns cursor) row"
    if "execute (SqliteFile path) lite statement parameters db = (Inr cursor, db')" and "row \<in> set (cu_rows cursor)" for cursor db' row
  proof -
    have "lite statement parameters db = (Inr cursor, db')" using that(1) by (simp add: execute_def adapt_sql_def)
    moreover have "case fst (lite statement parameters db) of Inl _ \<Rightarrow> True
      | Inr cursor \<Rightarrow> plain_columns (cu_columns cursor) \<and> (\<forall>row \<in> set (cu_rows cursor). length (cu_columns cursor) = length row)"
      using assms(1) unfolding regular_def by (elim allE)
    ultimately have "plain_columns (cu_columns cursor) \<and> length (cu_columns cursor) = length row"
      using that(2) by simp
    then show ?thesis by (simp add: row_dict_def sqlite_dict_zip described_dict_zip)
  qed
  show "fetchall (Postgres url) pg statement parameters db = fetchall (SqliteFile path) lite statement parameters db"
    unfolding fetchall_def same using rows by (auto split: prod.split sum.split)
  show "fetchone (Postgres url) pg statement parameters db = fetchone (SqliteFile path) lite statement parameters db"
    unfolding fetchone_def same using rows by (auto split: prod.split sum.split list.split)
qed

end
