(* ===== verification/Renewal.thy ===== *)
theory Renewal
  imports Config Certificates
begin

text \<open>
  \<open>scripts/renew_relay_certificate.py\<close>: the renewal of the relay certificate on its host. The
  world is the regular files and the directories of that host. \<open>openssl\<close>, \<open>docker\<close> and the Hub
  are parameters: running a command gives an exit code with its output, or raises because the
  program is missing, and may change the world; the Hub answers a request or fails. Paths are
  texts joined with a slash; local file operations on files that exist succeed, ownership is not
  part of the world, and the messages of \<open>RenewalError\<close> are kept up to the quoted output.
\<close>

section \<open>The host\<close>

record host_file =
  f_content :: bytes
  f_mode :: int

record world =
  w_files :: "string \<Rightarrow> host_file option"
  w_dirs :: "string \<Rightarrow> bool"

type_synonym 'a wact = "world \<Rightarrow> 'a res \<times> world"

datatype process = Exited int bytes | ProgramMissing

datatype hub_answer = HubBody json | HubRefused int | HubUnreachable | HubRaised exn

record tools =
  to_exec :: "string list \<Rightarrow> world \<Rightarrow> process \<times> world"
  to_post :: "string \<Rightarrow> string \<Rightarrow> string \<Rightarrow> hub_answer"

definition bindW :: "'a wact \<Rightarrow> ('a \<Rightarrow> 'b wact) \<Rightarrow> 'b wact" where
  "bindW m f w = (case m w of (Inl e, w') \<Rightarrow> (Inl e, w') | (Inr x, w') \<Rightarrow> f x w')"

definition returnW :: "'a \<Rightarrow> 'a wact" where "returnW x w = (Inr x, w)"
definition raiseW :: "exn \<Rightarrow> 'a wact" where "raiseW e w = (Inl e, w)"
definition liftW :: "'a res \<Rightarrow> 'a wact" where "liftW r w = (r, w)"
definition readW :: "(world \<Rightarrow> 'a) \<Rightarrow> 'a wact" where "readW g w = (Inr (g w), w)"
definition requireW :: "bool \<Rightarrow> exn \<Rightarrow> unit wact" where
  "requireW b e = (if b then returnW () else raiseW e)"

definition join_path :: "string \<Rightarrow> string \<Rightarrow> string" where
  "join_path d name = d @ ''/'' @ name"

definition is_file :: "string \<Rightarrow> world \<Rightarrow> bool" where
  "is_file p w = (w_files w p \<noteq> None)"

text \<open>\<open>0o600\<close>, \<open>0o644\<close>, and the mode of a new file under the usual mask.\<close>

definition private_mode :: int where "private_mode = 384"
definition public_mode :: int where "public_mode = 420"

definition put_file :: "string \<Rightarrow> host_file \<Rightarrow> world \<Rightarrow> world" where
  "put_file p f w = w\<lparr>w_files := (w_files w)(p \<mapsto> f)\<rparr>"

definition write_bytes :: "string \<Rightarrow> bytes \<Rightarrow> unit wact" where
  "write_bytes p b w = (Inr (), put_file p \<lparr>f_content = b, f_mode = (case w_files w p of Some f \<Rightarrow> f_mode f | None \<Rightarrow> public_mode)\<rparr> w)"

definition read_bytes :: "string \<Rightarrow> bytes wact" where
  "read_bytes p w = (case w_files w p of Some f \<Rightarrow> (Inr (f_content f), w) | None \<Rightarrow> (Inl OSError, w))"

definition chmod :: "string \<Rightarrow> int \<Rightarrow> unit wact" where
  "chmod p mode w = (case w_files w p of
       Some f \<Rightarrow> (Inr (), put_file p (f\<lparr>f_mode := mode\<rparr>) w) | None \<Rightarrow> (Inl OSError, w))"

text \<open>\<open>shutil.copy2\<close> copies the content and the mode, \<open>os.replace\<close> moves the file.\<close>

definition copy_file :: "string \<Rightarrow> string \<Rightarrow> unit wact" where
  "copy_file src dst w = (case w_files w src of Some f \<Rightarrow> (Inr (), put_file dst f w) | None \<Rightarrow> (Inl OSError, w))"

definition replace_file :: "string \<Rightarrow> string \<Rightarrow> unit wact" where
  "replace_file src dst w = (case w_files w src of
       Some f \<Rightarrow> (Inr (), w\<lparr>w_files := ((w_files w)(dst \<mapsto> f))(src := None)\<rparr>)
     | None \<Rightarrow> (Inl OSError, w))"

definition make_dir :: "string \<Rightarrow> unit wact" where
  "make_dir p w = (if w_files w p \<noteq> None then (Inl OSError, w) else (Inr (), w\<lparr>w_dirs := (w_dirs w)(p := True)\<rparr>))"

section \<open>Commands\<close>

definition exec_raw :: "tools \<Rightarrow> string list \<Rightarrow> (int \<times> bytes) wact" where
  "exec_raw to command w = (case to_exec to command w of
       (ProgramMissing, w') \<Rightarrow> (Inl OSError, w')
     | (Exited rc out, w') \<Rightarrow> (Inr (rc, out), w'))"

definition run_command :: "tools \<Rightarrow> string list \<Rightarrow> bytes wact" where
  "run_command to command =
     bindW (exec_raw to command) (\<lambda>(rc, out).
     if rc \<noteq> 0 then raiseW (RenewalError (hd command @ '' failed'')) else returnW out)"

section \<open>The current certificate\<close>

definition words :: "string \<Rightarrow> string list" where
  "words s = filter (\<lambda>x. x \<noteq> []) (py_split (CHR '' '') (map (\<lambda>c. if is_space c then CHR '' '' else c) s))"

definition month_names :: "string list" where
  "month_names = [''jan'', ''feb'', ''mar'', ''apr'', ''may'', ''jun'', ''jul'', ''aug'', ''sep'', ''oct'', ''nov'', ''dec'']"

fun index_of :: "'a \<Rightarrow> 'a list \<Rightarrow> nat option" where
  "index_of x [] = None"
| "index_of x (y # ys) = (if x = y then Some 0 else map_option Suc (index_of x ys))"

definition number_in :: "nat \<Rightarrow> int \<Rightarrow> int \<Rightarrow> string \<Rightarrow> int option" where
  "number_in width lo hi s =
     (if s \<noteq> [] \<and> list_all is_digit s \<and> length s \<le> width \<and> lo \<le> digits_value 10 s \<and> digits_value 10 s \<le> hi
      then Some (digits_value 10 s) else None)"

definition day_of_ymd :: "int \<Rightarrow> nat \<Rightarrow> int \<Rightarrow> int" where
  "day_of_ymd y month d = days_before_year y + sum_list (take month (month_lengths (is_leap y))) + d - 1 - EPOCH_DAY"

text \<open>
  \<open>strptime(text, "%b %d %H:%M:%S %Y %Z")\<close> in the C locale, the result read as UTC: five words,
  a month name, a day of that month, a time of day, a year of four digits and \<open>GMT\<close> or \<open>UTC\<close>.
\<close>

definition parse_openssl_time :: "string \<Rightarrow> int option" where
  "parse_openssl_time value =
     (case words value of
        [mon, day, time, year, zone] \<Rightarrow>
          (case (index_of (py_lower mon) month_names, number_in 2 1 31 day, map (number_in 2 0 59) (py_split (CHR '':'') time),
                 number_in 4 1 9999 year) of
             (Some m, Some d, [Some h, Some mi, Some s], Some y) \<Rightarrow>
               if length year = 4 \<and> h \<le> 23 \<and> d \<le> month_lengths (is_leap y) ! m \<and> py_lower zone \<in> set [''gmt'', ''utc'']
               then Some ((day_of_ymd y m d * 86400 + h * 3600 + mi * 60 + s) * 1000000) else None
           | _ \<Rightarrow> None)
      | _ \<Rightarrow> None)"

text \<open>\<open>re.search(rb"notAfter=(.+)", raw)\<close>: the rest of the line after the first match.\<close>

fun search_not_after :: "bytes \<Rightarrow> bytes option" where
  "search_not_after [] = None"
| "search_not_after (c # cs) =
     (let key = bytes_of ''notAfter=''; tail_line = takeWhile (\<lambda>x. x \<noteq> 10) (drop (length key) (c # cs)) in
      if starts_with key (c # cs) \<and> tail_line \<noteq> [] then Some tail_line else search_not_after cs)"

definition leaf_not_after :: "tools \<Rightarrow> string \<Rightarrow> int option wact" where
  "leaf_not_after to path =
     bindW (readW (is_file path)) (\<lambda>exists.
     if \<not> exists then returnW None
     else bindW (run_command to [''openssl'', ''x509'', ''-in'', path, ''-noout'', ''-enddate'']) (\<lambda>raw.
       case search_not_after raw of
         None \<Rightarrow> raiseW (RenewalError ''could not read the current relay certificate expiry'')
       | Some text_bytes \<Rightarrow>
           bindW (liftW (ascii_decode text_bytes)) (\<lambda>value.
           case parse_openssl_time value of None \<Rightarrow> raiseW ValueError | Some t \<Rightarrow> returnW (Some t))))"

section \<open>A new key and a request for it\<close>

definition csr_config :: "string \<Rightarrow> string \<Rightarrow> string" where
  "csr_config relay_ip common_name = py_join nl
     [''[req]'', ''distinguished_name = req_distinguished_name'', ''req_extensions = req_ext'', ''prompt = no'', [],
      ''[req_distinguished_name]'', ''CN = '' @ common_name, [], ''[req_ext]'',
      ''basicConstraints = critical, CA:FALSE'', ''keyUsage = critical, digitalSignature, keyEncipherment'',
      ''extendedKeyUsage = serverAuth'', ''subjectAltName = @alt_names'', [], ''[alt_names]'',
      ''IP.1 = '' @ relay_ip, []]"

definition make_csr :: "tools \<Rightarrow> string \<Rightarrow> string \<Rightarrow> string \<Rightarrow> (string \<times> string) wact" where
  "make_csr to work relay_ip common_name =
     (let key_path = join_path work ''relay.key''; config = join_path work ''relay-san.cnf'';
          csr_path = join_path work ''relay.csr'' in
      bindW (run_command to [''openssl'', ''genpkey'', ''-algorithm'', ''EC'', ''-pkeyopt'',
                             ''ec_paramgen_curve:prime256v1'', ''-out'', key_path]) (\<lambda>_.
      bindW (chmod key_path private_mode) (\<lambda>_.
      bindW (liftW (ascii_encode (csr_config relay_ip common_name))) (\<lambda>text_bytes.
      bindW (write_bytes config text_bytes) (\<lambda>_.
      bindW (run_command to [''openssl'', ''req'', ''-new'', ''-sha256'', ''-key'', key_path, ''-out'', csr_path,
                             ''-config'', config]) (\<lambda>_.
      bindW (read_bytes csr_path) (\<lambda>raw.
      bindW (liftW (ascii_decode raw)) (\<lambda>csr. returnW (key_path, csr)))))))))"

text \<open>\<open>field in body\<close> and \<open>body[field]\<close> for the JSON the Hub answers with.\<close>

definition body_has :: "json \<Rightarrow> string \<Rightarrow> bool res" where
  "body_has body field = (case body of
       JObj d \<Rightarrow> Inr (field \<in> keys d)
     | JList xs \<Rightarrow> Inr (JStr field \<in> set xs)
     | JStr s \<Rightarrow> Inr (occurs_in field s)
     | _ \<Rightarrow> Inl TypeError)"

definition body_item :: "json \<Rightarrow> string \<Rightarrow> json res" where
  "body_item body field = (case body of
       JObj d \<Rightarrow> (case map_of d field of Some v \<Rightarrow> Inr v | None \<Rightarrow> Inl KeyError)
     | _ \<Rightarrow> Inl TypeError)"

fun require_fields :: "json \<Rightarrow> string list \<Rightarrow> unit res" where
  "require_fields body [] = Inr ()"
| "require_fields body (f # fs) =
     bindR (body_has body f) (\<lambda>present.
     if present then require_fields body fs else Inl (RenewalError (''Hub response is missing '' @ f)))"

definition request_certificate :: "tools \<Rightarrow> string \<Rightarrow> string \<Rightarrow> string \<Rightarrow> json res" where
  "request_certificate to hub_url token csr_pem =
     (case to_post to (rstrip_char (CHR ''/'') hub_url @ ''/admin/api/remote-agent/relay-certificates'') token csr_pem of
        HubRefused status \<Rightarrow> Inl (RenewalError ''Hub refused the CSR'')
      | HubUnreachable \<Rightarrow> Inl (RenewalError ''could not reach the Hub'')
      | HubRaised e \<Rightarrow> Inl e
      | HubBody body \<Rightarrow>
          bindR (require_fields body [''certificate_pem'', ''sha256_fingerprint'', ''not_after'']) (\<lambda>_. Inr body))"

definition verify_pair :: "tools \<Rightarrow> string \<Rightarrow> string \<Rightarrow> string \<Rightarrow> string \<Rightarrow> unit wact" where
  "verify_pair to ca_cert key_path cert_path relay_ip =
     bindW (run_command to [''openssl'', ''verify'', ''-CAfile'', ca_cert, cert_path]) (\<lambda>_.
     bindW (run_command to [''openssl'', ''x509'', ''-in'', cert_path, ''-noout'', ''-ext'', ''subjectAltName'']) (\<lambda>san.
     bindW (requireW (occurs_in (utf8_encode (''IP Address:'' @ relay_ip)) san)
              (RenewalError ''issued certificate does not carry the relay IP SAN'')) (\<lambda>_.
     bindW (run_command to [''openssl'', ''pkey'', ''-in'', key_path, ''-pubout'']) (\<lambda>from_key.
     bindW (run_command to [''openssl'', ''x509'', ''-in'', cert_path, ''-pubkey'', ''-noout'']) (\<lambda>from_cert.
     requireW (bytes_strip from_key = bytes_strip from_cert)
       (RenewalError ''issued certificate does not match the new private key''))))))"

section \<open>Installing, reloading, restoring\<close>

definition copy_if_file :: "string \<Rightarrow> string \<Rightarrow> unit wact" where
  "copy_if_file src dst = bindW (readW (is_file src)) (\<lambda>exists. if exists then copy_file src dst else returnW ())"

text \<open>\<open>stamp\<close> is the time of day in the name of the backup.\<close>

definition install_pair :: "string \<Rightarrow> string \<Rightarrow> string \<Rightarrow> string \<Rightarrow> string option wact" where
  "install_pair stamp tls_dir key_path cert_path =
     (let existing_key = join_path tls_dir ''relay.key''; existing_cert = join_path tls_dir ''relay.crt'';
          staging_cert = join_path tls_dir ''.relay.crt.new''; staging_key = join_path tls_dir ''.relay.key.new'';
          backup = join_path tls_dir (''backup-'' @ stamp) in
      bindW (bindW (readW (\<lambda>w. is_file existing_key w \<or> is_file existing_cert w)) (\<lambda>previous.
             if \<not> previous then returnW None
             else bindW (make_dir backup) (\<lambda>_.
                  bindW (copy_if_file existing_key (join_path backup ''relay.key'')) (\<lambda>_.
                  bindW (copy_if_file existing_cert (join_path backup ''relay.crt'')) (\<lambda>_.
                  returnW (Some backup)))))) (\<lambda>saved.
      bindW (copy_file cert_path staging_cert) (\<lambda>_.
      bindW (copy_file key_path staging_key) (\<lambda>_.
      bindW (chmod staging_cert public_mode) (\<lambda>_.
      bindW (chmod staging_key private_mode) (\<lambda>_.
      bindW (replace_file staging_cert existing_cert) (\<lambda>_.
      bindW (replace_file staging_key existing_key) (\<lambda>_.
      returnW saved))))))))"

definition reload_relay :: "tools \<Rightarrow> string \<Rightarrow> unit wact" where
  "reload_relay to container =
     bindW (run_command to [''docker'', ''exec'', container, ''nginx'', ''-t'']) (\<lambda>_.
     bindW (run_command to [''docker'', ''exec'', container, ''nginx'', ''-s'', ''reload'']) (\<lambda>_. returnW ()))"

definition is_renewal_error :: "exn \<Rightarrow> bool" where
  "is_renewal_error e = (case e of RenewalError _ \<Rightarrow> True | _ \<Rightarrow> False)"

definition restore_pair :: "tools \<Rightarrow> string option \<Rightarrow> string \<Rightarrow> string \<Rightarrow> unit wact" where
  "restore_pair to backup tls_dir container =
     (case backup of
        None \<Rightarrow> returnW ()
      | Some b \<Rightarrow>
          bindW (copy_if_file (join_path b ''relay.crt'') (join_path tls_dir ''relay.crt'')) (\<lambda>_.
          bindW (copy_if_file (join_path b ''relay.key'') (join_path tls_dir ''relay.key'')) (\<lambda>_.
          (\<lambda>w. case reload_relay to container w of
                 (Inl e, w') \<Rightarrow> if is_renewal_error e then (Inr (), w') else (Inl e, w')
               | (Inr _, w') \<Rightarrow> (Inr (), w')))))"

definition live_handshake :: "tools \<Rightarrow> string \<Rightarrow> int \<Rightarrow> string \<Rightarrow> unit wact" where
  "live_handshake to relay_ip port ca_cert =
     bindW (exec_raw to [''openssl'', ''s_client'', ''-connect'', relay_ip @ '':'' @ show_int port, ''-CAfile'', ca_cert,
                         ''-verify_return_error'']) (\<lambda>(rc, out).
     requireW (occurs_in (bytes_of ''Verify return code: 0 (ok)'') out)
       (RenewalError ''post-renewal TLS check failed''))"

section \<open>The script\<close>

record arguments =
  ag_hub_url :: string
  ag_tls_dir :: string
  ag_ca_cert :: string
  ag_relay_ip :: string
  ag_relay_port :: int
  ag_container :: string
  ag_renew_before_days :: int
  ag_force :: bool

text \<open>What the script prints before it returns 0.\<close>

datatype outcome = Skipped int | Renewed json json "string option"

text \<open>The swap and what follows it: a \<open>RenewalError\<close> restores the previous pair and is raised again.\<close>

definition swap_and_check ::
    "tools \<Rightarrow> arguments \<Rightarrow> string \<Rightarrow> string \<Rightarrow> string \<Rightarrow> string option wact" where
  "swap_and_check to args stamp key_path cert_path =
     bindW (install_pair stamp (ag_tls_dir args) key_path cert_path) (\<lambda>backup.
     (\<lambda>w. case bindW (reload_relay to (ag_container args)) (\<lambda>_.
                live_handshake to (ag_relay_ip args) (ag_relay_port args) (ag_ca_cert args)) w of
            (Inr _, w') \<Rightarrow> (Inr backup, w')
          | (Inl e, w') \<Rightarrow>
              if is_renewal_error e
              then bindW (restore_pair to backup (ag_tls_dir args) (ag_container args)) (\<lambda>_. raiseW e) w'
              else (Inl e, w')))"

definition renew :: "tools \<Rightarrow> arguments \<Rightarrow> string \<Rightarrow> string \<Rightarrow> string \<Rightarrow> outcome wact" where
  "renew to args token work stamp =
     bindW (make_csr to work (ag_relay_ip args) (''AGY2API Remote Agent Relay '' @ ag_relay_ip args)) (\<lambda>(key_path, csr_pem).
     bindW (liftW (request_certificate to (ag_hub_url args) token csr_pem)) (\<lambda>issued.
     let cert_path = join_path work ''relay.crt'' in
     bindW (liftW (body_item issued ''certificate_pem'')) (\<lambda>pem.
     bindW (liftW (case pem of JStr s \<Rightarrow> ascii_encode s | _ \<Rightarrow> Inl TypeError)) (\<lambda>pem_bytes.
     bindW (write_bytes cert_path pem_bytes) (\<lambda>_.
     bindW (verify_pair to (ag_ca_cert args) key_path cert_path (ag_relay_ip args)) (\<lambda>_.
     bindW (swap_and_check to args stamp key_path cert_path) (\<lambda>backup.
     bindW (liftW (body_item issued ''sha256_fingerprint'')) (\<lambda>fingerprint.
     bindW (liftW (body_item issued ''not_after'')) (\<lambda>not_after.
     returnW (Renewed fingerprint not_after backup))))))))))"

text \<open>\<open>with tempfile.TemporaryDirectory() as work\<close>: the directory is removed on every way out.\<close>

definition with_temp_dir :: "string \<Rightarrow> 'a wact \<Rightarrow> 'a wact" where
  "with_temp_dir work body w =
     (case body (w\<lparr>w_dirs := (w_dirs w)(work := True)\<rparr>) of
        (r, w') \<Rightarrow> (r, w'\<lparr>w_files := (\<lambda>p. if starts_with (work @ ''/'') p then None else w_files w' p),
                         w_dirs := (w_dirs w')(work := False)\<rparr>))"

definition main :: "tools \<Rightarrow> arguments \<Rightarrow> string option \<Rightarrow> int \<Rightarrow> string \<Rightarrow> string \<Rightarrow> outcome wact" where
  "main to args admin_token now work stamp =
     (let token = py_strip (case admin_token of None \<Rightarrow> [] | Some s \<Rightarrow> s) in
      bindW (requireW (token \<noteq> []) (RenewalError ''BUSINESS_MCP_ADMIN_TOKEN is required'')) (\<lambda>_.
      bindW (readW (\<lambda>w. w_dirs w (ag_tls_dir args))) (\<lambda>tls_dir_found.
      bindW (requireW tls_dir_found (RenewalError ''tls dir not found'')) (\<lambda>_.
      bindW (readW (is_file (ag_ca_cert args))) (\<lambda>ca_found.
      bindW (requireW ca_found (RenewalError ''CA certificate not found'')) (\<lambda>_.
      bindW (leaf_not_after to (join_path (ag_tls_dir args) ''relay.crt'')) (\<lambda>current_expiry.
      case current_expiry of
        Some t \<Rightarrow>
          if \<not> ag_force args \<and> ag_renew_before_days args * 86400 * 1000000 < t - now then returnW (Skipped t)
          else with_temp_dir work (renew to args token work stamp)
      | None \<Rightarrow> with_temp_dir work (renew to args token work stamp))))))))"

section \<open>What a step leaves alone\<close>

text \<open>
  \<open>keepsW I m\<close>: the step keeps the state property. \<open>guardsW I m\<close>: it holds again whenever the
  step ends in a \<open>RenewalError\<close>. \<open>calmW m\<close>: the step never ends in one.
\<close>

definition keepsW :: "(world \<Rightarrow> bool) \<Rightarrow> 'a wact \<Rightarrow> bool" where
  "keepsW I m \<longleftrightarrow> (\<forall>w. I w \<longrightarrow> I (snd (m w)))"

definition guardsW :: "(world \<Rightarrow> bool) \<Rightarrow> 'a wact \<Rightarrow> bool" where
  "guardsW I m \<longleftrightarrow> (\<forall>w e w'. I w \<longrightarrow> m w = (Inl e, w') \<longrightarrow> is_renewal_error e \<longrightarrow> I w')"

definition calmW :: "'a wact \<Rightarrow> bool" where
  "calmW m \<longleftrightarrow> (\<forall>w e w'. m w = (Inl e, w') \<longrightarrow> \<not> is_renewal_error e)"

lemmas wact_defs = returnW_def raiseW_def liftW_def readW_def requireW_def

lemma keepsW_simple: "keepsW I (returnW x)" "keepsW I (raiseW e)" "keepsW I (liftW r)" "keepsW I (readW g)"
  "keepsW I (requireW b e)"
  by (simp_all add: keepsW_def wact_defs)

lemma bindW_apply: "bindW m f w = (case fst (m w) of Inl e \<Rightarrow> (Inl e, snd (m w)) | Inr x \<Rightarrow> f x (snd (m w)))"
  by (simp add: bindW_def split: prod.split sum.split)

lemma keepsW_bind: "keepsW I m \<Longrightarrow> (\<And>x. keepsW I (f x)) \<Longrightarrow> keepsW I (bindW m f)"
  by (simp add: keepsW_def bindW_apply split: sum.split)

lemma keepsW_if: "(b \<Longrightarrow> keepsW I m) \<Longrightarrow> (\<not> b \<Longrightarrow> keepsW I n) \<Longrightarrow> keepsW I (if b then m else n)"
  by simp

lemma guardsW_keeps: "keepsW I m \<Longrightarrow> guardsW I m"
  unfolding keepsW_def guardsW_def by (metis snd_conv)

lemma guardsW_bind: "keepsW I m \<Longrightarrow> (\<And>x. guardsW I (f x)) \<Longrightarrow> guardsW I (bindW m f)"
  unfolding keepsW_def guardsW_def bindW_def by (fastforce split: prod.splits sum.splits)

lemma guardsW_then_calm: "guardsW I m \<Longrightarrow> (\<And>x. calmW (f x)) \<Longrightarrow> guardsW I (bindW m f)"
  unfolding calmW_def guardsW_def bindW_def by (fastforce split: prod.splits sum.splits)

lemma calmW_bind: "calmW m \<Longrightarrow> (\<And>x. calmW (f x)) \<Longrightarrow> calmW (bindW m f)"
  unfolding calmW_def bindW_def by (fastforce split: prod.splits sum.splits)

lemma calmW_simple: "calmW (returnW x)" "calmW (readW g)" "calmW (copy_file p q)" "calmW (chmod p mode)"
  "calmW (replace_file p q)" "calmW (make_dir p)" "calmW (copy_if_file p q)"
  "calmW (liftW (body_item b f))"
  by (auto simp: calmW_def wact_defs copy_file_def chmod_def replace_file_def make_dir_def copy_if_file_def bindW_apply
      is_renewal_error_def body_item_def split: option.splits if_splits json.splits)

text \<open>The files at the paths of \<open>S\<close> are those of \<open>v\<close>.\<close>

definition same_at :: "string set \<Rightarrow> (string \<Rightarrow> host_file option) \<Rightarrow> world \<Rightarrow> bool" where
  "same_at S v w \<longleftrightarrow> (\<forall>p \<in> S. w_files w p = v p)"

lemma keepsW_files:
  "p \<notin> S \<Longrightarrow> keepsW (same_at S v) (write_bytes p b)"
  "p \<notin> S \<Longrightarrow> keepsW (same_at S v) (chmod p mode)"
  "keepsW (same_at S v) (read_bytes p)"
  "keepsW (same_at S v) (make_dir p)"
  "q \<notin> S \<Longrightarrow> keepsW (same_at S v) (copy_file p q)"
  "q \<notin> S \<Longrightarrow> p \<notin> S \<Longrightarrow> keepsW (same_at S v) (replace_file p q)"
  by (auto simp: keepsW_def same_at_def write_bytes_def put_file_def chmod_def read_bytes_def make_dir_def
      copy_file_def replace_file_def split: option.split)

text \<open>Commands that only write below the temporary directory.\<close>

definition writes_below :: "tools \<Rightarrow> string \<Rightarrow> bool" where
  "writes_below to work \<longleftrightarrow>
     (\<forall>command w p. \<not> starts_with (work @ ''/'') p \<longrightarrow> w_files (snd (to_exec to command w)) p = w_files w p)"

definition outside :: "string \<Rightarrow> string set \<Rightarrow> bool" where
  "outside work S \<longleftrightarrow> (\<forall>p \<in> S. \<not> starts_with (work @ ''/'') p)"

lemma keepsW_exec: "writes_below to work \<Longrightarrow> outside work S \<Longrightarrow> keepsW (same_at S v) (exec_raw to command)"
  by (auto simp: keepsW_def same_at_def exec_raw_def writes_below_def outside_def split: prod.split process.split)
     (metis snd_conv)+

lemma keepsW_run: "writes_below to work \<Longrightarrow> outside work S \<Longrightarrow> keepsW (same_at S v) (run_command to command)"
  unfolding run_command_def by (intro keepsW_bind keepsW_exec) (auto simp: keepsW_simple split: prod.split)

lemma work_path: "starts_with (work @ ''/'') (join_path work n)"
  by (simp add: starts_with_def join_path_def)

lemma outside_work: "outside work S \<Longrightarrow> join_path work n \<notin> S"
  using work_path unfolding outside_def by blast

section \<open>The previous pair\<close>

abbreviation key_of :: "string \<Rightarrow> string" where "key_of d \<equiv> join_path d ''relay.key''"
abbreviation crt_of :: "string \<Rightarrow> string" where "crt_of d \<equiv> join_path d ''relay.crt''"
abbreviation backup_of :: "string \<Rightarrow> string \<Rightarrow> string" where "backup_of d stamp \<equiv> join_path d (''backup-'' @ stamp)"

lemma join_path_simps [simp]: "join_path d m = join_path d n \<longleftrightarrow> m = n"
  "join_path (join_path d m) n = join_path d (m @ ''/'' @ n)"
  by (simp_all add: join_path_def)

lemma install_saves:
  assumes "w_files w (key_of d) = Some a" and "w_files w (crt_of d) = Some b"
    and "install_pair stamp d kp cp w = (Inr s, w')"
  shows "s = Some (backup_of d stamp)
    \<and> same_at {key_of (backup_of d stamp), crt_of (backup_of d stamp)}
        [key_of (backup_of d stamp) \<mapsto> a, crt_of (backup_of d stamp) \<mapsto> b] w'"
proof -
  let ?bk = "key_of (backup_of d stamp)" and ?bc = "crt_of (backup_of d stamp)"
  let ?I = "same_at {?bk, ?bc} [?bk \<mapsto> a, ?bc \<mapsto> b]"
  define save where "save = bindW (readW (\<lambda>w. is_file (key_of d) w \<or> is_file (crt_of d) w)) (\<lambda>previous.
    if \<not> previous then returnW None
    else bindW (make_dir (backup_of d stamp)) (\<lambda>_. bindW (copy_if_file (key_of d) ?bk) (\<lambda>_.
         bindW (copy_if_file (crt_of d) ?bc) (\<lambda>_. returnW (Some (backup_of d stamp))))))"
  define rest where "rest saved = bindW (copy_file cp (join_path d ''.relay.crt.new'')) (\<lambda>_.
      bindW (copy_file kp (join_path d ''.relay.key.new'')) (\<lambda>_.
      bindW (chmod (join_path d ''.relay.crt.new'') public_mode) (\<lambda>_.
      bindW (chmod (join_path d ''.relay.key.new'') private_mode) (\<lambda>_.
      bindW (replace_file (join_path d ''.relay.crt.new'') (crt_of d)) (\<lambda>_.
      bindW (replace_file (join_path d ''.relay.key.new'') (key_of d)) (\<lambda>_. returnW saved))))))" for saved :: "string option"
  have install: "install_pair stamp d kp cp = bindW save rest"
    unfolding install_pair_def Let_def save_def rest_def [abs_def] by (rule refl)
  obtain w1 where w1: "save w = (Inr (Some (backup_of d stamp)), w1) \<and> ?I w1 \<or> (\<exists>e. save w = (Inl e, w1))"
    using assms(1,2)
    by (cases "w_files w (backup_of d stamp)")
       (auto simp: save_def bindW_apply wact_defs make_dir_def copy_if_file_def copy_file_def is_file_def same_at_def
          put_file_def)
  have keep: "keepsW ?I (rest saved)" for saved
    unfolding rest_def by (intro keepsW_bind keepsW_files keepsW_simple) simp_all
  have value_kept: "fst (rest saved v) = Inr s \<Longrightarrow> s = saved" for saved v
    by (auto simp: rest_def bindW_apply wact_defs split: sum.splits)
  from assms(3) w1 have "save w = (Inr (Some (backup_of d stamp)), w1)" "?I w1"
    and r: "rest (Some (backup_of d stamp)) w1 = (Inr s, w')"
    by (auto simp: install bindW_def)
  with keep value_kept [of "Some (backup_of d stamp)" w1] show ?thesis
    unfolding keepsW_def by (metis fst_conv snd_conv)
qed

lemma calm_install: "calmW (install_pair stamp d kp cp)"
  unfolding install_pair_def Let_def by (intro calmW_bind calmW_simple) (auto intro!: calmW_bind calmW_simple)

lemma restore_restores:
  assumes "writes_below to work" and "outside work {key_of d, crt_of d}"
    and "same_at {key_of b, crt_of b} [key_of b \<mapsto> k, crt_of b \<mapsto> c] w"
    and "key_of b \<noteq> crt_of d"
  shows "same_at {key_of d, crt_of d} [key_of d \<mapsto> k, crt_of d \<mapsto> c] (snd (restore_pair to (Some b) d container w))"
proof -
  let ?I = "same_at {key_of d, crt_of d} [key_of d \<mapsto> k, crt_of d \<mapsto> c]"
  define w2 where "w2 = put_file (key_of d) k (put_file (crt_of d) c w)"
  have "?I w2" by (simp add: same_at_def w2_def put_file_def)
  moreover have "keepsW ?I (reload_relay to container)"
    unfolding reload_relay_def by (intro keepsW_bind keepsW_run [OF assms(1,2)] keepsW_simple)
  ultimately have "?I (snd (reload_relay to container w2))" by (simp add: keepsW_def)
  moreover have "snd (restore_pair to (Some b) d container w) = snd (reload_relay to container w2)"
    using assms(3,4)
    by (auto simp: restore_pair_def bindW_apply copy_if_file_def readW_def is_file_def copy_file_def same_at_def
        put_file_def w2_def split: prod.split sum.split)
  ultimately show ?thesis by simp
qed

lemma keepsW_checks:
  assumes "writes_below to work" and "outside work S"
  shows "keepsW (same_at S v) (reload_relay to container)"
    and "keepsW (same_at S v) (live_handshake to ip port ca)"
    and "keepsW (same_at S v) (verify_pair to ca kp cp ip)"
    and "keepsW (same_at S v) (leaf_not_after to path)"
    and "keepsW (same_at S v) (make_csr to work ip cn)"
proof -
  note run = keepsW_run [OF assms] keepsW_exec [OF assms]
  show "keepsW (same_at S v) (reload_relay to container)"
    unfolding reload_relay_def by (intro keepsW_bind run keepsW_simple)
  show "keepsW (same_at S v) (live_handshake to ip port ca)"
    unfolding live_handshake_def by (intro keepsW_bind run) (auto simp: keepsW_simple split: prod.split)
  show "keepsW (same_at S v) (verify_pair to ca kp cp ip)"
    unfolding verify_pair_def by (intro keepsW_bind run keepsW_simple)
  show "keepsW (same_at S v) (leaf_not_after to path)"
    unfolding leaf_not_after_def
    by (intro keepsW_bind run keepsW_simple keepsW_if)
       (auto intro!: keepsW_bind keepsW_simple run split: option.split)
  show "keepsW (same_at S v) (make_csr to work ip cn)"
    unfolding make_csr_def Let_def
    by (intro keepsW_bind run keepsW_simple keepsW_files outside_work [OF assms(2)])
qed

lemma swap_guards:
  assumes "writes_below to work" and "outside work {key_of d, crt_of d, key_of (backup_of d stamp), crt_of (backup_of d stamp)}"
    and d: "ag_tls_dir args = d"
  shows "guardsW (same_at {key_of d, crt_of d} [key_of d \<mapsto> k, crt_of d \<mapsto> c]) (swap_and_check to args stamp kp cp)"
  unfolding guardsW_def
proof (intro allI impI)
  fix w e w'
  let ?I = "same_at {key_of d, crt_of d} [key_of d \<mapsto> k, crt_of d \<mapsto> c]" and ?b = "backup_of d stamp"
  let ?J = "same_at {key_of ?b, crt_of ?b} [key_of ?b \<mapsto> k, crt_of ?b \<mapsto> c]"
  let ?check = "bindW (reload_relay to (ag_container args)) (\<lambda>_.
      live_handshake to (ag_relay_ip args) (ag_relay_port args) (ag_ca_cert args))"
  assume I: "?I w" and swap: "swap_and_check to args stamp kp cp w = (Inl e, w')" and e: "is_renewal_error e"
  have out: "outside work {key_of d, crt_of d}" "outside work {key_of ?b, crt_of ?b}"
    using assms(2) by (simp_all add: outside_def)
  obtain r w1 where inst: "install_pair stamp d kp cp w = (r, w1)" by (metis surj_pair)
  show "?I w'"
  proof (cases r)
    case (Inl e1)
    with inst swap d have "e1 = e" by (simp add: swap_and_check_def bindW_def)
    with calm_install inst Inl e show ?thesis unfolding calmW_def by blast
  next
    case (Inr s)
    have "w_files w (key_of d) = Some k" "w_files w (crt_of d) = Some c" using I by (simp_all add: same_at_def)
    from install_saves [OF this inst [unfolded Inr]] have s: "s = Some ?b" and J: "?J w1" by auto
    obtain r2 w2 where check: "?check w1 = (r2, w2)" by (metis surj_pair)
    have "keepsW ?J ?check" by (intro keepsW_bind keepsW_checks [OF assms(1) out(2)])
    with J check have J2: "?J w2" unfolding keepsW_def by (metis snd_conv)
    show ?thesis
    proof (cases r2)
      case (Inl e2)
      with inst Inr check swap d e
      have "snd (restore_pair to (Some ?b) d (ag_container args) w2) = w'"
        by (auto simp: swap_and_check_def bindW_def s raiseW_def split: if_splits prod.splits sum.splits)
      with restore_restores [OF assms(1) out(1) J2] show ?thesis by auto
    next
      case (Inr u)
      with inst \<open>r = Inr s\<close> check swap d show ?thesis by (simp add: swap_and_check_def bindW_def)
    qed
  qed
qed

lemma renew_guards:
  assumes "writes_below to work" and "outside work {key_of d, crt_of d, key_of (backup_of d stamp), crt_of (backup_of d stamp)}"
    and d: "ag_tls_dir args = d"
  shows "guardsW (same_at {key_of d, crt_of d} [key_of d \<mapsto> k, crt_of d \<mapsto> c]) (renew to args token work stamp)"
proof -
  have out: "outside work {key_of d, crt_of d}" using assms(2) by (simp add: outside_def)
  note kept = keepsW_simple keepsW_checks [OF assms(1) out] keepsW_files
  let ?I = "same_at {key_of d, crt_of d} [key_of d \<mapsto> k, crt_of d \<mapsto> c]"
  have tail: "guardsW ?I (bindW (swap_and_check to args stamp kp cp) (\<lambda>backup.
      bindW (liftW (body_item body ''sha256_fingerprint'')) (\<lambda>fingerprint.
      bindW (liftW (body_item body ''not_after'')) (\<lambda>not_after.
      returnW (Renewed fingerprint not_after backup)))))" for kp cp body
    by (intro guardsW_then_calm calmW_bind calmW_simple swap_guards [OF assms])
  show ?thesis
    unfolding renew_def Let_def case_prod_beta
    by (intro tail guardsW_bind kept outside_work [OF out])
qed

text \<open>
  C36. A renewal that fails leaves the relay with the pair it had: whenever the script ends in a
  RenewalError, before the swap or after it, the key and the certificate in the TLS directory
  are, in content and mode, those the run began with. The commands it runs are taken to write
  below the temporary directory only.
\<close>

theorem failed_renewal_keeps_pair:
  assumes "writes_below to work"
    and "outside work {join_path (ag_tls_dir args) n | n. True}"
    and "is_file (key_of (ag_tls_dir args)) w" and "is_file (crt_of (ag_tls_dir args)) w"
    and "main to args admin_token now work stamp w = (Inl e, w')" and "is_renewal_error e"
  shows "w_files w' (key_of (ag_tls_dir args)) = w_files w (key_of (ag_tls_dir args))
    \<and> w_files w' (crt_of (ag_tls_dir args)) = w_files w (crt_of (ag_tls_dir args))"
proof -
  define d where "d = ag_tls_dir args"
  obtain k c where kc: "w_files w (key_of d) = Some k" "w_files w (crt_of d) = Some c"
    using assms(3,4) by (auto simp: is_file_def d_def)
  let ?I = "same_at {key_of d, crt_of d} [key_of d \<mapsto> k, crt_of d \<mapsto> c]"
  have all: "outside work {key_of d, crt_of d, key_of (backup_of d stamp), crt_of (backup_of d stamp)}"
    using assms(2) by (auto simp: outside_def d_def)
  then have out: "outside work {key_of d, crt_of d}" by (simp add: outside_def)
  have temp: "guardsW ?I (with_temp_dir work (renew to args token work stamp))" for token
    unfolding guardsW_def
  proof (intro allI impI)
    fix v e v' assume "?I v" and "with_temp_dir work (renew to args token work stamp) v = (Inl e, v')" "is_renewal_error e"
    moreover obtain r u where run: "renew to args token work stamp (v\<lparr>w_dirs := (w_dirs v)(work := True)\<rparr>) = (r, u)"
      by (metis surj_pair)
    ultimately have r: "r = Inl e" and v': "v' = u\<lparr>w_files := \<lambda>p. if starts_with (work @ ''/'') p then None else w_files u p,
        w_dirs := (w_dirs u)(work := False)\<rparr>"
      and "?I (v\<lparr>w_dirs := (w_dirs v)(work := True)\<rparr>)"
      by (simp_all add: with_temp_dir_def same_at_def)
    with renew_guards [OF assms(1) all d_def [symmetric], of k c token] run \<open>is_renewal_error e\<close> have "?I u"
      unfolding guardsW_def by blast
    with out show "?I v'" unfolding v' by (simp add: same_at_def outside_def)
  qed
  have "guardsW ?I (main to args admin_token now work stamp)"
    unfolding main_def Let_def
    by (intro guardsW_bind keepsW_simple keepsW_checks [OF assms(1) out])
       (auto intro: temp guardsW_keeps keepsW_simple split: option.split)
  moreover have "?I w" using kc by (simp add: same_at_def)
  ultimately have "?I w'" using assms(5,6) unfolding guardsW_def by blast
  with kc show ?thesis by (simp add: same_at_def d_def)
qed

section \<open>Runs of the script\<close>

text \<open>A host on which \<open>docker\<close> and the TLS check after the swap end as given.\<close>

definition demo_exec :: "process \<Rightarrow> string \<Rightarrow> string list \<Rightarrow> world \<Rightarrow> process \<times> world" where
  "demo_exec docker handshake command w =
     (let verb = command ! 1 in
      if hd command = ''docker'' then (docker, w)
      else if verb = ''genpkey'' then (Exited 0 [], put_file ''/w/relay.key'' \<lparr>f_content = [2], f_mode = public_mode\<rparr> w)
      else if verb = ''req'' then (Exited 0 [], put_file ''/w/relay.csr'' \<lparr>f_content = [67], f_mode = public_mode\<rparr> w)
      else if verb = ''s_client'' then (Exited 0 (bytes_of handshake), w)
      else if last command = ''subjectAltName'' then (Exited 0 (bytes_of ''IP Address:10.21.4.101''), w)
      else if last command = ''-enddate'' then (Exited 0 (bytes_of ''notAfter=Jan  2 00:00:00 1970 GMT''), w)
      else (Exited 0 [], w))"

definition demo_tools :: "process \<Rightarrow> string \<Rightarrow> tools" where
  "demo_tools docker handshake =
     \<lparr>to_exec = demo_exec docker handshake,
      to_post = (\<lambda>_ _ _. HubBody (JObj [(''certificate_pem'', JStr ''new''), (''sha256_fingerprint'', JStr ''AA''),
                                       (''not_after'', JStr ''later'')]))\<rparr>"

definition demo_args :: arguments where
  "demo_args = \<lparr>ag_hub_url = ''http://hub/'', ag_tls_dir = ''/t'', ag_ca_cert = ''/ca'', ag_relay_ip = ''10.21.4.101'',
     ag_relay_port = 3051, ag_container = ''relay'', ag_renew_before_days = 30, ag_force = False\<rparr>"

definition demo_world :: world where
  "demo_world = \<lparr>w_files = [''/ca'' \<mapsto> \<lparr>f_content = [9], f_mode = public_mode\<rparr>,
       ''/t/relay.key'' \<mapsto> \<lparr>f_content = [1], f_mode = private_mode\<rparr>,
       ''/t/relay.crt'' \<mapsto> \<lparr>f_content = [3], f_mode = public_mode\<rparr>],
     w_dirs = (\<lambda>p. p = ''/t'')\<rparr>"

definition demo_run :: "process \<Rightarrow> string \<Rightarrow> world \<Rightarrow> outcome res \<times> world" where
  "demo_run docker handshake w = main (demo_tools docker handshake) demo_args (Some ''token'') 0 ''/w'' ''1'' w"

definition installed_key :: "outcome res \<times> world \<Rightarrow> bytes option" where
  "installed_key p = map_option f_content (w_files (snd p) ''/t/relay.key'')"

lemma demo_writes_below: "writes_below (demo_tools docker handshake) ''/w''"
  by (auto simp: writes_below_def demo_tools_def demo_exec_def put_file_def starts_with_def Let_def)

lemma failed_check:
  "(case fst (demo_run (Exited 0 []) ''Verify return code: 18'' demo_world) of
      Inl e \<Rightarrow> is_renewal_error e | Inr _ \<Rightarrow> False)"
  by code_simp

theorem failed_renewal_keeps_pair_witness:
  "w_files (snd (demo_run (Exited 0 []) ''Verify return code: 18'' demo_world)) (key_of ''/t'')
   = w_files demo_world (key_of ''/t'')"
proof -
  let ?p = "demo_run (Exited 0 []) ''Verify return code: 18'' demo_world"
  obtain e where e: "fst ?p = Inl e" "is_renewal_error e"
    using failed_check by (cases "fst ?p") simp_all
  then have p: "main (demo_tools (Exited 0 []) ''Verify return code: 18'') demo_args (Some ''token'') 0 ''/w'' ''1'' demo_world
      = (Inl e, snd ?p)"
    by (metis demo_run_def prod.collapse)
  have "outside ''/w'' {join_path (ag_tls_dir demo_args) n | n. True}"
    by (auto simp: outside_def demo_args_def join_path_def starts_with_def)
  moreover have "is_file (key_of (ag_tls_dir demo_args)) demo_world" "is_file (crt_of (ag_tls_dir demo_args)) demo_world"
    by (simp_all add: demo_args_def join_path_def is_file_def demo_world_def)
  ultimately show ?thesis
    using failed_renewal_keeps_pair [OF demo_writes_below _ _ _ p e(2)] by (simp add: demo_args_def)
qed

text \<open>A run that succeeds installs the new key.\<close>

lemma renewed: "installed_key (demo_run (Exited 0 []) ''Verify return code: 0 (ok)'' demo_world) = Some [2]"
  by code_simp

text \<open>
  The promise of the script's documentation is wider than what holds: a failure that is no
  \<open>RenewalError\<close>, here a missing \<open>docker\<close>, leaves the new pair in place, and so does any failure
  on a host that had no pair before.
\<close>

lemma missing_program_not_rolled_back:
  "(case demo_run ProgramMissing [] demo_world of
      (r, w) \<Rightarrow> isl r \<and> installed_key (r, w) = Some [2])"
  by code_simp

lemma first_pair_not_rolled_back:
  "(case demo_run (Exited 1 []) [] (demo_world\<lparr>w_files := [''/ca'' \<mapsto> \<lparr>f_content = [9], f_mode = public_mode\<rparr>]\<rparr>) of
      (r, w) \<Rightarrow> isl r \<and> installed_key (r, w) = Some [2])"
  by code_simp

text \<open>The check of the relay address is a search for a text, so a longer address passes for a shorter one.\<close>

lemma address_prefix_accepted:
  "occurs_in (utf8_encode (''IP Address:'' @ ''10.21.4.10'')) (bytes_of ''IP Address:10.21.4.101'')"
  by code_simp

end
