(* ===== verification/RuntimePaths.thy ===== *)
theory RuntimePaths
  imports PyText
begin

text \<open>
  \<open>scripts/ci_runtime_paths.py\<close>: which changed paths can change a published image. \<open>git diff\<close> is a
  parameter, the list of the lines it prints or a failure; what the script prints is its result.
\<close>

section \<open>Classifying paths\<close>

definition RUNTIME_PREFIXES :: "string list" where
  "RUNTIME_PREFIXES = [''remote_agent_connector/'', ''deploy/'']"

definition RUNTIME_FILES :: "string list" where
  "RUNTIME_FILES = [''Dockerfile'', ''README.md'', ''pyproject.toml'', ''.dockerignore'']"

definition ZERO_SHA :: string where
  "ZERO_SHA = replicate 40 (CHR ''0'')"

definition normalize_path :: "string \<Rightarrow> string" where
  "normalize_path path =
     (let raw = py_strip path; normalized = (if starts_with ''./'' raw then drop 2 raw else raw)
      in py_lstrip (\<lambda>c. c = CHR ''/'') normalized)"

definition is_runtime_path :: "string \<Rightarrow> bool" where
  "is_runtime_path path =
     (let normalized = normalize_path path in
      normalized = [] \<or> normalized \<in> set RUNTIME_FILES
      \<or> list_ex (\<lambda>p. starts_with p normalized) RUNTIME_PREFIXES
      \<or> list_ex (\<lambda>p. normalized @ ''/'' = p) RUNTIME_PREFIXES)"

definition classify :: "string list \<Rightarrow> bool \<times> string list" where
  "classify paths = (let hits = sort (remdups (filter is_runtime_path paths)) in (hits \<noteq> [], hits))"

definition changed_paths :: "(string \<Rightarrow> string \<Rightarrow> string list option) \<Rightarrow> string \<Rightarrow> string \<Rightarrow> string list option" where
  "changed_paths git_diff base head =
     map_option (filter (\<lambda>line. py_strip line \<noteq> [])) (git_diff base head)"

record ci_report =
  ci_runtime :: bool
  ci_reason :: string
  ci_changed :: "nat option"
  ci_hits :: "string list"

definition ci_unknown :: "string \<Rightarrow> ci_report" where
  "ci_unknown reason = \<lparr>ci_runtime = True, ci_reason = reason, ci_changed = None, ci_hits = []\<rparr>"

definition ci_classified :: "string \<Rightarrow> string list \<Rightarrow> ci_report" where
  "ci_classified reason paths =
     (case classify paths of (runtime, hits) \<Rightarrow>
        \<lparr>ci_runtime = runtime, ci_reason = reason, ci_changed = Some (length paths), ci_hits = hits\<rparr>)"

definition ci_main :: "(string \<Rightarrow> string \<Rightarrow> string list option) \<Rightarrow> string \<Rightarrow> string \<Rightarrow> string list \<Rightarrow> ci_report" where
  "ci_main git_diff base_arg head_arg path_args =
     (let base = py_strip base_arg; head = py_strip head_arg in
      if path_args \<noteq> [] then ci_classified ''explicit-paths'' path_args
      else if base = [] \<or> base = ZERO_SHA \<or> head = [] then ci_unknown ''base-unknown''
      else case changed_paths git_diff base head of
             None \<Rightarrow> ci_unknown ''diff-failed''
           | Some paths \<Rightarrow> ci_classified ''git-range'' paths)"

section \<open>Properties\<close>

lemma classify_hits:
  "set (snd (classify paths)) = {p \<in> set paths. is_runtime_path p}"
  "sorted (snd (classify paths))" "distinct (snd (classify paths))"
  by (auto simp: classify_def Let_def)

lemma classify_runtime: "fst (classify paths) \<longleftrightarrow> (\<exists>p \<in> set paths. is_runtime_path p)"
proof -
  have "fst (classify paths) \<longleftrightarrow> set (snd (classify paths)) \<noteq> {}"
    unfolding classify_def Let_def fst_conv snd_conv set_empty by (rule refl)
  then show ?thesis unfolding classify_hits by blast
qed

lemma classify_none: "\<not> fst (classify paths) \<longleftrightarrow> snd (classify paths) = []"
  by (simp add: classify_def Let_def)

text \<open>
  A push is reported as not changing an image only after its changed paths were read, by
  argument or from \<open>git\<close>, and none of them is a runtime path: an unknown base, a missing head and
  a failing diff all count as runtime.
\<close>

theorem skipped_publish_is_explained:
  assumes "\<not> ci_runtime (ci_main git_diff base_arg head_arg path_args)"
  shows "\<exists>paths. (\<forall>p \<in> set paths. \<not> is_runtime_path p)
    \<and> ci_changed (ci_main git_diff base_arg head_arg path_args) = Some (length paths)
    \<and> ci_hits (ci_main git_diff base_arg head_arg path_args) = []
    \<and> (path_args \<noteq> [] \<and> paths = path_args
       \<or> path_args = [] \<and> changed_paths git_diff (py_strip base_arg) (py_strip head_arg) = Some paths)"
proof -
  from assms obtain reason paths where r: "ci_main git_diff base_arg head_arg path_args = ci_classified reason paths"
    and src: "path_args \<noteq> [] \<and> paths = path_args
       \<or> path_args = [] \<and> changed_paths git_diff (py_strip base_arg) (py_strip head_arg) = Some paths"
    by (auto simp: ci_main_def Let_def ci_unknown_def split: if_splits option.splits)
  have "\<not> fst (classify paths)" using assms by (simp add: r ci_classified_def split: prod.splits)
  with classify_runtime [of paths] classify_none [of paths] src show ?thesis
    by (intro exI [of _ paths]) (auto simp: r ci_classified_def split: prod.splits)
qed

theorem skipped_publish_is_explained_witness:
  "\<exists>paths. (\<forall>p \<in> set paths. \<not> is_runtime_path p)
    \<and> ci_changed (ci_main (\<lambda>_ _. Some [''docs/a.md'', '' '']) ''abc'' ''def'' []) = Some (length paths)"
proof -
  have "\<not> ci_runtime (ci_main (\<lambda>_ _. Some [''docs/a.md'', '' '']) ''abc'' ''def'' [])" by code_simp
  from skipped_publish_is_explained [OF this] show ?thesis by blast
qed

text \<open>
  Paths outside the lists are not treated as runtime, whatever they are, although the comment
  promises that anything the classifier cannot explain is.
\<close>

lemma unexplained_paths_are_skipped:
  "\<not> is_runtime_path ''Makefile''" "\<not> is_runtime_path ''lib/new_module.py''" "is_runtime_path ''./.dockerignore''"
  by code_simp+

end
