(* ===== verification/Spec2Isabelle.thy ===== *)
theory Spec2Isabelle
  imports Lifetime Wire Settlement Onboarding AppAssertion Application Adapter Renewal RuntimePaths
begin

text \<open>
  The Remote Agent Connector: a service between a Hub, which sends tool calls over HTTP, and
  devices, which keep a websocket open to a relay. A device enrols once with a token an operator
  issued, signs a challenge on every later connection, and from then on receives the commands
  that are addressed to it. This development models the Python package
  \<open>remote_agent_connector\<close> and the two programs under \<open>scripts\<close>, and proves the theorems its
  manifest lists.

  \<^bold>\<open>How the parts interact.\<close> A tool call arrives with a bearer token and signed identity headers
  (\<open>server.py\<close>), becomes a call of \<open>device_command\<close> (\<open>service.py\<close>), which checks the device in the
  store (\<open>store.py\<close>), looks up its session in the registry (\<open>relay.py\<close>), claims the idempotency key
  in the store, takes the collision guard, writes a frame to the websocket of the session and
  waits for the future that the reader of that websocket resolves. The reader is the relay
  endpoint (\<open>relay.py\<close>), which first runs the enrolment or the authentication handshake against the
  service. The operator issues tokens, revokes, renames and deletes devices and cancels requests
  through routes of \<open>server.py\<close>.

  \<^bold>\<open>Theories, in the order of their imports.\<close>

  \<^item> \<open>Prelude\<close>: exceptions and results (\<open>exn\<close>, \<open>res\<close>, \<open>bindR\<close>), tables with a primary key, and the
    interfaces \<open>row_update\<close>, \<open>invariant_machine\<close>, \<open>one_shot\<close> and \<open>exclusive_guard\<close>, each interpreted on
    the model where it is used.
  \<^item> \<open>PyText\<close>, \<open>PyCodec\<close>, \<open>PyNet\<close>, \<open>PyTime\<close>, \<open>Json\<close>: what the program uses of Python: text operations and
    anchored patterns, numerals, UTF-8, base64 and uuids, \<open>urlparse\<close> and \<open>ipaddress\<close>, the UTC
    calendar and \<open>isoformat\<close>, JSON values and their canonical text.
  \<^item> \<open>Protocol\<close> (\<open>protocol.py\<close>), \<open>Errors\<close> (\<open>errors.py\<close>), \<open>Redaction\<close> (\<open>redaction.py\<close>): parsers, signed
    texts and delegation headers; the closed vocabulary of relay errors; audit redaction.
  \<^item> \<open>Store\<close> (\<open>store.py\<close> and the schema): the six tables in the record \<open>store\<close>, one function per
    operation. \<open>StoreInv\<close> makes them a state machine (\<open>store_op\<close>, \<open>store_step\<close>) with an invariant;
    \<open>Liveness\<close>, \<open>OneShot\<close> and \<open>Ledger\<close> prove its contracts: routing reads and generations, tokens and
    challenges spent once, and the idempotency ledger as a refinement of a finite map.
  \<^item> \<open>Service\<close> and \<open>Handshake\<close> (\<open>service.py\<close>): enrolment, authentication and administration, what
    success guarantees and what failure leaves behind; \<open>Onboarding\<close>: the whole way of a device that
    follows the protocol (\<open>come_online\<close>) succeeds.
  \<^item> \<open>Relay\<close> (\<open>relay.py\<close>): sessions, futures, the registry and the messages of a session over the
    record \<open>hub\<close>. \<open>Dispatch\<close> (\<open>service.py\<close>): \<open>device_command\<close> split where it suspends.
  \<^item> \<open>System\<close>: the step relation \<open>sys_step\<close> interleaves all of this, its reachable states carry the
    invariants on guards (\<open>System\<close>), on futures and sessions (\<open>Routing\<close>) and on the ledger rows of the
    commands under way (\<open>Settlement\<close>).
  \<^item> \<open>Endpoint\<close> (\<open>relay.py\<close>): the life of one connection, one step per suspension point, refining the
    step relation; \<open>conversation\<close> is what the connection itself says. \<open>Wire\<close>: the same connection inside
    the system, with the commands and cancellations that \<open>service.py\<close> hands to its websocket.
    \<open>Lifetime\<close>: how many steps a connection takes.
  \<^item> \<open>AppAssertion\<close> (\<open>app_assertion.py\<close>): the device-side verifier with its table of seen ids.
  \<^item> \<open>Config\<close> (\<open>config.py\<close>), \<open>Certificates\<close> (\<open>tls_publication.py\<close>, \<open>certificate_authority.py\<close>), \<open>Tools\<close> and
    \<open>Server\<close> (\<open>server.py\<close>), \<open>Renewal\<close> (\<open>scripts/renew_relay_certificate.py\<close>), \<open>Migrations\<close> and \<open>Adapter\<close> (\<open>db.py\<close> and
    the migration of \<open>store.py\<close>), \<open>RuntimePaths\<close> (\<open>scripts/ci_runtime_paths.py\<close>). \<open>Application\<close>: \<open>create_app\<close> of
    \<open>server.py\<close> and \<open>__main__.py\<close>, which hand the configuration to these parts.

  \<^bold>\<open>Conventions.\<close> A raise is \<open>Inl\<close> of an \<open>exn\<close>; state is passed explicitly and an exception outside a
  transaction keeps the writes before it, inside one it undoes them. Calls that draw randomness,
  read the clock or make a uuid take the value as an argument. A coroutine is split at every
  \<open>await\<close> that can suspend; between two of them the event loop runs it alone, which is the step of
  \<open>sys_step\<close>. The locks of the registry and the store are not modelled: none is held across a
  suspension. SHA-256, HMAC, Ed25519, \<open>json.loads\<close>, X.509, \<open>openssl\<close>, \<open>docker\<close>, \<open>git\<close> and the SQL engine of
  a migration are arguments of the definitions that use them; a theorem that needs something of
  them has it as a hypothesis and a witness with a concrete function.

  \<^bold>\<open>What the theorems show.\<close>

  \<^item> \<^emph>\<open>Commands.\<close> A command that reaches a device is authorised, fresh, within the tier of the device
    and new (\<open>Dispatch\<close>); from an HTTP call to the frame the tool and its arguments are kept
    (\<open>Tools\<close>); equal mutating commands exclude each other and a guard is taken exactly while its
    holder runs (\<open>System\<close>); a response resolves only the command it answers (\<open>Routing\<close>); a command
    under way that ends leaves a result in the ledger unless its task is cancelled (\<open>Settlement\<close>);
    a request that the guard refuses is no such command, and its claim stays open (\<open>Dispatch\<close>).
  \<^item> \<^emph>\<open>Identity.\<close> Enrolment, authentication, delegation headers and app assertions are accepted only
    with the signatures, bindings and freshness the code promises, tokens and challenges once,
    revocation is final, and a device that follows the protocol does come online (\<open>Handshake\<close>,
    \<open>Onboarding\<close>, \<open>Protocol\<close>, \<open>OneShot\<close>, \<open>AppAssertion\<close>, \<open>StoreInv\<close>, \<open>Server\<close>).
  \<^item> \<^emph>\<open>Storage.\<close> Every reachable store keeps its keys and the agreement of its columns, the request
    table refines the abstract ledger, stored times compare as texts the way times compare, and
    each migration runs once (\<open>StoreInv\<close>, \<open>Ledger\<close>, \<open>Liveness\<close>, \<open>Migrations\<close>, this theory).
  \<^item> \<^emph>\<open>Connections.\<close> The endpoint refines the system and sends \<open>ready\<close> only to registered devices
    (\<open>Endpoint\<close>); a websocket is handed the messages of the protocol in order, commands only after the
    ready frame, and errors only from a fixed list; a connection that ends leaves no route and wakes
    the commands in its table (\<open>Wire\<close>); and it does end: at most eight steps before the session and
    two after it (\<open>Lifetime\<close>).
  \<^item> \<^emph>\<open>Administration.\<close> A loaded configuration is within its bounds, operator routes change nothing
    without the operator token, the three device routes answer and act by the state of the device, a signed certificate is a
    server-only leaf for the one address, a failed renewal keeps the old pair, and a running
    application keeps its three credentials apart (\<open>Application\<close>).

  Theorems with names such as \<open>guard_refusal_strands_claim\<close>, \<open>keyset_never_expires\<close>, \<open>urls_as_paths\<close> or
  \<open>leaf_may_outlive_ca\<close> record behaviours of the code that differ from its own comments.

  \<^bold>\<open>Bounds and fuel.\<close> No definition carries fuel: recursion is structural or has a proved
  measure. \<open>in_range\<close> is the range of \<open>datetime\<close>, the years 1 to 9999; times are microseconds in
  \<open>int\<close>, as the code's \<open>timedelta\<close> arithmetic is exact, and integers are unbounded as in Python except
  where SQLite keeps 64 bits (\<open>fits_sqlite\<close>).

  \<^bold>\<open>Not modelled.\<close>

  \<^item> Code points from 256 on: a text is a list of \<open>char\<close>, so \<open>str.isdigit\<close>, \<open>strip\<close> and case mapping are
    those of the first 256. Floating point infinities and NaN in JSON; arithmetic beyond the
    range of \<open>datetime\<close>. Of the authentications whose context epoch is no integer, those that are
    refused have their step; one that an enrolled device validly signed has none (SQLite stores a
    text, a truth value or a fraction and the connection becomes ready; it rejects the rest).
  \<^item> SQLite itself (a table is a list of rows, a transaction one step), its column affinity for a
    connector id that is a number (a parameter), its indexes; opening and closing connections.
  \<^item> FastMCP, Starlette, uvicorn and the websocket library: a tool is a function of typed
    arguments, a route a function of what the handler reads of the request, a websocket the
    events that end a suspension; the text of log lines.
  \<^item> Owner and umask of files in \<open>Renewal\<close>, and the tail of the messages its failing commands print.
  \<^item> Tests, the JSON contracts, container and proxy configuration.
\<close>

section \<open>Stored times\<close>

text \<open>
  C40. The store writes a time as the text of its whole seconds in UTC, and its SQL compares these
  texts: as long as the times are in the range of datetime, comparing two texts character by
  character is comparing the seconds, and equal texts are equal seconds. So the expiry, liveness
  and ordering clauses of every query mean what the model's comparisons of integers mean.
\<close>

theorem stored_times_compare_as_texts:
  assumes "in_range (as_timestamp a)" and "in_range (as_timestamp b)"
  shows "(isoformat_seconds (as_timestamp a) < isoformat_seconds (as_timestamp b) \<longleftrightarrow> as_timestamp a < as_timestamp b)
    \<and> (isoformat_seconds (as_timestamp a) = isoformat_seconds (as_timestamp b) \<longleftrightarrow> as_timestamp a = as_timestamp b)"
  by (simp add: assms isoformat_seconds_less isoformat_seconds_inj)

theorem stored_times_compare_as_texts_witness:
  "isoformat_seconds (as_timestamp 1999999) = ''1970-01-01T00:00:01+00:00''
   \<and> isoformat_seconds (as_timestamp 1999999) < isoformat_seconds (as_timestamp 951782400000000)"
proof -
  have "in_range (as_timestamp 1999999)" "in_range (as_timestamp 951782400000000)"
    and first: "isoformat_seconds (as_timestamp 1999999) = ''1970-01-01T00:00:01+00:00''"
    by code_simp+
  from stored_times_compare_as_texts [OF this(1,2)] first show ?thesis by (simp add: as_timestamp_def)
qed

end
